(* ===== verification/Prelude.thy ===== *)
theory Prelude
  imports Main "HOL-Library.Word" "HOL-Library.Monad_Syntax"
begin

text \<open>
  Shared types, memory model and automation of the development.

  \<^item> Platform constants. The build described in README.txt selects the x86-32 target, so
    \<open>int\<close>, \<open>unsigned long\<close>, \<open>size_t\<close>, \<open>ssize_t\<close>, \<open>mode_t\<close> and \<open>l4_umword_t\<close> are 32 bits
    wide, \<open>off64_t\<close> is 64 bits wide and a page has 4096 bytes. The numeric error codes and the size
    of the UTCB data area are the values the platform headers give for that target.
  \<^item> Memory. A C object (an array, a malloc block, an attached dataspace) is a
    \<open>membuf\<close>: its size and its cells. Reads and writes are bounds checked.
  \<^item> Undefined behaviour. Every operation that can leave the bounds of a C object returns an
    \<open>option\<close>; \<open>None\<close> means that the code has stepped outside an object. Errors the code
    reports are ordinary return values.
\<close>

unbundle bit_operations_syntax

named_theorems membuf_simps \<open>facts about bounds checked memory\<close>
named_theorems inv_simps \<open>definitions of the component invariants\<close>

section \<open>Machine types and platform constants\<close>

type_synonym byte = char
type_synonym u8 = "8 word"
type_synonym u32 = "32 word"
type_synonym u64 = "64 word"

abbreviation NUL :: byte where "NUL \<equiv> CHR 0x00"

abbreviation (input) L4_EOK :: int where "L4_EOK \<equiv> 0"
abbreviation (input) L4_ENOENT :: int where "L4_ENOENT \<equiv> 2"
abbreviation (input) L4_ENOMEM :: int where "L4_ENOMEM \<equiv> 12"
abbreviation (input) L4_ENAMETOOLONG :: int where "L4_ENAMETOOLONG \<equiv> 36"
abbreviation (input) L4_ENOSYS :: int where "L4_ENOSYS \<equiv> 38"
abbreviation (input) L4_EBADPROTO :: int where "L4_EBADPROTO \<equiv> 39"
abbreviation (input) L4_ENOREPLY :: int where "L4_ENOREPLY \<equiv> 1000"
abbreviation (input) EBADF :: int where "EBADF \<equiv> 9"
abbreviation (input) ENOMEM :: int where "ENOMEM \<equiv> 12"
abbreviation (input) EINVAL :: int where "EINVAL \<equiv> 22"

abbreviation (input) L4_PAGESIZE :: nat where "L4_PAGESIZE \<equiv> 4096"
abbreviation (input) L4_UTCB_GENERIC_DATA_SIZE :: nat where "L4_UTCB_GENERIC_DATA_SIZE \<equiv> 63"
abbreviation (input) sizeof_umword :: nat where "sizeof_umword \<equiv> 4"

text \<open>Flags of \<open>open\<close>.\<close>

definition O_RDONLY :: u32 where "O_RDONLY = 0"
definition O_RDWR :: u32 where "O_RDWR = 2"
definition O_CREAT :: u32 where "O_CREAT = 0x40"
definition O_EXCL :: u32 where "O_EXCL = 0x80"
definition O_TRUNC :: u32 where "O_TRUNC = 0x200"
definition O_DIRECTORY :: u32 where "O_DIRECTORY = 0x10000"

lemmas open_flags = O_RDONLY_def O_RDWR_def O_CREAT_def O_EXCL_def O_TRUNC_def O_DIRECTORY_def

section \<open>Bounds checked memory\<close>

record membuf =
  msize :: nat
  mcell :: "nat \<Rightarrow> byte"

definition mzero :: "nat \<Rightarrow> membuf" where
  "mzero n = \<lparr>msize = n, mcell = (\<lambda>_. NUL)\<rparr>"

definition mread :: "membuf \<Rightarrow> nat \<Rightarrow> nat \<Rightarrow> byte list option" where
  "mread b off n = (if off + n \<le> msize b then Some (map (mcell b) [off..<off + n]) else None)"

definition mwrite :: "membuf \<Rightarrow> nat \<Rightarrow> byte list \<Rightarrow> membuf option" where
  "mwrite b off bs =
     (if off + length bs \<le> msize b
      then Some (b\<lparr>mcell := (\<lambda>i. if off \<le> i \<and> i < off + length bs then bs ! (i - off) else mcell b i)\<rparr>)
      else None)"

text \<open>The C string that starts at an offset; \<open>None\<close> when no terminator follows inside the object.\<close>

function cstr_from :: "membuf \<Rightarrow> nat \<Rightarrow> byte list option" where
  "cstr_from b off =
     (if off < msize b
      then if mcell b off = NUL then Some []
           else map_option (Cons (mcell b off)) (cstr_from b (Suc off))
      else None)"
  by pat_completeness auto
termination
  by (relation "measure (\<lambda>(b, off). msize b - off)") auto

declare cstr_from.simps [simp del]

text \<open>\<open>strcpy(dst + off, s)\<close> for a C string \<open>s\<close>.\<close>

definition strcpy :: "membuf \<Rightarrow> nat \<Rightarrow> byte list \<Rightarrow> membuf option" where
  "strcpy b off s = mwrite b off (s @ [NUL])"

lemma mwrite_eq_Some_iff [membuf_simps]:
  "mwrite b off bs = Some b' \<longleftrightarrow>
     off + length bs \<le> msize b \<and>
     b' = b\<lparr>mcell := (\<lambda>i. if off \<le> i \<and> i < off + length bs then bs ! (i - off) else mcell b i)\<rparr>"
  by (auto simp: mwrite_def)

lemma mwrite_eq_None_iff [simp]: "mwrite b off bs = None \<longleftrightarrow> msize b < off + length bs"
  by (auto simp: mwrite_def)

lemma mread_eq_None_iff [simp]: "mread b off n = None \<longleftrightarrow> msize b < off + n"
  by (auto simp: mread_def)

lemma mread_length: "mread b off n = Some bs \<Longrightarrow> length bs = n"
  by (auto simp: mread_def split: if_splits)

lemma mwrite_msize: "mwrite b off bs = Some b' \<Longrightarrow> msize b' = msize b"
  by (auto simp: mwrite_eq_Some_iff)

lemma strcpy_msize: "strcpy b off s = Some b' \<Longrightarrow> msize b' = msize b"
  by (auto simp: strcpy_def mwrite_msize)

lemma strcpy_eq_None_iff [simp]: "strcpy b off s = None \<longleftrightarrow> msize b \<le> off + length s"
  by (auto simp: strcpy_def)

lemma mwrite_total: "off + length bs \<le> msize b \<Longrightarrow> \<exists>b'. mwrite b off bs = Some b'"
  by (auto simp: mwrite_def)

lemma mread_mwrite_same:
  assumes "mwrite b off bs = Some b'"
  shows "mread b' off (length bs) = Some bs"
  using assms by (auto simp: mwrite_eq_Some_iff mread_def intro!: nth_equalityI)

lemma mread_mwrite_prefix:
  assumes "mwrite b off bs = Some b'" and "n \<le> length bs"
  shows "mread b' off n = Some (take n bs)"
  using assms by (auto simp: mwrite_eq_Some_iff mread_def intro!: nth_equalityI)

lemma mwrite_append:
  assumes "mwrite b off xs = Some b1" and "mwrite b1 (off + length xs) ys = Some b2"
  shows "mwrite b off (xs @ ys) = Some b2"
proof -
  from assms(1) have b1: "off + length xs \<le> msize b"
    "b1 = b\<lparr>mcell := (\<lambda>i. if off \<le> i \<and> i < off + length xs then xs ! (i - off) else mcell b i)\<rparr>"
    by (simp_all add: mwrite_eq_Some_iff)
  have "(\<lambda>i. if off \<le> i \<and> i < off + length (xs @ ys) then (xs @ ys) ! (i - off) else mcell b i) =
      (\<lambda>i. if off + length xs \<le> i \<and> i < off + length xs + length ys then ys ! (i - (off + length xs))
        else if off \<le> i \<and> i < off + length xs then xs ! (i - off) else mcell b i)"
    by (auto simp: fun_eq_iff nth_append)
  with assms(2) b1 show ?thesis by (simp add: mwrite_eq_Some_iff cong: if_cong)
qed

lemma mwrite_cell_below: "mwrite b off bs = Some b' \<Longrightarrow> i < off \<Longrightarrow> mcell b' i = mcell b i"
  by (auto simp: mwrite_eq_Some_iff)

lemma cstr_from_iff:
  "cstr_from b off = Some s \<longleftrightarrow>
     NUL \<notin> set s \<and> off + length s < msize b \<and>
     (\<forall>i < length s. mcell b (off + i) = s ! i) \<and> mcell b (off + length s) = NUL"
proof (induction s arbitrary: off)
  case Nil
  show ?case by (subst cstr_from.simps) auto
next
  case (Cons c s)
  have "cstr_from b off = Some (c # s) \<longleftrightarrow>
      off < msize b \<and> mcell b off \<noteq> NUL \<and> mcell b off = c \<and> cstr_from b (Suc off) = Some s"
    by (subst cstr_from.simps) auto
  also have "\<dots> \<longleftrightarrow> c \<noteq> NUL \<and> NUL \<notin> set s \<and> off + Suc (length s) < msize b \<and>
      mcell b off = c \<and> (\<forall>i < length s. mcell b (off + Suc i) = s ! i) \<and>
      mcell b (off + Suc (length s)) = NUL"
    by (auto simp: Cons.IH)
  also have "\<dots> \<longleftrightarrow> NUL \<notin> set (c # s) \<and> off + length (c # s) < msize b \<and>
     (\<forall>i < length (c # s). mcell b (off + i) = (c # s) ! i) \<and> mcell b (off + length (c # s)) = NUL"
    by (auto simp: All_less_Suc2)
  finally show ?case .
qed

lemma cstr_from_bound: "cstr_from b off = Some s \<Longrightarrow> off + length s < msize b"
  by (simp add: cstr_from_iff)

lemma cstr_from_no_NUL: "cstr_from b off = Some s \<Longrightarrow> NUL \<notin> set s"
  by (simp add: cstr_from_iff)

text \<open>A terminator anywhere behind the start makes the scan succeed.\<close>

lemma cstr_from_total:
  assumes "mcell b i = NUL" and "off \<le> i" and "i < msize b"
  shows "\<exists>s. cstr_from b off = Some s \<and> off + length s \<le> i"
  using assms
proof (induction b off rule: cstr_from.induct)
  case (1 b off)
  show ?case
  proof (cases "mcell b off = NUL")
    case True
    with "1.prems" show ?thesis by (subst cstr_from.simps) auto
  next
    case False
    with "1.prems" have "Suc off \<le> i" by (cases "off = i") auto
    with "1.IH" "1.prems" False obtain s where "cstr_from b (Suc off) = Some s" "Suc off + length s \<le> i"
      by auto
    with False "1.prems" show ?thesis by (subst cstr_from.simps) auto
  qed
qed

text \<open>Writing a C string and reading it back, with or without a prefix in front of it.\<close>

lemma cstr_from_strcpy:
  assumes w: "strcpy b off s = Some b'" and s: "NUL \<notin> set s"
    and k: "k \<le> off" and pre: "\<forall>i < off - k. mcell b (k + i) = p ! i"
    and p: "length p = off - k" "NUL \<notin> set p"
  shows "cstr_from b' k = Some (p @ s)"
  using assms by (auto simp: strcpy_def mwrite_eq_Some_iff cstr_from_iff nth_append ac_simps)

corollary cstr_from_strcpy_same:
  assumes "strcpy b off s = Some b'" and "NUL \<notin> set s"
  shows "cstr_from b' off = Some s"
  using cstr_from_strcpy [OF assms, of off "[]"] by simp

text \<open>The array after bytes have been read to its start.\<close>

definition over :: "membuf \<Rightarrow> byte list \<Rightarrow> membuf" where
  "over b bs = b\<lparr>mcell := (\<lambda>i. if i < length bs then bs ! i else mcell b i)\<rparr>"

lemma over_sel [simp]:
  "msize (over b bs) = msize b"
  "mcell (over b bs) i = (if i < length bs then bs ! i else mcell b i)"
  by (simp_all add: over_def)

lemma mwrite_over: "length bs \<le> msize b \<Longrightarrow> mwrite b 0 bs = Some (over b bs)"
  by (simp add: mwrite_def over_def cong: if_cong)

lemma cstr_from_over:
  assumes "NUL \<notin> set m" and "cstr_from b (length m) = Some rest"
  shows "cstr_from (over b m) 0 = Some (m @ rest)"
proof -
  from assms(2) have "mcell b i = rest ! (i - length m)" if "length m \<le> i" "i < length m + length rest" for i
    using that by (auto simp: cstr_from_iff dest!: spec [of _ "i - length m"])
  with assms show ?thesis by (auto simp: cstr_from_iff nth_append)
qed

section \<open>Little-endian integers\<close>

text \<open>The four bytes of an \<open>int32_t\<close> in memory order on the x86 target.\<close>

definition enc32 :: "u32 \<Rightarrow> byte list" where
  "enc32 w = [char_of (unat w), char_of (unat w div 256), char_of (unat w div 65536),
              char_of (unat w div 16777216)]"

definition dec32 :: "byte list \<Rightarrow> u32" where
  "dec32 bs = of_nat (horner_sum of_char 256 bs)"

lemma length_enc32 [simp]: "length (enc32 w) = 4"
  by (simp add: enc32_def)

lemma dec32_enc32 [simp]: "dec32 (enc32 w) = w"
proof -
  define n where "n = unat w"
  have "n < 4294967296" unfolding n_def using unsigned_less [of w, where ?'a = nat] by simp
  then have top: "n div 256 div 256 div 256 mod 256 = n div 256 div 256 div 256"
    by (simp add: less_mult_imp_div_less)
  have split: "k mod 256 + 256 * (k div 256) = k" for k :: nat
    by (simp add: mod_mult_div_eq)
  have divs: "n div 65536 = n div 256 div 256" "n div 16777216 = n div 256 div 256 div 256"
    by (simp_all flip: div_mult2_eq)
  have "horner_sum of_char 256 (enc32 w) = n mod 256 + 256 * (n div 256 mod 256 +
      256 * (n div 65536 mod 256 + 256 * (n div 16777216 mod 256)))"
    by (simp add: enc32_def n_def)
  also have "\<dots> = n"
    unfolding divs top by (simp only: split)
  finally have "horner_sum of_char 256 (enc32 w) = unat w"
    by (simp add: n_def)
  then show ?thesis by (simp add: dec32_def)
qed

section \<open>Addresses\<close>

lemma unat_of_nat_u32: "n < 4294967296 \<Longrightarrow> unat (of_nat n :: u32) = n"
  by (simp add: unat_of_nat)

lemma unat_u32_less: "unat (x :: u32) < 4294967296"
  using unsigned_less [of x, where ?'a = nat] by simp

lemma unat_minus_1_u32: "unat (- 1 :: u32) = 4294967295"
  by (simp add: unsigned_minus_1_eq_mask mask_eq_exp_minus_1)

text \<open>Clearing the low twelve bits.\<close>

lemma unat_and_not_4095: "unat (x AND NOT 4095 :: u32) = unat x div 4096 * 4096"
proof -
  have m: "mask 12 = (4095 :: u32)" by (simp add: mask_eq_exp_minus_1)
  have "x AND NOT 4095 = push_bit 12 (drop_bit 12 x)"
    unfolding m [symmetric] by (rule bit_word_eqI) (auto simp: bit_simps)
  moreover have "unat (push_bit 12 (drop_bit 12 x)) = unat x div 4096 * 4096"
  proof -
    have d: "unat (drop_bit 12 x) = unat x div 4096"
      using unat_drop_bit_eq [of 12 x] by (simp add: drop_bit_eq_div)
    have "unat x div 4096 * 4096 < 4294967296"
      using unat_u32_less [of x] by (meson div_times_less_eq_dividend le_less_trans)
    then show ?thesis by (simp add: push_bit_eq_mult unat_word_ariths d)
  qed
  ultimately show ?thesis by simp
qed

section \<open>Lists\<close>

text \<open>The bytes of a file after \<open>bs\<close> has been written at \<open>off\<close>; a gap is filled with zeros.\<close>

definition overwrite :: "byte list \<Rightarrow> nat \<Rightarrow> byte list \<Rightarrow> byte list" where
  "overwrite d off bs =
     (if bs = [] then d
      else take off (d @ replicate (off - length d) NUL) @ bs @ drop (off + length bs) d)"

lemma overwrite_Nil [simp]: "overwrite d off [] = d"
  by (simp add: overwrite_def)

lemma length_overwrite:
  "bs \<noteq> [] \<Longrightarrow> length (overwrite d off bs) = max (length d) (off + length bs)"
  by (auto simp: overwrite_def)

lemma take_drop_overwrite [simp]: "take (length bs) (drop off (overwrite d off bs)) = bs"
  by (auto simp: overwrite_def)

lemma nth_overwrite:
  assumes "bs \<noteq> []" and "i < max (length d) (off + length bs)"
  shows "overwrite d off bs ! i =
    (if off \<le> i \<and> i < off + length bs then bs ! (i - off)
     else if i < length d then d ! i else NUL)"
  using assms by (cases "off \<le> length d") (auto simp: overwrite_def nth_append min_def)

lemma overwrite_append:
  "overwrite (overwrite d off a) (off + length a) b = overwrite d off (a @ b)"
proof (cases "a = [] \<or> b = []")
  case True
  then show ?thesis by (auto simp: overwrite_def)
next
  case False
  then have l: "length (overwrite (overwrite d off a) (off + length a) b) = length (overwrite d off (a @ b))"
    by (simp add: length_overwrite)
  show ?thesis
  proof (rule nth_equalityI [OF l])
    fix i assume "i < length (overwrite (overwrite d off a) (off + length a) b)"
    with False show "overwrite (overwrite d off a) (off + length a) b ! i = overwrite d off (a @ b) ! i"
      by (auto simp: nth_overwrite length_overwrite nth_append)
  qed
qed

end
