(* ===== verification/L4fs_Protocol.thy ===== *)
theory L4fs_Protocol
  imports Prelude
begin

text \<open>
  The l4fs protocol: the opcodes of l4fs-sys.h, the size limits of l4fs.h, the items a message
  carries, and the virtual methods of the service classes of svr.h with their default bodies.

  A message is the list of the items the sender inserts into its \<open>Iostream\<close>, in order: a 32-bit or
  64-bit scalar, a counted byte array (a \<open>Buf_cp_out\<close>), a \<open>stat64\<close> structure or a capability. An
  extraction takes the next item when it has the extracted type; extracting from a message without
  such an item would leave a local variable of the receiver uninitialised, which is \<open>None\<close>.
\<close>

section \<open>Opcodes\<close>

datatype opcode =
    Svr_Init | Svr_Open | Svr_Close | Svr_Pread | Svr_Pwrite | Svr_Pgetdents | Svr_Fstat64
  | Svr_Ftruncate64 | Svr_Rename | Svr_Unlink | Svr_Rmdir | Svr_Mkdir | Svr_Fsync
  | Svr_Get_dataspace | Svr_Umount | Svr_Sync | Svr_Symlink | Svr_Link | Svr_Readlink

text \<open>The enumerators in declaration order; their values count from 0.\<close>

definition opcodes :: "opcode list" where
  "opcodes =
     [Svr_Init, Svr_Open, Svr_Close, Svr_Pread, Svr_Pwrite, Svr_Pgetdents, Svr_Fstat64,
      Svr_Ftruncate64, Svr_Rename, Svr_Unlink, Svr_Rmdir, Svr_Mkdir, Svr_Fsync,
      Svr_Get_dataspace, Svr_Umount, Svr_Sync, Svr_Symlink, Svr_Link, Svr_Readlink]"

fun opnum :: "opcode \<Rightarrow> u32" where
  "opnum Svr_Init = 0"
| "opnum Svr_Open = 1"
| "opnum Svr_Close = 2"
| "opnum Svr_Pread = 3"
| "opnum Svr_Pwrite = 4"
| "opnum Svr_Pgetdents = 5"
| "opnum Svr_Fstat64 = 6"
| "opnum Svr_Ftruncate64 = 7"
| "opnum Svr_Rename = 8"
| "opnum Svr_Unlink = 9"
| "opnum Svr_Rmdir = 10"
| "opnum Svr_Mkdir = 11"
| "opnum Svr_Fsync = 12"
| "opnum Svr_Get_dataspace = 13"
| "opnum Svr_Umount = 14"
| "opnum Svr_Sync = 15"
| "opnum Svr_Symlink = 16"
| "opnum Svr_Link = 17"
| "opnum Svr_Readlink = 18"

definition opcode_of :: "u32 \<Rightarrow> opcode option" where
  "opcode_of w = (if unat w < length opcodes then Some (opcodes ! unat w) else None)"

lemma opcode_of_opnum [simp]: "opcode_of (opnum op) = Some op"
  by (cases op) (simp_all add: opcode_of_def opcodes_def)

lemma opcode_of_eq_None_iff: "opcode_of w = None \<longleftrightarrow> 19 \<le> unat w"
  by (simp add: opcode_of_def opcodes_def not_less)

section \<open>Size limits\<close>

definition Max_path_size :: nat where
  "Max_path_size = (L4_UTCB_GENERIC_DATA_SIZE - 5) * sizeof_umword"

definition Max_rw_buffer_size :: nat where
  "Max_rw_buffer_size = 1024 * 1024"

lemma Max_path_size_val [simp]: "Max_path_size = 232"
  by (simp add: Max_path_size_def)

lemma Max_rw_buffer_size_val: "Max_rw_buffer_size = 1048576"
  by (simp add: Max_rw_buffer_size_def)

section \<open>Messages\<close>

record stat64 =
  st_mode :: u32
  st_size :: u64

datatype dscap = NoCap | RwBufDs | FileDs "byte list"

datatype item =
    W32 u32
  | W64 u64
  | Buf "byte list"
  | StatBuf "stat64 option"  \<comment> \<open>\<open>None\<close>: sent without having been initialised\<close>
  | CapItem dscap

fun get32 :: "item list \<Rightarrow> (u32 \<times> item list) option" where
  "get32 (W32 w # m) = Some (w, m)"
| "get32 _ = None"

fun get64 :: "item list \<Rightarrow> (u64 \<times> item list) option" where
  "get64 (W64 w # m) = Some (w, m)"
| "get64 _ = None"

abbreviation put_int :: "int \<Rightarrow> item" where "put_int i \<equiv> W32 (word_of_int i)"

text \<open>A value of type \<open>int\<close> or \<open>ssize_t\<close> after it has passed through a 32-bit message word.\<close>

definition i32 :: "int \<Rightarrow> int" where "i32 i = sint (word_of_int i :: u32)"

lemma i32_id: "- (2 ^ 31) \<le> i \<Longrightarrow> i < 2 ^ 31 \<Longrightarrow> i32 i = i"
  by (simp add: i32_def sint_sbintrunc' signed_take_bit_int_eq_self)

lemma sint_word_of_int_i32: "sint (word_of_int i :: u32) = i32 i"
  by (simp add: i32_def)

section \<open>The service classes\<close>

text \<open>
  The virtual methods of \<open>L4fs_fs\<close>, \<open>L4fs_file\<close> and \<open>L4fs_ds\<close>. A method takes the state of the
  service object and returns its result and the new state; \<open>open\<close> also returns its reference
  parameter \<open>mode\<close>, \<open>fstat64\<close> the structure it fills in, \<open>init\<close> and \<open>dataspace\<close> the capability.
\<close>

record 's handlers =
  h_init :: "'s \<Rightarrow> (dscap \<times> int \<times> 's) option"
  h_open :: "byte list \<Rightarrow> u32 \<Rightarrow> u32 \<Rightarrow> 's \<Rightarrow> (int \<times> u32 \<times> 's) option"
  h_mkdir :: "byte list \<Rightarrow> u32 \<Rightarrow> 's \<Rightarrow> (int \<times> 's) option"
  h_rename :: "byte list \<Rightarrow> 's \<Rightarrow> (int \<times> 's) option"
  h_link :: "byte list \<Rightarrow> 's \<Rightarrow> (int \<times> 's) option"
  h_symlink :: "byte list \<Rightarrow> 's \<Rightarrow> (int \<times> 's) option"
  h_unlink :: "byte list \<Rightarrow> 's \<Rightarrow> (int \<times> 's) option"
  h_rmdir :: "byte list \<Rightarrow> 's \<Rightarrow> (int \<times> 's) option"
  h_umount :: "'s \<Rightarrow> (int \<times> 's) option"
  h_sync :: "'s \<Rightarrow> (int \<times> 's) option"
  h_readlink :: "int \<Rightarrow> nat \<Rightarrow> 's \<Rightarrow> (int \<times> 's) option"
  h_pread :: "int \<Rightarrow> nat \<Rightarrow> int \<Rightarrow> 's \<Rightarrow> (int \<times> 's) option"
  h_pwrite :: "int \<Rightarrow> nat \<Rightarrow> int \<Rightarrow> 's \<Rightarrow> (int \<times> 's) option"
  h_pgetdents :: "int \<Rightarrow> nat \<Rightarrow> int \<Rightarrow> 's \<Rightarrow> (int \<times> 's) option"
  h_close :: "int \<Rightarrow> 's \<Rightarrow> (int \<times> 's) option"
  h_fstat64 :: "int \<Rightarrow> 's \<Rightarrow> (int \<times> stat64 option \<times> 's) option"
  h_fsync :: "int \<Rightarrow> 's \<Rightarrow> (int \<times> 's) option"
  h_ftruncate64 :: "int \<Rightarrow> int \<Rightarrow> 's \<Rightarrow> (int \<times> 's) option"
  h_dataspace :: "int \<Rightarrow> 's \<Rightarrow> (dscap \<times> int \<times> 's) option"

text \<open>The default bodies: every method answers \<open>-L4_ENOSYS\<close> and touches nothing.\<close>

definition default_handlers :: "'s handlers" where
  "default_handlers =
     \<lparr>h_init = (\<lambda>s. Some (NoCap, - L4_ENOSYS, s)),
      h_open = (\<lambda>_ _ mode s. Some (- L4_ENOSYS, mode, s)),
      h_mkdir = (\<lambda>_ _ s. Some (- L4_ENOSYS, s)),
      h_rename = (\<lambda>_ s. Some (- L4_ENOSYS, s)),
      h_link = (\<lambda>_ s. Some (- L4_ENOSYS, s)),
      h_symlink = (\<lambda>_ s. Some (- L4_ENOSYS, s)),
      h_unlink = (\<lambda>_ s. Some (- L4_ENOSYS, s)),
      h_rmdir = (\<lambda>_ s. Some (- L4_ENOSYS, s)),
      h_umount = (\<lambda>s. Some (- L4_ENOSYS, s)),
      h_sync = (\<lambda>s. Some (- L4_ENOSYS, s)),
      h_readlink = (\<lambda>_ _ s. Some (- L4_ENOSYS, s)),
      h_pread = (\<lambda>_ _ _ s. Some (- L4_ENOSYS, s)),
      h_pwrite = (\<lambda>_ _ _ s. Some (- L4_ENOSYS, s)),
      h_pgetdents = (\<lambda>_ _ _ s. Some (- L4_ENOSYS, s)),
      h_close = (\<lambda>_ s. Some (- L4_ENOSYS, s)),
      h_fstat64 = (\<lambda>_ s. Some (- L4_ENOSYS, None, s)),
      h_fsync = (\<lambda>_ s. Some (- L4_ENOSYS, s)),
      h_ftruncate64 = (\<lambda>_ _ s. Some (- L4_ENOSYS, s)),
      h_dataspace = (\<lambda>_ s. Some (NoCap, - L4_ENOSYS, s))\<rparr>"

section \<open>Calls as values\<close>

text \<open>
  The abstract view of the interface: one method call with its arguments, its result, and the
  effect of the call on a service object.
\<close>

datatype fs_call =
    C_init
  | C_open "byte list" u32 u32
  | C_mkdir "byte list" u32
  | C_rename "byte list"
  | C_link "byte list"
  | C_symlink "byte list"
  | C_unlink "byte list"
  | C_rmdir "byte list"
  | C_umount
  | C_sync
  | C_readlink int nat
  | C_pread int nat int
  | C_pwrite int nat int
  | C_pgetdents int nat int
  | C_close int
  | C_fstat64 int
  | C_fsync int
  | C_ftruncate64 int int
  | C_dataspace int

datatype fs_ret =
    R_int int
  | R_open int u32
  | R_stat int "stat64 option"
  | R_cap dscap int

fun invoke :: "'s handlers \<Rightarrow> fs_call \<Rightarrow> 's \<Rightarrow> (fs_ret \<times> 's) option" where
  "invoke h C_init s = map_option (\<lambda>(c, r, s). (R_cap c r, s)) (h_init h s)"
| "invoke h (C_open n f m) s = map_option (\<lambda>(r, m, s). (R_open r m, s)) (h_open h n f m s)"
| "invoke h (C_mkdir n m) s = map_option (\<lambda>(r, s). (R_int r, s)) (h_mkdir h n m s)"
| "invoke h (C_rename n) s = map_option (\<lambda>(r, s). (R_int r, s)) (h_rename h n s)"
| "invoke h (C_link n) s = map_option (\<lambda>(r, s). (R_int r, s)) (h_link h n s)"
| "invoke h (C_symlink n) s = map_option (\<lambda>(r, s). (R_int r, s)) (h_symlink h n s)"
| "invoke h (C_unlink n) s = map_option (\<lambda>(r, s). (R_int r, s)) (h_unlink h n s)"
| "invoke h (C_rmdir n) s = map_option (\<lambda>(r, s). (R_int r, s)) (h_rmdir h n s)"
| "invoke h C_umount s = map_option (\<lambda>(r, s). (R_int r, s)) (h_umount h s)"
| "invoke h C_sync s = map_option (\<lambda>(r, s). (R_int r, s)) (h_sync h s)"
| "invoke h (C_readlink f n) s = map_option (\<lambda>(r, s). (R_int r, s)) (h_readlink h f n s)"
| "invoke h (C_pread f n x) s = map_option (\<lambda>(r, s). (R_int r, s)) (h_pread h f n x s)"
| "invoke h (C_pwrite f n x) s = map_option (\<lambda>(r, s). (R_int r, s)) (h_pwrite h f n x s)"
| "invoke h (C_pgetdents f n x) s = map_option (\<lambda>(r, s). (R_int r, s)) (h_pgetdents h f n x s)"
| "invoke h (C_close f) s = map_option (\<lambda>(r, s). (R_int r, s)) (h_close h f s)"
| "invoke h (C_fstat64 f) s = map_option (\<lambda>(r, st, s). (R_stat r st, s)) (h_fstat64 h f s)"
| "invoke h (C_fsync f) s = map_option (\<lambda>(r, s). (R_int r, s)) (h_fsync h f s)"
| "invoke h (C_ftruncate64 f x) s = map_option (\<lambda>(r, s). (R_int r, s)) (h_ftruncate64 h f x s)"
| "invoke h (C_dataspace f) s = map_option (\<lambda>(c, r, s). (R_cap c r, s)) (h_dataspace h f s)"

end
