(* ===== verification/L4fs_Server.thy ===== *)
theory L4fs_Server
  imports L4fs_Protocol
begin

text \<open>
  The server side of libfs (lib/server/svr.cc): extraction of a name into the static buffer, and
  \<open>L4fs_svr::dispatch\<close>, which decodes a request, calls the virtual method and encodes the answer.
  \<open>dispatch\<close> is proved equal to decoding, invoking and encoding a call, and the interface of the
  service object is the locale \<open>l4fs_object\<close>.
\<close>

section \<open>The dispatcher\<close>

text \<open>The static \<open>name_buf\<close> of the extraction operator and the service object.\<close>

record 's svr =
  name_buf :: membuf
  obj :: 's

definition svr_start :: "'s \<Rightarrow> 's svr" where
  "svr_start o1 = \<lparr>name_buf = mzero Max_path_size, obj = o1\<rparr>"

text \<open>
  \<open>operator >> (Istream, char *)\<close>: copies at most \<open>Max_path_size\<close> bytes over what the buffer holds,
  then terminates the buffer in its last byte.
\<close>

fun get_name :: "item list \<Rightarrow> 's svr \<Rightarrow> (byte list \<times> item list \<times> 's svr) option" where
  "get_name (Buf bs # m) s = do {
     nb \<leftarrow> mwrite (name_buf s) 0 (take Max_path_size bs);
     nb \<leftarrow> mwrite nb (Max_path_size - 1) [NUL];
     name \<leftarrow> cstr_from nb 0;
     Some (name, m, s\<lparr>name_buf := nb\<rparr>)
   }"
| "get_name _ s = None"

definition reply_code :: "int \<Rightarrow> int" where
  "reply_code ret = (if ret < 0 then ret else 0)"

definition dispatch :: "'s handlers \<Rightarrow> item list \<Rightarrow> 's svr \<Rightarrow> (int \<times> item list \<times> 's svr) option" where
  "dispatch h ios s = do {
     (opcode, ios) \<leftarrow> get32 ios;
     case opcode_of opcode of
       Some Svr_Open \<Rightarrow> do {
         (flags, ios) \<leftarrow> get32 ios;
         (mode, ios) \<leftarrow> get32 ios;
         (name, ios, s) \<leftarrow> get_name ios s;
         (fh, mode, o') \<leftarrow> h_open h name flags mode (obj s);
         Some (0, [put_int fh, W32 mode], s\<lparr>obj := o'\<rparr>)
       }
     | Some Svr_Readlink \<Rightarrow> do {
         (fh, ios) \<leftarrow> get32 ios;
         (size, ios) \<leftarrow> get32 ios;
         (ret, o') \<leftarrow> h_readlink h (sint fh) (unat size) (obj s);
         Some (reply_code ret, [put_int ret], s\<lparr>obj := o'\<rparr>)
       }
     | Some Svr_Pread \<Rightarrow> do {
         (fh, ios) \<leftarrow> get32 ios;
         (size, ios) \<leftarrow> get32 ios;
         (offset, ios) \<leftarrow> get64 ios;
         (ret, o') \<leftarrow> h_pread h (sint fh) (unat size) (sint offset) (obj s);
         Some (reply_code ret, [put_int ret], s\<lparr>obj := o'\<rparr>)
       }
     | Some Svr_Pwrite \<Rightarrow> do {
         (fh, ios) \<leftarrow> get32 ios;
         (size, ios) \<leftarrow> get32 ios;
         (offset, ios) \<leftarrow> get64 ios;
         (ret, o') \<leftarrow> h_pwrite h (sint fh) (unat size) (sint offset) (obj s);
         Some (reply_code ret, [put_int ret], s\<lparr>obj := o'\<rparr>)
       }
     | Some Svr_Pgetdents \<Rightarrow> do {
         (fh, ios) \<leftarrow> get32 ios;
         (size, ios) \<leftarrow> get32 ios;
         (offset, ios) \<leftarrow> get64 ios;
         (ret, o') \<leftarrow> h_pgetdents h (sint fh) (unat size) (sint offset) (obj s);
         Some (reply_code ret, [put_int ret, W64 offset], s\<lparr>obj := o'\<rparr>)
       }
     | Some Svr_Close \<Rightarrow> do {
         (fh, ios) \<leftarrow> get32 ios;
         (ret, o') \<leftarrow> h_close h (sint fh) (obj s);
         Some (ret, [], s\<lparr>obj := o'\<rparr>)
       }
     | Some Svr_Symlink \<Rightarrow> do {
         (from, ios, s) \<leftarrow> get_name ios s;
         (ret, o') \<leftarrow> h_symlink h from (obj s);
         Some (ret, [], s\<lparr>obj := o'\<rparr>)
       }
     | Some Svr_Link \<Rightarrow> do {
         (from, ios, s) \<leftarrow> get_name ios s;
         (ret, o') \<leftarrow> h_link h from (obj s);
         Some (ret, [], s\<lparr>obj := o'\<rparr>)
       }
     | Some Svr_Fstat64 \<Rightarrow> do {
         (fh, ios) \<leftarrow> get32 ios;
         (ret, st, o') \<leftarrow> h_fstat64 h (sint fh) (obj s);
         Some (ret, [StatBuf st], s\<lparr>obj := o'\<rparr>)
       }
     | Some Svr_Fsync \<Rightarrow> do {
         (fh, ios) \<leftarrow> get32 ios;
         (ret, o') \<leftarrow> h_fsync h (sint fh) (obj s);
         Some (ret, [], s\<lparr>obj := o'\<rparr>)
       }
     | Some Svr_Ftruncate64 \<Rightarrow> do {
         (fh, ios) \<leftarrow> get32 ios;
         (offset, ios) \<leftarrow> get64 ios;
         (ret, o') \<leftarrow> h_ftruncate64 h (sint fh) (sint offset) (obj s);
         Some (ret, [], s\<lparr>obj := o'\<rparr>)
       }
     | Some Svr_Get_dataspace \<Rightarrow> do {
         (fh, ios) \<leftarrow> get32 ios;
         (ds, err, o') \<leftarrow> h_dataspace h (sint fh) (obj s);
         Some (err, [CapItem ds], s\<lparr>obj := o'\<rparr>)
       }
     | Some Svr_Rename \<Rightarrow> do {
         (from, ios, s) \<leftarrow> get_name ios s;
         (ret, o') \<leftarrow> h_rename h from (obj s);
         Some (ret, [], s\<lparr>obj := o'\<rparr>)
       }
     | Some Svr_Unlink \<Rightarrow> do {
         (name, ios, s) \<leftarrow> get_name ios s;
         (ret, o') \<leftarrow> h_unlink h name (obj s);
         Some (ret, [], s\<lparr>obj := o'\<rparr>)
       }
     | Some Svr_Rmdir \<Rightarrow> do {
         (name, ios, s) \<leftarrow> get_name ios s;
         (ret, o') \<leftarrow> h_rmdir h name (obj s);
         Some (ret, [], s\<lparr>obj := o'\<rparr>)
       }
     | Some Svr_Mkdir \<Rightarrow> do {
         (mode, ios) \<leftarrow> get32 ios;
         (name, ios, s) \<leftarrow> get_name ios s;
         (ret, o') \<leftarrow> h_mkdir h name mode (obj s);
         Some (ret, [], s\<lparr>obj := o'\<rparr>)
       }
     | Some Svr_Init \<Rightarrow> do {
         (cap, _, o') \<leftarrow> h_init h (obj s);
         Some (if cap \<noteq> NoCap then 0 else - L4_ENOMEM, [CapItem cap], s\<lparr>obj := o'\<rparr>)
       }
     | Some Svr_Umount \<Rightarrow> do {
         (ret, o') \<leftarrow> h_umount h (obj s);
         Some (ret, [], s\<lparr>obj := o'\<rparr>)
       }
     | Some Svr_Sync \<Rightarrow> do {
         (ret, o') \<leftarrow> h_sync h (obj s);
         Some (ret, [], s\<lparr>obj := o'\<rparr>)
       }
     | None \<Rightarrow> Some (- L4_ENOSYS, [], s)
   }"

text \<open>The server loop: requests are dispatched one after the other on the same object.\<close>

fun serve :: "'s handlers \<Rightarrow> item list list \<Rightarrow> 's svr \<Rightarrow> ((int \<times> item list) list \<times> 's svr) option" where
  "serve h [] s = Some ([], s)"
| "serve h (ios # rest) s = do {
     (ret, rep, s) \<leftarrow> dispatch h ios s;
     (replies, s) \<leftarrow> serve h rest s;
     Some ((ret, rep) # replies, s)
   }"

section \<open>Names\<close>

definition svr_wf :: "'s svr \<Rightarrow> bool" where
  "svr_wf s \<longleftrightarrow> msize (name_buf s) = Max_path_size"

definition name_ok :: "byte list \<Rightarrow> bool" where
  "name_ok n \<longleftrightarrow> NUL \<notin> set n \<and> length n < Max_path_size"

lemma svr_wf_start [simp]: "svr_wf (svr_start o1)"
  by (simp add: svr_wf_def svr_start_def mzero_def)

lemma svr_wf_obj_update [simp]: "svr_wf (s\<lparr>obj := o1\<rparr>) = svr_wf s"
  by (simp add: svr_wf_def)

text \<open>Whatever bytes arrive, the extracted name is a terminated string that fits the buffer.\<close>

lemma get_name_total:
  assumes "svr_wf s"
  shows "\<exists>name nb. get_name (Buf bs # m) s = Some (name, m, s\<lparr>name_buf := nb\<rparr>) \<and>
    msize nb = Max_path_size \<and> name_ok name"
proof -
  obtain b1 where b1: "mwrite (name_buf s) 0 (take Max_path_size bs) = Some b1"
    using assms mwrite_total [of 0 "take Max_path_size bs" "name_buf s"] by (auto simp: svr_wf_def)
  obtain b2 where b2: "mwrite b1 (Max_path_size - 1) [NUL] = Some b2"
    using assms b1 mwrite_total [of "Max_path_size - 1" "[NUL]" b1]
    by (auto simp: svr_wf_def mwrite_msize)
  have size: "msize b2 = Max_path_size"
    using assms b1 b2 by (simp add: svr_wf_def mwrite_msize)
  moreover have "mcell b2 (Max_path_size - 1) = NUL"
    using b2 by (auto simp: mwrite_eq_Some_iff)
  ultimately obtain n where "cstr_from b2 0 = Some n" "length n \<le> Max_path_size - 1"
    using cstr_from_total [of b2 "Max_path_size - 1" 0] by auto
  with b1 b2 size show ?thesis
    by (auto simp: name_ok_def cstr_from_no_NUL)
qed

lemma get_name_wf:
  assumes "svr_wf s" and "get_name m s = Some (name, m', s')"
  shows "svr_wf s' \<and> obj s' = obj s \<and> name_ok name"
proof -
  from assms(2) obtain bs where "m = Buf bs # m'"
    by (cases "(m, s)" rule: get_name.cases) (auto split: bind_splits)
  with assms get_name_total [OF assms(1), of bs m'] show ?thesis
    by (auto simp: svr_wf_def)
qed

text \<open>A name sent with its terminator arrives unchanged.\<close>

lemma get_name_cstr:
  assumes "svr_wf s" and "name_ok n"
  shows "\<exists>nb. get_name (Buf (n @ [NUL]) # m) s = Some (n, m, s\<lparr>name_buf := nb\<rparr>) \<and>
    msize nb = Max_path_size"
proof -
  from get_name_total [OF assms(1), of "n @ [NUL]" m] obtain name nb where
    g: "get_name (Buf (n @ [NUL]) # m) s = Some (name, m, s\<lparr>name_buf := nb\<rparr>)"
    and sz: "msize nb = Max_path_size" by blast
  from g obtain b1 b2 where b1: "mwrite (name_buf s) 0 (take Max_path_size (n @ [NUL])) = Some b1"
    and b2: "mwrite b1 (Max_path_size - 1) [NUL] = Some b2" "cstr_from b2 0 = Some name"
    and eq: "s\<lparr>name_buf := b2\<rparr> = s\<lparr>name_buf := nb\<rparr>"
    by (auto split: bind_splits)
  from eq have nb: "b2 = nb" by (drule_tac f = name_buf in arg_cong) simp
  with b2 have c: "cstr_from nb 0 = Some name" by simp
  have cells: "\<forall>i < length n. mcell nb i = n ! i" "mcell nb (length n) = NUL"
    using assms(2) b1 b2 nb by (auto simp: mwrite_eq_Some_iff name_ok_def nth_append)
  have "cstr_from nb 0 = Some n"
    using assms(2) cells sz by (simp add: cstr_from_iff name_ok_def)
  with c g sz show ?thesis by auto
qed


section \<open>The wire format\<close>

text \<open>The message of a call, and the answer to it: reply label and reply items.\<close>

fun marshal :: "fs_call \<Rightarrow> item list" where
  "marshal C_init = [W32 (opnum Svr_Init)]"
| "marshal (C_open n f m) = [W32 (opnum Svr_Open), W32 f, W32 m, Buf (n @ [NUL])]"
| "marshal (C_mkdir n m) = [W32 (opnum Svr_Mkdir), W32 m, Buf (n @ [NUL])]"
| "marshal (C_rename n) = [W32 (opnum Svr_Rename), Buf (n @ [NUL])]"
| "marshal (C_link n) = [W32 (opnum Svr_Link), Buf (n @ [NUL])]"
| "marshal (C_symlink n) = [W32 (opnum Svr_Symlink), Buf (n @ [NUL])]"
| "marshal (C_unlink n) = [W32 (opnum Svr_Unlink), Buf (n @ [NUL])]"
| "marshal (C_rmdir n) = [W32 (opnum Svr_Rmdir), Buf (n @ [NUL])]"
| "marshal C_umount = [W32 (opnum Svr_Umount)]"
| "marshal C_sync = [W32 (opnum Svr_Sync)]"
| "marshal (C_readlink f n) = [W32 (opnum Svr_Readlink), put_int f, W32 (of_nat n)]"
| "marshal (C_pread f n x) = [W32 (opnum Svr_Pread), put_int f, W32 (of_nat n), W64 (word_of_int x)]"
| "marshal (C_pwrite f n x) = [W32 (opnum Svr_Pwrite), put_int f, W32 (of_nat n), W64 (word_of_int x)]"
| "marshal (C_pgetdents f n x) =
     [W32 (opnum Svr_Pgetdents), put_int f, W32 (of_nat n), W64 (word_of_int x)]"
| "marshal (C_close f) = [W32 (opnum Svr_Close), put_int f]"
| "marshal (C_fstat64 f) = [W32 (opnum Svr_Fstat64), put_int f]"
| "marshal (C_fsync f) = [W32 (opnum Svr_Fsync), put_int f]"
| "marshal (C_ftruncate64 f x) = [W32 (opnum Svr_Ftruncate64), put_int f, W64 (word_of_int x)]"
| "marshal (C_dataspace f) = [W32 (opnum Svr_Get_dataspace), put_int f]"

fun answer :: "fs_call \<Rightarrow> fs_ret \<Rightarrow> int \<times> item list" where
  "answer C_init (R_cap c r) = (if c \<noteq> NoCap then 0 else - L4_ENOMEM, [CapItem c])"
| "answer _ (R_open r m) = (0, [put_int r, W32 m])"
| "answer (C_readlink _ _) (R_int r) = (reply_code r, [put_int r])"
| "answer (C_pread _ _ _) (R_int r) = (reply_code r, [put_int r])"
| "answer (C_pwrite _ _ _) (R_int r) = (reply_code r, [put_int r])"
| "answer (C_pgetdents _ _ x) (R_int r) = (reply_code r, [put_int r, W64 (word_of_int x)])"
| "answer _ (R_stat r st) = (r, [StatBuf st])"
| "answer _ (R_cap c r) = (r, [CapItem c])"
| "answer _ (R_int r) = (r, [])"

definition fh_ok :: "int \<Rightarrow> bool" where
  "fh_ok fh \<longleftrightarrow> i32 fh = fh"

definition off_ok :: "int \<Rightarrow> bool" where
  "off_ok x \<longleftrightarrow> sint (word_of_int x :: u64) = x"

definition size_ok :: "nat \<Rightarrow> bool" where
  "size_ok n \<longleftrightarrow> n < 2 ^ 32"

fun names_ok :: "fs_call \<Rightarrow> bool" where
  "names_ok (C_open n _ _) = name_ok n"
| "names_ok (C_mkdir n _) = name_ok n"
| "names_ok (C_rename n) = name_ok n"
| "names_ok (C_link n) = name_ok n"
| "names_ok (C_symlink n) = name_ok n"
| "names_ok (C_unlink n) = name_ok n"
| "names_ok (C_rmdir n) = name_ok n"
| "names_ok _ = True"

fun args_ok :: "fs_call \<Rightarrow> bool" where
  "args_ok (C_readlink f n) = (fh_ok f \<and> size_ok n)"
| "args_ok (C_pread f n x) = (fh_ok f \<and> size_ok n \<and> off_ok x)"
| "args_ok (C_pwrite f n x) = (fh_ok f \<and> size_ok n \<and> off_ok x)"
| "args_ok (C_pgetdents f n x) = (fh_ok f \<and> size_ok n \<and> off_ok x)"
| "args_ok (C_close f) = fh_ok f"
| "args_ok (C_fstat64 f) = fh_ok f"
| "args_ok (C_fsync f) = fh_ok f"
| "args_ok (C_ftruncate64 f x) = (fh_ok f \<and> off_ok x)"
| "args_ok (C_dataspace f) = fh_ok f"
| "args_ok _ = True"

lemma opcode_of_num [simp]:
  "opcode_of 0 = Some Svr_Init" "opcode_of 1 = Some Svr_Open" "opcode_of 2 = Some Svr_Close"
  "opcode_of 3 = Some Svr_Pread" "opcode_of 4 = Some Svr_Pwrite" "opcode_of 5 = Some Svr_Pgetdents"
  "opcode_of 6 = Some Svr_Fstat64" "opcode_of 7 = Some Svr_Ftruncate64"
  "opcode_of 8 = Some Svr_Rename" "opcode_of 9 = Some Svr_Unlink" "opcode_of 10 = Some Svr_Rmdir"
  "opcode_of 11 = Some Svr_Mkdir" "opcode_of 12 = Some Svr_Fsync"
  "opcode_of 13 = Some Svr_Get_dataspace" "opcode_of 14 = Some Svr_Umount"
  "opcode_of 15 = Some Svr_Sync" "opcode_of 16 = Some Svr_Symlink" "opcode_of 17 = Some Svr_Link"
  "opcode_of 18 = Some Svr_Readlink"
  by (simp_all add: opcode_of_def opcodes_def)

lemma unat_of_nat_size [simp]: "size_ok n \<Longrightarrow> unat (of_nat n :: u32) = n"
  by (simp add: size_ok_def unat_of_nat)

text \<open>Decoding a marshalled call, invoking it and encoding its result is what \<open>dispatch\<close> does.\<close>


fun name_of :: "fs_call \<Rightarrow> byte list option" where
  "name_of (C_open n _ _) = Some n"
| "name_of (C_mkdir n _) = Some n"
| "name_of (C_rename n) = Some n"
| "name_of (C_link n) = Some n"
| "name_of (C_symlink n) = Some n"
| "name_of (C_unlink n) = Some n"
| "name_of (C_rmdir n) = Some n"
| "name_of _ = None"

text \<open>The server after the name of the call, if it has one, has gone through the static buffer.\<close>

definition named :: "fs_call \<Rightarrow> 's svr \<Rightarrow> 's svr" where
  "named c s = (case name_of c of
     None \<Rightarrow> s
   | Some n \<Rightarrow> (case get_name [Buf (n @ [NUL])] s of Some (_, _, s') \<Rightarrow> s' | None \<Rightarrow> s))"

lemma named_wf:
  assumes "svr_wf s"
  shows "svr_wf (named c s) \<and> obj (named c s) = obj s"
  using assms by (auto simp: named_def simp del: get_name.simps split: option.splits dest: get_name_wf)

lemma get_name_named:
  assumes "svr_wf s" and "name_of c = Some n" and "name_ok n"
  shows "get_name [Buf (n @ [NUL])] s = Some (n, [], named c s)"
  using get_name_cstr [OF assms(1,3), of "[]"] assms(2)
  by (auto simp: named_def simp del: get_name.simps)

lemma names_ok_name_of: "names_ok c \<Longrightarrow> name_of c = Some n \<Longrightarrow> name_ok n"
  by (cases c) auto

lemma dispatch_marshal:
  assumes wf: "svr_wf s" and names: "names_ok c" and args: "args_ok c"
  shows "dispatch h (marshal c) s =
      map_option (\<lambda>(r, o'). (fst (answer c r), snd (answer c r), (named c s)\<lparr>obj := o'\<rparr>))
        (invoke h c (obj s))"
proof (cases "name_of c")
  case None
  then have n: "named c s = s" by (simp add: named_def)
  from None args show ?thesis
    unfolding n map_conv_bind_option
    by (cases c) (simp_all add: dispatch_def fh_ok_def off_ok_def sint_word_of_int_i32
        map_conv_bind_option comp_def case_prod_unfold)
next
  case (Some n)
  note g = get_name_named [OF wf Some names_ok_name_of [OF names Some]]
  from Some g named_wf [OF wf, of c] show ?thesis
    unfolding map_conv_bind_option
    by (cases c) (simp_all add: dispatch_def map_conv_bind_option comp_def case_prod_unfold
        del: get_name.simps)
qed


text \<open>
  Nothing but method calls changes the service object, and the names a method is called with are
  terminated and fit the name buffer: this holds for every message, well formed or not.
\<close>

definition invoked :: "'s handlers \<Rightarrow> 's \<Rightarrow> 's \<Rightarrow> bool" where
  "invoked h o1 o2 \<longleftrightarrow> o1 = o2 \<or> (\<exists>c r. names_ok c \<and> invoke h c o1 = Some (r, o2))"

lemma invokedI: "invoke h c o1 = Some (r, o2) \<Longrightarrow> names_ok c \<Longrightarrow> invoked h o1 o2"
  by (auto simp: invoked_def)

lemma invoked_refl: "invoked h o1 o1"
  by (simp add: invoked_def)

lemma invoked_handler:
  "h_init h o1 = Some (cap, r, o2) \<Longrightarrow> invoked h o1 o2"
  "h_open h n f m o1 = Some (r, m', o2) \<Longrightarrow> name_ok n \<Longrightarrow> invoked h o1 o2"
  "h_mkdir h n m o1 = Some (r, o2) \<Longrightarrow> name_ok n \<Longrightarrow> invoked h o1 o2"
  "h_rename h n o1 = Some (r, o2) \<Longrightarrow> name_ok n \<Longrightarrow> invoked h o1 o2"
  "h_link h n o1 = Some (r, o2) \<Longrightarrow> name_ok n \<Longrightarrow> invoked h o1 o2"
  "h_symlink h n o1 = Some (r, o2) \<Longrightarrow> name_ok n \<Longrightarrow> invoked h o1 o2"
  "h_unlink h n o1 = Some (r, o2) \<Longrightarrow> name_ok n \<Longrightarrow> invoked h o1 o2"
  "h_rmdir h n o1 = Some (r, o2) \<Longrightarrow> name_ok n \<Longrightarrow> invoked h o1 o2"
  "h_umount h o1 = Some (r, o2) \<Longrightarrow> invoked h o1 o2"
  "h_sync h o1 = Some (r, o2) \<Longrightarrow> invoked h o1 o2"
  "h_readlink h fh k o1 = Some (r, o2) \<Longrightarrow> invoked h o1 o2"
  "h_pread h fh k x o1 = Some (r, o2) \<Longrightarrow> invoked h o1 o2"
  "h_pwrite h fh k x o1 = Some (r, o2) \<Longrightarrow> invoked h o1 o2"
  "h_pgetdents h fh k x o1 = Some (r, o2) \<Longrightarrow> invoked h o1 o2"
  "h_close h fh o1 = Some (r, o2) \<Longrightarrow> invoked h o1 o2"
  "h_fstat64 h fh o1 = Some (r, st, o2) \<Longrightarrow> invoked h o1 o2"
  "h_fsync h fh o1 = Some (r, o2) \<Longrightarrow> invoked h o1 o2"
  "h_ftruncate64 h fh x o1 = Some (r, o2) \<Longrightarrow> invoked h o1 o2"
  "h_dataspace h fh o1 = Some (cap, r, o2) \<Longrightarrow> invoked h o1 o2"
  by (rule invokedI [of h C_init] invokedI [of h "C_open n f m"] invokedI [of h "C_mkdir n m"]
      invokedI [of h "C_rename n"] invokedI [of h "C_link n"] invokedI [of h "C_symlink n"]
      invokedI [of h "C_unlink n"] invokedI [of h "C_rmdir n"] invokedI [of h C_umount]
      invokedI [of h C_sync] invokedI [of h "C_readlink fh k"] invokedI [of h "C_pread fh k x"]
      invokedI [of h "C_pwrite fh k x"] invokedI [of h "C_pgetdents fh k x"]
      invokedI [of h "C_close fh"] invokedI [of h "C_fstat64 fh"] invokedI [of h "C_fsync fh"]
      invokedI [of h "C_ftruncate64 fh x"] invokedI [of h "C_dataspace fh"]; simp; fail)+

lemma dispatch_unknown:
  "opcode_of w = None \<Longrightarrow> dispatch h (W32 w # m) s = Some (- L4_ENOSYS, [], s)"
  by (simp add: dispatch_def)

lemma get32_Some: "get32 m = Some (w, m') \<Longrightarrow> m = W32 w # m'"
  by (cases m rule: get32.cases) auto

lemma dispatch_invoked:
  assumes wf: "svr_wf s" and d: "dispatch h ios s = Some (code, rep, s')"
  shows "svr_wf s' \<and> invoked h (obj s) (obj s')"
proof -
  from d obtain w m where ios: "ios = W32 w # m"
    by (auto simp: dispatch_def dest: get32_Some split: bind_splits)
  show ?thesis
  proof (cases "opcode_of w")
    case None
    with d wf ios show ?thesis by (auto simp: dispatch_unknown invoked_def)
  next
    case (Some op)
    with d wf ios show ?thesis
      by - (cases op; auto simp: dispatch_def simp del: get_name.simps split: bind_splits
          dest!: get_name_wf [OF wf]; erule invoked_handler; assumption)
  qed
qed

text \<open>
  A request that leaves the dispatcher undefined either lacks items, so that it cannot be decoded for any
  service object (such as that of the default methods), or its method is undefined.
\<close>

definition malformed :: "item list \<Rightarrow> 's svr \<Rightarrow> bool" where
  "malformed ios s \<longleftrightarrow> dispatch default_handlers ios \<lparr>name_buf = name_buf s, obj = ()\<rparr> = None"

lemma get_name_obj:
  "get_name m \<lparr>name_buf = name_buf s, obj = o2\<rparr> =
    map_option (\<lambda>(n, m, s'). (n, m, \<lparr>name_buf = name_buf s', obj = o2\<rparr>)) (get_name m s)"
  by (cases "(m, s)" rule: get_name.cases) (simp_all add: map_conv_bind_option)

definition undefined_call :: "'s handlers \<Rightarrow> 's \<Rightarrow> bool" where
  "undefined_call h o1 \<longleftrightarrow> (\<exists>c. names_ok c \<and> invoke h c o1 = None)"

lemma undefined_callI: "invoke h c o1 = None \<Longrightarrow> names_ok c \<Longrightarrow> undefined_call h o1"
  by (auto simp: undefined_call_def)

lemma not_invoked:
  "h_init h o1 = None \<Longrightarrow> undefined_call h o1"
  "h_open h n f m o1 = None \<Longrightarrow> name_ok n \<Longrightarrow> undefined_call h o1"
  "h_mkdir h n m o1 = None \<Longrightarrow> name_ok n \<Longrightarrow> undefined_call h o1"
  "h_rename h n o1 = None \<Longrightarrow> name_ok n \<Longrightarrow> undefined_call h o1"
  "h_link h n o1 = None \<Longrightarrow> name_ok n \<Longrightarrow> undefined_call h o1"
  "h_symlink h n o1 = None \<Longrightarrow> name_ok n \<Longrightarrow> undefined_call h o1"
  "h_unlink h n o1 = None \<Longrightarrow> name_ok n \<Longrightarrow> undefined_call h o1"
  "h_rmdir h n o1 = None \<Longrightarrow> name_ok n \<Longrightarrow> undefined_call h o1"
  "h_umount h o1 = None \<Longrightarrow> undefined_call h o1"
  "h_sync h o1 = None \<Longrightarrow> undefined_call h o1"
  "h_readlink h fh k o1 = None \<Longrightarrow> undefined_call h o1"
  "h_pread h fh k x o1 = None \<Longrightarrow> undefined_call h o1"
  "h_pwrite h fh k x o1 = None \<Longrightarrow> undefined_call h o1"
  "h_pgetdents h fh k x o1 = None \<Longrightarrow> undefined_call h o1"
  "h_close h fh o1 = None \<Longrightarrow> undefined_call h o1"
  "h_fstat64 h fh o1 = None \<Longrightarrow> undefined_call h o1"
  "h_fsync h fh o1 = None \<Longrightarrow> undefined_call h o1"
  "h_ftruncate64 h fh x o1 = None \<Longrightarrow> undefined_call h o1"
  "h_dataspace h fh o1 = None \<Longrightarrow> undefined_call h o1"
  by (rule undefined_callI [of h C_init] undefined_callI [of h "C_open n f m"] undefined_callI [of h "C_mkdir n m"]
      undefined_callI [of h "C_rename n"] undefined_callI [of h "C_link n"] undefined_callI [of h "C_symlink n"]
      undefined_callI [of h "C_unlink n"] undefined_callI [of h "C_rmdir n"] undefined_callI [of h C_umount]
      undefined_callI [of h C_sync] undefined_callI [of h "C_readlink fh k"] undefined_callI [of h "C_pread fh k x"]
      undefined_callI [of h "C_pwrite fh k x"] undefined_callI [of h "C_pgetdents fh k x"]
      undefined_callI [of h "C_close fh"] undefined_callI [of h "C_fstat64 fh"] undefined_callI [of h "C_fsync fh"]
      undefined_callI [of h "C_ftruncate64 fh x"] undefined_callI [of h "C_dataspace fh"]; simp; fail)+

lemma dispatch_None:
  assumes wf: "svr_wf s" and d: "dispatch h ios s = None" and m: "\<not> malformed ios s"
  shows "undefined_call h (obj s)"
proof (cases "get32 ios")
  case None
  with m show ?thesis by (simp add: malformed_def dispatch_def)
next
  case (Some wm)
  then obtain w rest where ios: "get32 ios = Some (w, rest)" by (cases wm) auto
  show ?thesis
  proof (cases "opcode_of w")
    case None
    with d ios show ?thesis by (simp add: dispatch_def)
  next
    case (Some op)
    with d m ios show ?thesis
      by - (cases op; auto simp: dispatch_def malformed_def default_handlers_def get_name_obj
          simp del: get_name.simps split: bind_splits dest!: get_name_wf [OF wf]; erule not_invoked; assumption)
  qed
qed

section \<open>The interface of a service object\<close>

text \<open>
  What the dispatcher needs of the methods: they keep an invariant of the service object, and
  under a precondition they do not leave the bounds of its buffers. Then every session keeps the
  invariant, whatever the clients send, and every well formed request that satisfies the
  precondition is answered.
\<close>

locale l4fs_object =
  fixes h :: "'s handlers" and inv :: "'s \<Rightarrow> bool" and pre :: "fs_call \<Rightarrow> 's \<Rightarrow> bool"
  assumes preserved: "inv o1 \<Longrightarrow> names_ok c \<Longrightarrow> invoke h c o1 = Some (r, o2) \<Longrightarrow> inv o2"
    and total: "inv o1 \<Longrightarrow> names_ok c \<Longrightarrow> pre c o1 \<Longrightarrow> invoke h c o1 \<noteq> None"
begin

lemma invoked_inv: "invoked h o1 o2 \<Longrightarrow> inv o1 \<Longrightarrow> inv o2"
  by (auto simp: invoked_def intro: preserved)

lemma dispatch_inv:
  assumes "svr_wf s" and "inv (obj s)" and "dispatch h ios s = Some (code, rep, s')"
  shows "svr_wf s' \<and> inv (obj s')"
  using dispatch_invoked [OF assms(1,3)] assms(2) invoked_inv by blast

lemma serve_inv:
  "svr_wf s \<Longrightarrow> inv (obj s) \<Longrightarrow> serve h reqs s = Some (replies, s') \<Longrightarrow>
    svr_wf s' \<and> inv (obj s') \<and> length replies = length reqs"
proof (induction reqs arbitrary: s replies)
  case Nil
  then show ?case by simp
next
  case (Cons ios rest)
  then obtain ret rep s1 replies' where
    d: "dispatch h ios s = Some (ret, rep, s1)" and r: "serve h rest s1 = Some (replies', s')"
    and "replies = (ret, rep) # replies'"
    by (auto split: bind_splits)
  with dispatch_inv [OF Cons.prems(1,2) d] Cons.IH [of s1 replies'] show ?case by simp
qed

lemma dispatch_answers:
  assumes "svr_wf s" and "inv (obj s)" and "names_ok c" and "args_ok c" and "pre c (obj s)"
  shows "\<exists>r o'. invoke h c (obj s) = Some (r, o') \<and> inv o' \<and>
    dispatch h (marshal c) s =
      Some (fst (answer c r), snd (answer c r), (named c s)\<lparr>obj := o'\<rparr>)"
proof -
  from total [OF assms(2,3,5)] obtain r o' where i: "invoke h c (obj s) = Some (r, o')"
    by auto
  with preserved [OF assms(2,3) i] dispatch_marshal [OF assms(1,3,4), of h] show ?thesis
    by auto
qed

end

text \<open>The default methods of svr.cc satisfy the interface with nothing to require.\<close>

lemma invoke_default: "invoke default_handlers c s = Some (r, s') \<Longrightarrow> s' = s"
  by (cases c) (simp_all add: default_handlers_def)

lemma invoke_default_total: "invoke default_handlers c s \<noteq> None"
  by (cases c) (simp_all add: default_handlers_def)

interpretation default_object: l4fs_object default_handlers "\<lambda>_. True" "\<lambda>_ _. True"
  by unfold_locales (auto simp: invoke_default_total)

end
