(* ===== verification/L4fs_Stub.thy ===== *)
theory L4fs_Stub
  imports L4fs_Server
begin

text \<open>
  The client side of libfs (lib/src/l4fs.cc): the stubs of class \<open>L4fs\<close>.

  A transport stands for \<open>ios.call(cap())\<close>: it takes the message and the state of the world behind
  the capability and gives the value of \<open>l4_error\<close> on the returned tag, the items of the reply and
  the new world. A reference parameter of a stub (\<open>mode\<close>, \<open>size\<close>, \<open>*st\<close>) is an argument and
  an additional result, a receive buffer for a capability an additional result.

  The stubs over \<open>dispatch\<close> are proved to be calls of the virtual methods: the round trip through
  the wire format changes nothing but what \<open>client_view\<close> writes out.
\<close>

type_synonym 'w transport = "item list \<Rightarrow> 'w \<Rightarrow> (int \<times> item list \<times> 'w) option"

section \<open>Extraction from a reply\<close>

fun get_stat :: "item list \<Rightarrow> (stat64 option \<times> item list) option" where
  "get_stat (StatBuf st # m) = Some (st, m)"
| "get_stat _ = None"

text \<open>The capability of a reply is mapped into the receive slot, if one has been sent.\<close>

fun recv_cap :: "item list \<Rightarrow> dscap" where
  "recv_cap (CapItem c # m) = c"
| "recv_cap (_ # m) = recv_cap m"
| "recv_cap [] = NoCap"

section \<open>The stubs\<close>

definition name_too_long :: "byte list \<Rightarrow> bool" where
  "name_too_long name \<longleftrightarrow> Max_path_size < length name + 1"

definition l4fs_init :: "'w transport \<Rightarrow> 'w \<Rightarrow> (int \<times> dscap \<times> 'w) option" where
  "l4fs_init call w = do {
     (ret, ios, w) \<leftarrow> call [W32 (opnum Svr_Init)] w;
     Some (ret, recv_cap ios, w)
   }"

definition l4fs_open ::
  "'w transport \<Rightarrow> byte list \<Rightarrow> u32 \<Rightarrow> u32 \<Rightarrow> 'w \<Rightarrow> (int \<times> u32 \<times> 'w) option" where
  "l4fs_open call name flags mode w =
     (if name_too_long name then Some (- L4_ENAMETOOLONG, mode, w)
      else do {
        (ret, ios, w) \<leftarrow> call [W32 (opnum Svr_Open), W32 flags, W32 mode, Buf (name @ [NUL])] w;
        if ret \<noteq> 0 then Some (ret, mode, w)
        else do {
          (fh, ios) \<leftarrow> get32 ios;
          (mode, ios) \<leftarrow> get32 ios;
          Some (sint fh, mode, w)
        }
      })"

definition l4fs_mkdir :: "'w transport \<Rightarrow> byte list \<Rightarrow> u32 \<Rightarrow> 'w \<Rightarrow> (int \<times> 'w) option" where
  "l4fs_mkdir call name mode w =
     (if name_too_long name then Some (- L4_ENAMETOOLONG, w)
      else do {
        (ret, _, w) \<leftarrow> call [W32 (opnum Svr_Mkdir), W32 mode, Buf (name @ [NUL])] w;
        Some (ret, w)
      })"

definition l4fs_rmdir :: "'w transport \<Rightarrow> byte list \<Rightarrow> 'w \<Rightarrow> (int \<times> 'w) option" where
  "l4fs_rmdir call name w =
     (if name_too_long name then Some (- L4_ENAMETOOLONG, w)
      else do {
        (ret, _, w) \<leftarrow> call [W32 (opnum Svr_Rmdir), Buf (name @ [NUL])] w;
        Some (ret, w)
      })"

definition l4fs_rename :: "'w transport \<Rightarrow> byte list \<Rightarrow> 'w \<Rightarrow> (int \<times> 'w) option" where
  "l4fs_rename call from w =
     (if name_too_long from then Some (- L4_ENAMETOOLONG, w)
      else do {
        (ret, _, w) \<leftarrow> call [W32 (opnum Svr_Rename), Buf (from @ [NUL])] w;
        Some (ret, w)
      })"

definition l4fs_unlink :: "'w transport \<Rightarrow> byte list \<Rightarrow> 'w \<Rightarrow> (int \<times> 'w) option" where
  "l4fs_unlink call name w =
     (if name_too_long name then Some (- L4_ENAMETOOLONG, w)
      else do {
        (ret, _, w) \<leftarrow> call [W32 (opnum Svr_Unlink), Buf (name @ [NUL])] w;
        Some (ret, w)
      })"

definition l4fs_umount :: "'w transport \<Rightarrow> 'w \<Rightarrow> (int \<times> 'w) option" where
  "l4fs_umount call w = do {
     (ret, _, w) \<leftarrow> call [W32 (opnum Svr_Umount)] w;
     Some (ret, w)
   }"

definition l4fs_sync :: "'w transport \<Rightarrow> 'w \<Rightarrow> (int \<times> 'w) option" where
  "l4fs_sync call w = do {
     (ret, _, w) \<leftarrow> call [W32 (opnum Svr_Sync)] w;
     Some (ret, w)
   }"

definition l4fs_pread :: "'w transport \<Rightarrow> int \<Rightarrow> nat \<Rightarrow> int \<Rightarrow> 'w \<Rightarrow> (int \<times> nat \<times> 'w) option" where
  "l4fs_pread call fh sz offset w =
     (if Max_rw_buffer_size < sz then Some (- L4_ENOMEM, sz, w)
      else do {
        (ret, ios, w) \<leftarrow>
          call [W32 (opnum Svr_Pread), put_int fh, W32 (of_nat sz), W64 (word_of_int offset)] w;
        (sz, _) \<leftarrow> get32 ios;
        Some (ret, unat sz, w)
      })"

definition l4fs_pwrite :: "'w transport \<Rightarrow> int \<Rightarrow> nat \<Rightarrow> int \<Rightarrow> 'w \<Rightarrow> (int \<times> nat \<times> 'w) option" where
  "l4fs_pwrite call fh sz offset w =
     (if Max_rw_buffer_size < sz then Some (- L4_ENOMEM, sz, w)
      else do {
        (ret, ios, w) \<leftarrow>
          call [W32 (opnum Svr_Pwrite), put_int fh, W32 (of_nat sz), W64 (word_of_int offset)] w;
        (sz, _) \<leftarrow> get32 ios;
        Some (ret, unat sz, w)
      })"

definition l4fs_pgetdents :: "'w transport \<Rightarrow> int \<Rightarrow> nat \<Rightarrow> int \<Rightarrow> 'w \<Rightarrow> (int \<times> nat \<times> 'w) option" where
  "l4fs_pgetdents call fh sz offset w =
     (if Max_rw_buffer_size < sz then Some (- L4_ENOMEM, sz, w)
      else do {
        (ret, ios, w) \<leftarrow>
          call [W32 (opnum Svr_Pgetdents), put_int fh, W32 (of_nat sz), W64 (word_of_int offset)] w;
        (sz, _) \<leftarrow> get32 ios;
        Some (ret, unat sz, w)
      })"

definition l4fs_close :: "'w transport \<Rightarrow> int \<Rightarrow> 'w \<Rightarrow> (int \<times> 'w) option" where
  "l4fs_close call fh w = do {
     (ret, _, w) \<leftarrow> call [W32 (opnum Svr_Close), put_int fh] w;
     Some (ret, w)
   }"

definition l4fs_link :: "'w transport \<Rightarrow> byte list \<Rightarrow> 'w \<Rightarrow> (int \<times> 'w) option" where
  "l4fs_link call from w =
     (if name_too_long from then Some (- L4_ENAMETOOLONG, w)
      else do {
        (ret, _, w) \<leftarrow> call [W32 (opnum Svr_Link), Buf (from @ [NUL])] w;
        Some (ret, w)
      })"

definition l4fs_readlink :: "'w transport \<Rightarrow> int \<Rightarrow> nat \<Rightarrow> 'w \<Rightarrow> (int \<times> nat \<times> 'w) option" where
  "l4fs_readlink call fh bufsize w = do {
     (ret, ios, w) \<leftarrow> call [W32 (opnum Svr_Readlink), put_int fh, W32 (of_nat bufsize)] w;
     (bufsize, _) \<leftarrow> get32 ios;
     Some (ret, unat bufsize, w)
   }"

definition l4fs_symlink :: "'w transport \<Rightarrow> byte list \<Rightarrow> 'w \<Rightarrow> (int \<times> 'w) option" where
  "l4fs_symlink call from w =
     (if name_too_long from then Some (- L4_ENAMETOOLONG, w)
      else do {
        (ret, _, w) \<leftarrow> call [W32 (opnum Svr_Symlink), Buf (from @ [NUL])] w;
        Some (ret, w)
      })"

definition l4fs_fstat64 :: "'w transport \<Rightarrow> int \<Rightarrow> 'w \<Rightarrow> (int \<times> stat64 option \<times> 'w) option" where
  "l4fs_fstat64 call fh w = do {
     (ret, ios, w) \<leftarrow> call [W32 (opnum Svr_Fstat64), put_int fh] w;
     (st, _) \<leftarrow> get_stat ios;
     Some (ret, st, w)
   }"

definition l4fs_fsync :: "'w transport \<Rightarrow> int \<Rightarrow> 'w \<Rightarrow> (int \<times> 'w) option" where
  "l4fs_fsync call fh w = do {
     (ret, _, w) \<leftarrow> call [W32 (opnum Svr_Fsync), put_int fh] w;
     Some (ret, w)
   }"

definition l4fs_ftruncate64 :: "'w transport \<Rightarrow> int \<Rightarrow> int \<Rightarrow> 'w \<Rightarrow> (int \<times> 'w) option" where
  "l4fs_ftruncate64 call fh offset w = do {
     (ret, _, w) \<leftarrow> call [W32 (opnum Svr_Ftruncate64), put_int fh, W64 (word_of_int offset)] w;
     Some (ret, w)
   }"

definition l4fs_dataspace :: "'w transport \<Rightarrow> int \<Rightarrow> 'w \<Rightarrow> (int \<times> dscap \<times> 'w) option" where
  "l4fs_dataspace call fh w = do {
     (ret, ios, w) \<leftarrow> call [W32 (opnum Svr_Get_dataspace), put_int fh] w;
     Some (ret, recv_cap ios, w)
   }"

section \<open>The stubs as one function of the call\<close>

datatype stub_ret =
    S_int int
  | S_open int u32
  | S_size int nat  \<comment> \<open>the error code and the size the server reports\<close>
  | S_stat int "stat64 option"
  | S_cap int dscap

fun stub :: "'w transport \<Rightarrow> fs_call \<Rightarrow> 'w \<Rightarrow> (stub_ret \<times> 'w) option" where
  "stub T C_init w = map_option (\<lambda>(r, c, w). (S_cap r c, w)) (l4fs_init T w)"
| "stub T (C_open n f m) w = map_option (\<lambda>(r, m, w). (S_open r m, w)) (l4fs_open T n f m w)"
| "stub T (C_mkdir n m) w = map_option (\<lambda>(r, w). (S_int r, w)) (l4fs_mkdir T n m w)"
| "stub T (C_rename n) w = map_option (\<lambda>(r, w). (S_int r, w)) (l4fs_rename T n w)"
| "stub T (C_link n) w = map_option (\<lambda>(r, w). (S_int r, w)) (l4fs_link T n w)"
| "stub T (C_symlink n) w = map_option (\<lambda>(r, w). (S_int r, w)) (l4fs_symlink T n w)"
| "stub T (C_unlink n) w = map_option (\<lambda>(r, w). (S_int r, w)) (l4fs_unlink T n w)"
| "stub T (C_rmdir n) w = map_option (\<lambda>(r, w). (S_int r, w)) (l4fs_rmdir T n w)"
| "stub T C_umount w = map_option (\<lambda>(r, w). (S_int r, w)) (l4fs_umount T w)"
| "stub T C_sync w = map_option (\<lambda>(r, w). (S_int r, w)) (l4fs_sync T w)"
| "stub T (C_readlink f k) w = map_option (\<lambda>(r, k, w). (S_size r k, w)) (l4fs_readlink T f k w)"
| "stub T (C_pread f k x) w = map_option (\<lambda>(r, k, w). (S_size r k, w)) (l4fs_pread T f k x w)"
| "stub T (C_pwrite f k x) w = map_option (\<lambda>(r, k, w). (S_size r k, w)) (l4fs_pwrite T f k x w)"
| "stub T (C_pgetdents f k x) w = map_option (\<lambda>(r, k, w). (S_size r k, w)) (l4fs_pgetdents T f k x w)"
| "stub T (C_close f) w = map_option (\<lambda>(r, w). (S_int r, w)) (l4fs_close T f w)"
| "stub T (C_fstat64 f) w = map_option (\<lambda>(r, st, w). (S_stat r st, w)) (l4fs_fstat64 T f w)"
| "stub T (C_fsync f) w = map_option (\<lambda>(r, w). (S_int r, w)) (l4fs_fsync T f w)"
| "stub T (C_ftruncate64 f x) w = map_option (\<lambda>(r, w). (S_int r, w)) (l4fs_ftruncate64 T f x w)"
| "stub T (C_dataspace f) w = map_option (\<lambda>(r, c, w). (S_cap r c, w)) (l4fs_dataspace T f w)"

text \<open>What a client sees of the result of a method.\<close>

fun client_view :: "fs_call \<Rightarrow> fs_ret \<Rightarrow> stub_ret" where
  "client_view C_init (R_cap c r) = S_cap (if c \<noteq> NoCap then 0 else - L4_ENOMEM) c"
| "client_view _ (R_cap c r) = S_cap r c"
| "client_view _ (R_open r m) = S_open (i32 r) m"
| "client_view _ (R_stat r st) = S_stat r st"
| "client_view (C_readlink _ _) (R_int r) = S_size (reply_code r) (unat (word_of_int r :: u32))"
| "client_view (C_pread _ _ _) (R_int r) = S_size (reply_code r) (unat (word_of_int r :: u32))"
| "client_view (C_pwrite _ _ _) (R_int r) = S_size (reply_code r) (unat (word_of_int r :: u32))"
| "client_view (C_pgetdents _ _ _) (R_int r) = S_size (reply_code r) (unat (word_of_int r :: u32))"
| "client_view _ (R_int r) = S_int r"

text \<open>The calls the stubs pass on to the transport, and the error of the others.\<close>

fun sizes_ok :: "fs_call \<Rightarrow> bool" where
  "sizes_ok (C_pread _ k _) \<longleftrightarrow> k \<le> Max_rw_buffer_size"
| "sizes_ok (C_pwrite _ k _) \<longleftrightarrow> k \<le> Max_rw_buffer_size"
| "sizes_ok (C_pgetdents _ k _) \<longleftrightarrow> k \<le> Max_rw_buffer_size"
| "sizes_ok _ \<longleftrightarrow> True"

lemma name_ok_not_too_long: "name_ok n \<Longrightarrow> \<not> name_too_long n"
  by (simp add: name_ok_def name_too_long_def)

text \<open>A name without a NUL is either refused by the stub or arrives at the method unchanged.\<close>

lemma name_too_long_iff: "NUL \<notin> set n \<Longrightarrow> name_too_long n \<longleftrightarrow> \<not> name_ok n"
  by (auto simp: name_ok_def name_too_long_def)

lemma stub_refused:
  assumes "name_of c = Some n" and "name_too_long n"
  shows "stub T c w = Some (case c of C_open _ _ m \<Rightarrow> S_open (- L4_ENAMETOOLONG) m
    | _ \<Rightarrow> S_int (- L4_ENAMETOOLONG), w)"
  using assms by (cases c) (simp_all add: l4fs_open_def l4fs_mkdir_def l4fs_rename_def
      l4fs_link_def l4fs_symlink_def l4fs_unlink_def l4fs_rmdir_def)

lemma stub_refused_size:
  assumes "\<not> sizes_ok c"
  shows "\<exists>k. stub T c w = Some (S_size (- L4_ENOMEM) k, w)"
  using assms by (cases c) (simp_all add: l4fs_pread_def l4fs_pwrite_def l4fs_pgetdents_def)

lemmas stub_defs = l4fs_init_def l4fs_open_def l4fs_mkdir_def l4fs_rename_def l4fs_link_def
  l4fs_symlink_def l4fs_unlink_def l4fs_rmdir_def l4fs_umount_def l4fs_sync_def l4fs_readlink_def
  l4fs_pread_def l4fs_pwrite_def l4fs_pgetdents_def l4fs_close_def l4fs_fstat64_def l4fs_fsync_def
  l4fs_ftruncate64_def l4fs_dataspace_def

text \<open>The decoding of the reply, apart from the transport.\<close>

fun unanswer :: "fs_call \<Rightarrow> int \<times> item list \<Rightarrow> stub_ret option" where
  "unanswer C_init (ret, ios) = Some (S_cap ret (recv_cap ios))"
| "unanswer (C_dataspace _) (ret, ios) = Some (S_cap ret (recv_cap ios))"
| "unanswer (C_open _ _ m) (ret, ios) =
     (if ret \<noteq> 0 then Some (S_open ret m)
      else do { (fh, ios) \<leftarrow> get32 ios; (mode, ios) \<leftarrow> get32 ios; Some (S_open (sint fh) mode) })"
| "unanswer (C_readlink _ _) (ret, ios) = do { (k, _) \<leftarrow> get32 ios; Some (S_size ret (unat k)) }"
| "unanswer (C_pread _ _ _) (ret, ios) = do { (k, _) \<leftarrow> get32 ios; Some (S_size ret (unat k)) }"
| "unanswer (C_pwrite _ _ _) (ret, ios) = do { (k, _) \<leftarrow> get32 ios; Some (S_size ret (unat k)) }"
| "unanswer (C_pgetdents _ _ _) (ret, ios) = do { (k, _) \<leftarrow> get32 ios; Some (S_size ret (unat k)) }"
| "unanswer (C_fstat64 _) (ret, ios) = do { (st, _) \<leftarrow> get_stat ios; Some (S_stat ret st) }"
| "unanswer _ (ret, ios) = Some (S_int ret)"

lemma stub_marshal:
  assumes "names_ok c" and "sizes_ok c"
  shows "stub T c w = do {
    (ret, ios, w) \<leftarrow> T (marshal c) w;
    r \<leftarrow> unanswer c (ret, ios);
    Some (r, w)
  }"
  using assms
  by (cases c)
    (auto simp: stub_defs name_ok_not_too_long not_less map_conv_bind_option comp_def
      case_prod_unfold not_le intro!: Option.bind_cong split: bind_splits)

lemma unanswer_answer:
  assumes "invoke h c o1 = Some (r, o2)"
  shows "unanswer c (answer c r) = Some (client_view c r)"
  using assms by (cases c) (auto simp: sint_word_of_int_i32)

text \<open>Remote calls are transparent: a stub over the dispatcher is a call of the method.\<close>

lemma stub_dispatch:
  assumes "svr_wf s" and "names_ok c" and "args_ok c" and "sizes_ok c"
  shows "stub (dispatch h) c s =
    map_option (\<lambda>(r, o'). (client_view c r, (named c s)\<lparr>obj := o'\<rparr>)) (invoke h c (obj s))"
  using dispatch_marshal [OF assms(1-3), of h] unanswer_answer [of h c "obj s"]
  by (cases "invoke h c (obj s)") (auto simp: stub_marshal [OF assms(2,4)])

end
