(* ===== verification/Fs_Srv.thy ===== *)
theory Fs_Srv
  imports L4fs_Server
begin

text \<open>
  The file server (fs_srv/server/src/main.cc): class \<open>Server\<close>, which implements the virtual methods
  on the POSIX calls of the file system mounted at \<open>/tmp/\<close>, and \<open>main\<close>.

  The mounted file system is not part of the repository: it is the parameter \<open>P\<close>, a record of the
  POSIX calls the server makes, over a state \<open>'f\<close>. What the proofs use of it is stated by the
  locale \<open>posix_env\<close>; an executable instance of it is in \<open>Ref_Posix\<close>. Memory the constructor does
  not initialise is the parameter \<open>junk\<close>.
\<close>

section \<open>The calls of the server\<close>

text \<open>The POSIX calls, and the two calls of L4Re by which \<open>dataspace\<close> gets its memory.\<close>

record 'f posix =
  p_open :: "byte list \<Rightarrow> u32 \<Rightarrow> u32 \<Rightarrow> 'f \<Rightarrow> int \<times> 'f"
  p_mkdir :: "byte list \<Rightarrow> u32 \<Rightarrow> 'f \<Rightarrow> int \<times> 'f"
  p_rename :: "byte list \<Rightarrow> byte list \<Rightarrow> 'f \<Rightarrow> int \<times> 'f"
  p_unlink :: "byte list \<Rightarrow> 'f \<Rightarrow> int \<times> 'f"
  p_rmdir :: "byte list \<Rightarrow> 'f \<Rightarrow> int \<times> 'f"
  p_close :: "int \<Rightarrow> 'f \<Rightarrow> int \<times> 'f"
  p_pread :: "int \<Rightarrow> nat \<Rightarrow> int \<Rightarrow> 'f \<Rightarrow> int \<times> byte list \<times> 'f"
    \<comment> \<open>result, bytes stored into the destination, new state\<close>
  p_pwrite :: "int \<Rightarrow> byte list \<Rightarrow> int \<Rightarrow> 'f \<Rightarrow> int \<times> 'f"
  p_fstat :: "int \<Rightarrow> 'f \<Rightarrow> int \<times> stat64 option \<times> 'f"
    \<comment> \<open>\<open>None\<close>: the structure has not been filled in\<close>
  p_ds_alloc :: "nat \<Rightarrow> 'f \<Rightarrow> nat option \<times> 'f"
    \<comment> \<open>a capability slot with memory of that size; the size got (whole pages), or none\<close>
  p_ds_attach :: "nat option \<Rightarrow> 'f \<Rightarrow> bool \<times> 'f"

section \<open>State and construction\<close>

definition PATH_LEN :: nat where "PATH_LEN = 255"

definition tmpDir :: "byte list" where "tmpDir = ''/tmp/''"

record 'f fs_srv =
  actualPath :: membuf
  rw_buf_ds :: dscap
  rw_buf :: membuf
  fs :: 'f

text \<open>
  The constructor. \<open>ds_ok\<close> says whether the capability slot and the dataspace could be had: the
  code checks neither, so without them the capability is invalid and no buffer is attached.
\<close>

definition fs_srv_new :: "(nat \<Rightarrow> byte) \<Rightarrow> bool \<Rightarrow> 'f \<Rightarrow> 'f fs_srv option" where
  "fs_srv_new junk ds_ok f = do {
     ap \<leftarrow> strcpy \<lparr>msize = PATH_LEN, mcell = junk\<rparr> 0 tmpDir;
     Some \<lparr>actualPath = ap, rw_buf_ds = (if ds_ok then RwBufDs else NoCap),
           rw_buf = mzero (if ds_ok then Max_rw_buffer_size else 0), fs = f\<rparr>
   }"

text \<open>\<open>getActualPath\<close>: the name is copied to \<open>shortPath\<close>, the byte behind the prefix.\<close>

definition getActualPath :: "byte list \<Rightarrow> 'f fs_srv \<Rightarrow> (byte list \<times> 'f fs_srv) option" where
  "getActualPath src s = do {
     ap \<leftarrow> strcpy (actualPath s) (length tmpDir) src;
     path \<leftarrow> cstr_from ap 0;
     Some (path, s\<lparr>actualPath := ap\<rparr>)
   }"

section \<open>The methods\<close>

definition srv_init :: "'f fs_srv \<Rightarrow> (dscap \<times> int \<times> 'f fs_srv) option" where
  "srv_init s = Some (rw_buf_ds s, L4_EOK, s)"

definition srv_open ::
  "'f posix \<Rightarrow> byte list \<Rightarrow> u32 \<Rightarrow> u32 \<Rightarrow> 'f fs_srv \<Rightarrow> (int \<times> u32 \<times> 'f fs_srv) option" where
  "srv_open P name flags mode s = do {
     (_, s) \<leftarrow> getActualPath name s;
     (path, s) \<leftarrow> getActualPath name s;
     let (fh, f) = p_open P path flags mode (fs s) in
     Some (fh, mode, s\<lparr>fs := f\<rparr>)
   }"

definition srv_mkdir :: "'f posix \<Rightarrow> byte list \<Rightarrow> u32 \<Rightarrow> 'f fs_srv \<Rightarrow> (int \<times> 'f fs_srv) option" where
  "srv_mkdir P name mode s = do {
     (path, s) \<leftarrow> getActualPath name s;
     let (r, f) = p_mkdir P path mode (fs s) in
     Some (r, s\<lparr>fs := f\<rparr>)
   }"

text \<open>The new name is the C string the client has left at the start of the shared buffer.\<close>

definition srv_rename :: "'f posix \<Rightarrow> byte list \<Rightarrow> 'f fs_srv \<Rightarrow> (int \<times> 'f fs_srv) option" where
  "srv_rename P from s = do {
     to \<leftarrow> cstr_from (rw_buf s) 0;
     tmp \<leftarrow> strcpy (mzero PATH_LEN) 0 tmpDir;
     tmp \<leftarrow> strcpy tmp (length tmpDir) to;
     (_, s) \<leftarrow> getActualPath from s;
     (path, s) \<leftarrow> getActualPath from s;
     new \<leftarrow> cstr_from tmp 0;
     let (result, f) = p_rename P path new (fs s) in
     Some (result, s\<lparr>fs := f\<rparr>)
   }"

definition srv_unlink :: "'f posix \<Rightarrow> byte list \<Rightarrow> 'f fs_srv \<Rightarrow> (int \<times> 'f fs_srv) option" where
  "srv_unlink P name s = do {
     (path, s) \<leftarrow> getActualPath name s;
     let (r, f) = p_unlink P path (fs s) in
     Some (r, s\<lparr>fs := f\<rparr>)
   }"

definition srv_rmdir :: "'f posix \<Rightarrow> byte list \<Rightarrow> 'f fs_srv \<Rightarrow> (int \<times> 'f fs_srv) option" where
  "srv_rmdir P name s = do {
     (path, s) \<leftarrow> getActualPath name s;
     let (r, f) = p_rmdir P path (fs s) in
     Some (r, s\<lparr>fs := f\<rparr>)
   }"

definition srv_close :: "'f posix \<Rightarrow> int \<Rightarrow> 'f fs_srv \<Rightarrow> (int \<times> 'f fs_srv) option" where
  "srv_close P fd s = (let (r, f) = p_close P fd (fs s) in Some (r, s\<lparr>fs := f\<rparr>))"

definition srv_pread :: "'f posix \<Rightarrow> int \<Rightarrow> nat \<Rightarrow> int \<Rightarrow> 'f fs_srv \<Rightarrow> (int \<times> 'f fs_srv) option" where
  "srv_pread P fh n offset s =
     (let (r, bs, f) = p_pread P fh n offset (fs s) in do {
        rb \<leftarrow> mwrite (rw_buf s) 0 bs;
        Some (r, s\<lparr>rw_buf := rb, fs := f\<rparr>)
      })"

definition srv_pwrite :: "'f posix \<Rightarrow> int \<Rightarrow> nat \<Rightarrow> int \<Rightarrow> 'f fs_srv \<Rightarrow> (int \<times> 'f fs_srv) option" where
  "srv_pwrite P fh n offset s = do {
     bs \<leftarrow> mread (rw_buf s) 0 n;
     let (r, f) = p_pwrite P fh bs offset (fs s) in
     Some (r, s\<lparr>fs := f\<rparr>)
   }"

definition srv_fstat64 :: "'f posix \<Rightarrow> int \<Rightarrow> 'f fs_srv \<Rightarrow> (int \<times> stat64 option \<times> 'f fs_srv) option" where
  "srv_fstat64 P fh s = (let (r, st, f) = p_fstat P fh (fs s) in Some (r, st, s\<lparr>fs := f\<rparr>))"

text \<open>
  The copy loop of \<open>dataspace\<close>. \<open>read\<close> is a \<open>size_t\<close>, so the -1 of a failed \<open>pread64\<close> is added
  modulo 2^32; every round asks for \<open>size\<close> bytes. The outer \<open>None\<close> is a loop that does not end,
  the inner one a store behind the end of the new dataspace.
\<close>

partial_function (option) ds_fill ::
  "'f posix \<Rightarrow> int \<Rightarrow> u32 \<Rightarrow> u32 \<Rightarrow> membuf \<Rightarrow> 'f \<Rightarrow> (membuf \<times> 'f) option option" where
  "ds_fill P fh sz read addr f =
     (if read < sz
      then (case p_pread P fh (unat sz) (uint read) f of (r, bs, f') \<Rightarrow>
              (case mwrite addr (unat read) bs of
                 None \<Rightarrow> Some None
               | Some addr' \<Rightarrow> ds_fill P fh sz (read + word_of_int r) addr' f'))
      else Some (Some (addr, f)))"

text \<open>What every \<open>pread64\<close> preserves of the file system, the copy loop preserves.\<close>

lemma ds_fill_preserves:
  assumes "ds_fill P fh sz rd b f = Some (Some (b', f'))"
    and "\<And>n x f. R f \<Longrightarrow> R (snd (snd (p_pread P fh n x f)))" and "R f"
  shows "R f'"
proof -
  define Q :: "((((('a posix \<times> int) \<times> u32) \<times> u32) \<times> membuf) \<times> 'a) \<Rightarrow> (membuf \<times> 'a) option \<Rightarrow> bool"
    where "Q = (\<lambda>(((((P, fh), sz), rd), b), f) out.
      (\<forall>n x f. R f \<longrightarrow> R (snd (snd (p_pread P fh n x f)))) \<longrightarrow> R f \<longrightarrow>
      (\<forall>b' f'. out = Some (b', f') \<longrightarrow> R f'))"
  have "Q (((((P, fh), sz), rd), b), f) (Some (b', f'))"
    using assms(1)
  proof (rule ds_fill.raw_induct [rotated])
    fix g P fh sz rd b f out
    assume IH: "\<And>P fh sz rd b f out. g P fh sz rd b f = Some out \<Longrightarrow> Q (((((P, fh), sz), rd), b), f) out"
      and out: "(if rd < sz
        then case p_pread P fh (unat sz) (uint rd) f of (r, bs, f') \<Rightarrow>
               (case mwrite b (unat rd) bs of None \<Rightarrow> Some None
                | Some addr' \<Rightarrow> g P fh sz (rd + word_of_int r) addr' f')
        else Some (Some (b, f))) = Some out"
    obtain r bs f1 where p: "p_pread P fh (unat sz) (uint rd) f = (r, bs, f1)"
      by (cases "p_pread P fh (unat sz) (uint rd) f") auto
    then have R1: "R f1" if "\<forall>n x f. R f \<longrightarrow> R (snd (snd (p_pread P fh n x f)))" "R f"
      using that by (metis snd_conv)
    have step: "Q (((((P, fh), sz), rd), b), f) out" if "g P fh sz (rd + word_of_int r) b1 f1 = Some out" for b1
      using IH [OF that] R1 unfolding Q_def prod.case by blast
    show "Q (((((P, fh), sz), rd), b), f) out"
    proof (cases "rd < sz")
      case True
      with out p have "(case mwrite b (unat rd) bs of None \<Rightarrow> Some None
          | Some b1 \<Rightarrow> g P fh sz (rd + word_of_int r) b1 f1) = Some out"
        by simp
      then consider b1 where "g P fh sz (rd + word_of_int r) b1 f1 = Some out" | "out = None"
        by (cases "mwrite b (unat rd) bs") simp_all
      then show ?thesis
        by cases (use step in blast, unfold Q_def prod.case, blast)
    next
      case False
      with out have "out = Some (b, f)" by simp
      then show ?thesis unfolding Q_def prod.case by blast
    qed
  qed
  with assms(2,3) show ?thesis by (auto simp: Q_def)
qed

text \<open>
  The new dataspace: slot and memory, then the attachment. No result is checked, so without the attachment
  \<open>addr\<close> is an uninitialised pointer.
\<close>

definition ds_memory :: "'f posix \<Rightarrow> nat \<Rightarrow> 'f \<Rightarrow> nat option \<times> bool \<times> 'f" where
  "ds_memory P n f =
     (let (m, f) = p_ds_alloc P n f; (att, f) = p_ds_attach P m f in (m, att, f))"

text \<open>
  \<open>int size = buf.st_size\<close> keeps the low 32 bits. A pointer to no memory is a buffer of size 0: nothing can
  be stored through it. The client gets the whole dataspace, with zeros where nothing has been stored.
\<close>

definition srv_dataspace :: "'f posix \<Rightarrow> int \<Rightarrow> 'f fs_srv \<Rightarrow> (dscap \<times> int \<times> 'f fs_srv) option" where
  "srv_dataspace P fh s =
     (case p_fstat P fh (fs s) of (_, buf, f) \<Rightarrow> do {
        st \<leftarrow> buf;
        let sz = (ucast (st_size st) :: u32);
        let (m, att, f) = ds_memory P (unat sz) f;
        filled \<leftarrow> ds_fill P fh sz 0 (mzero (case m of Some k \<Rightarrow> (if att then k else 0) | None \<Rightarrow> 0)) f;
        (addr, f) \<leftarrow> filled;
        Some (case m of None \<Rightarrow> NoCap
              | Some k \<Rightarrow> FileDs (if att then map (mcell addr) [0..<k] else replicate k NUL),
          0, s\<lparr>fs := f\<rparr>)
      })"

text \<open>The class: the methods above, and those that answer \<open>-L4_ENOSYS\<close>.\<close>

definition fs_srv_handlers :: "'f posix \<Rightarrow> 'f fs_srv handlers" where
  "fs_srv_handlers P =
     \<lparr>h_init = srv_init,
      h_open = srv_open P,
      h_mkdir = srv_mkdir P,
      h_rename = srv_rename P,
      h_link = (\<lambda>_ s. Some (- L4_ENOSYS, s)),
      h_symlink = (\<lambda>_ s. Some (- L4_ENOSYS, s)),
      h_unlink = srv_unlink P,
      h_rmdir = srv_rmdir P,
      h_umount = (\<lambda>s. Some (- L4_ENOSYS, s)),
      h_sync = (\<lambda>s. Some (0, s)),
      h_readlink = (\<lambda>_ _ s. Some (- L4_ENOSYS, s)),
      h_pread = srv_pread P,
      h_pwrite = srv_pwrite P,
      h_pgetdents = (\<lambda>_ _ _ s. Some (- L4_ENOSYS, s)),
      h_close = srv_close P,
      h_fstat64 = srv_fstat64 P,
      h_fsync = (\<lambda>_ s. Some (- L4_ENOSYS, s)),
      h_ftruncate64 = (\<lambda>_ _ s. Some (- L4_ENOSYS, s)),
      h_dataspace = srv_dataspace P\<rparr>"

text \<open>
  \<open>main\<close>: mount, register, then serve the requests that arrive. The result is the exit code and
  the answers given before; \<open>mount_res\<close> and \<open>registered\<close> are the results of the two library calls.
\<close>

definition srv_main ::
  "int \<Rightarrow> bool \<Rightarrow> (nat \<Rightarrow> byte) \<Rightarrow> bool \<Rightarrow> 'f posix \<Rightarrow> 'f \<Rightarrow> item list list \<Rightarrow>
     (int \<times> (int \<times> item list) list) option" where
  "srv_main mount_res registered junk ds_ok P f reqs =
     (if mount_res \<noteq> 0 then Some (1, [])
      else do {
        o1 \<leftarrow> fs_srv_new junk ds_ok f;
        if \<not> registered then Some (0, [])
        else do {
          (replies, _) \<leftarrow> serve (fs_srv_handlers P) reqs (svr_start o1);
          Some (0, replies)
        }
      })"

section \<open>The invariant\<close>

text \<open>The path buffer keeps its size and its prefix, and the shared buffer is attached.\<close>

definition fs_inv :: "'f fs_srv \<Rightarrow> bool" where
  "fs_inv s \<longleftrightarrow> msize (actualPath s) = PATH_LEN \<and>
     (\<forall>i < length tmpDir. mcell (actualPath s) i = tmpDir ! i) \<and>
     rw_buf_ds s = RwBufDs \<and> msize (rw_buf s) = Max_rw_buffer_size"

lemma fs_srv_new_inv: "fs_srv_new junk True f = Some s \<Longrightarrow> fs_inv s \<and> fs s = f"
  by (auto simp: fs_srv_new_def fs_inv_def strcpy_def mwrite_eq_Some_iff mzero_def nth_append
      split: bind_splits)

lemma fs_srv_new_total: "\<exists>s. fs_srv_new junk ds_ok f = Some s"
proof -
  have "strcpy \<lparr>msize = PATH_LEN, mcell = junk\<rparr> 0 tmpDir \<noteq> None"
    by (simp add: tmpDir_def PATH_LEN_def)
  then obtain ap where "strcpy \<lparr>msize = PATH_LEN, mcell = junk\<rparr> 0 tmpDir = Some ap"
    by blast
  then show ?thesis by (simp add: fs_srv_new_def)
qed

text \<open>A name of the dispatcher fits behind the prefix: 5 + 231 + 1 bytes of the 255.\<close>

lemma getActualPath_total:
  assumes "fs_inv s" and "name_ok n"
  shows "\<exists>ap. getActualPath n s = Some (tmpDir @ n, s\<lparr>actualPath := ap\<rparr>) \<and>
    fs_inv (s\<lparr>actualPath := ap\<rparr>)"
proof -
  have "length tmpDir + length n < msize (actualPath s)"
    using assms by (simp add: fs_inv_def name_ok_def tmpDir_def PATH_LEN_def)
  then obtain ap where ap: "strcpy (actualPath s) (length tmpDir) n = Some ap"
    using strcpy_eq_None_iff [of "actualPath s" "length tmpDir" n] by fastforce
  have "cstr_from ap 0 = Some (tmpDir @ n)"
    using assms by (intro cstr_from_strcpy [OF ap]) (auto simp: fs_inv_def name_ok_def tmpDir_def)
  moreover have "fs_inv (s\<lparr>actualPath := ap\<rparr>)"
    using assms(1) ap by (auto simp: fs_inv_def strcpy_msize) (auto simp: strcpy_def mwrite_eq_Some_iff)
  ultimately show ?thesis using ap by (auto simp: getActualPath_def)
qed


lemma fs_inv_fs_update [simp]: "fs_inv (s\<lparr>fs := f\<rparr>) = fs_inv s"
  by (simp add: fs_inv_def)

lemma fs_inv_rw_buf_update: "fs_inv s \<Longrightarrow> msize rb = Max_rw_buffer_size \<Longrightarrow> fs_inv (s\<lparr>rw_buf := rb\<rparr>)"
  by (simp add: fs_inv_def)

lemma getActualPath_inv:
  assumes "fs_inv s" and "name_ok n" and "getActualPath n s = Some (path, s')"
  shows "fs_inv s' \<and> path = tmpDir @ n \<and> fs s' = fs s \<and> rw_buf s' = rw_buf s"
  using getActualPath_total [OF assms(1,2)] assms(3) by auto

subsection \<open>What the path methods hand to the file system\<close>

lemma srv_open_path:
  assumes "fs_inv s" and "name_ok n"
  shows "\<exists>ap. fs_inv (s\<lparr>actualPath := ap\<rparr>) \<and>
    srv_open P n flags mode s =
      Some (fst (p_open P (tmpDir @ n) flags mode (fs s)), mode,
        s\<lparr>actualPath := ap, fs := snd (p_open P (tmpDir @ n) flags mode (fs s))\<rparr>)"
proof -
  obtain ap where ap: "getActualPath n s = Some (tmpDir @ n, s\<lparr>actualPath := ap\<rparr>)"
    "fs_inv (s\<lparr>actualPath := ap\<rparr>)"
    using getActualPath_total [OF assms] by blast
  obtain ap2 where "getActualPath n (s\<lparr>actualPath := ap\<rparr>) = Some (tmpDir @ n, s\<lparr>actualPath := ap2\<rparr>)"
    "fs_inv (s\<lparr>actualPath := ap2\<rparr>)"
    using getActualPath_total [OF ap(2) assms(2)] by auto
  with ap show ?thesis by (auto simp: srv_open_def Let_def case_prod_unfold intro!: exI [of _ ap2])
qed

lemma srv_mkdir_path:
  assumes "fs_inv s" and "name_ok n"
  shows "\<exists>ap. fs_inv (s\<lparr>actualPath := ap\<rparr>) \<and>
    srv_mkdir P n mode s =
      Some (fst (p_mkdir P (tmpDir @ n) mode (fs s)),
        s\<lparr>actualPath := ap, fs := snd (p_mkdir P (tmpDir @ n) mode (fs s))\<rparr>)"
  using getActualPath_total [OF assms] by (auto simp: srv_mkdir_def Let_def case_prod_unfold)

lemma srv_unlink_path:
  assumes "fs_inv s" and "name_ok n"
  shows "\<exists>ap. fs_inv (s\<lparr>actualPath := ap\<rparr>) \<and>
    srv_unlink P n s =
      Some (fst (p_unlink P (tmpDir @ n) (fs s)),
        s\<lparr>actualPath := ap, fs := snd (p_unlink P (tmpDir @ n) (fs s))\<rparr>)"
  using getActualPath_total [OF assms] by (auto simp: srv_unlink_def Let_def case_prod_unfold)

lemma srv_rmdir_path:
  assumes "fs_inv s" and "name_ok n"
  shows "\<exists>ap. fs_inv (s\<lparr>actualPath := ap\<rparr>) \<and>
    srv_rmdir P n s =
      Some (fst (p_rmdir P (tmpDir @ n) (fs s)),
        s\<lparr>actualPath := ap, fs := snd (p_rmdir P (tmpDir @ n) (fs s))\<rparr>)"
  using getActualPath_total [OF assms] by (auto simp: srv_rmdir_def Let_def case_prod_unfold)

text \<open>The temporary buffer of \<open>rename\<close> holds the prefix and the new name when both fit.\<close>

lemma rename_tmp:
  assumes "NUL \<notin> set d"
  shows "(strcpy (mzero PATH_LEN) 0 tmpDir \<bind> (\<lambda>t. strcpy t (length tmpDir) d)) =
      None \<longleftrightarrow> PATH_LEN \<le> length tmpDir + length d"
    and "(strcpy (mzero PATH_LEN) 0 tmpDir \<bind> (\<lambda>t. strcpy t (length tmpDir) d)) = Some t2 \<Longrightarrow>
      cstr_from t2 0 = Some (tmpDir @ d)"
proof -
  have "strcpy (mzero PATH_LEN) 0 tmpDir \<noteq> None"
    by (simp add: tmpDir_def PATH_LEN_def mzero_def)
  then obtain t1 where t1: "strcpy (mzero PATH_LEN) 0 tmpDir = Some t1"
    by blast
  then have sz: "msize t1 = PATH_LEN" and cells: "\<forall>i < length tmpDir. mcell t1 i = tmpDir ! i"
    by (auto simp: strcpy_msize mzero_def) (auto simp: strcpy_def mwrite_eq_Some_iff nth_append)
  from sz show "(strcpy (mzero PATH_LEN) 0 tmpDir \<bind> (\<lambda>t. strcpy t (length tmpDir) d)) =
      None \<longleftrightarrow> PATH_LEN \<le> length tmpDir + length d"
    by (simp add: t1)
  assume "(strcpy (mzero PATH_LEN) 0 tmpDir \<bind> (\<lambda>t. strcpy t (length tmpDir) d)) = Some t2"
  then have "strcpy t1 (length tmpDir) d = Some t2" by (simp add: t1)
  then show "cstr_from t2 0 = Some (tmpDir @ d)"
    using assms cells by (intro cstr_from_strcpy [of t1 "length tmpDir"]) (auto simp: tmpDir_def)
qed

lemma srv_rename_path:
  assumes inv: "fs_inv s" "name_ok n" and d: "cstr_from (rw_buf s) 0 = Some d"
    and fits: "length tmpDir + length d < PATH_LEN"
  shows "\<exists>ap. fs_inv (s\<lparr>actualPath := ap\<rparr>) \<and>
    srv_rename P n s =
      Some (fst (p_rename P (tmpDir @ n) (tmpDir @ d) (fs s)),
        s\<lparr>actualPath := ap, fs := snd (p_rename P (tmpDir @ n) (tmpDir @ d) (fs s))\<rparr>)"
proof -
  obtain ap where ap: "getActualPath n s = Some (tmpDir @ n, s\<lparr>actualPath := ap\<rparr>)"
    "fs_inv (s\<lparr>actualPath := ap\<rparr>)"
    using getActualPath_total [OF inv] by blast
  obtain ap2 where ap2: "getActualPath n (s\<lparr>actualPath := ap\<rparr>) = Some (tmpDir @ n, s\<lparr>actualPath := ap2\<rparr>)"
    "fs_inv (s\<lparr>actualPath := ap2\<rparr>)"
    using getActualPath_total [OF ap(2) inv(2)] by auto
  have nd: "NUL \<notin> set d" using d by (rule cstr_from_no_NUL)
  from rename_tmp(1) [OF nd] fits obtain t2 where
    "strcpy (mzero PATH_LEN) 0 tmpDir \<bind> (\<lambda>t. strcpy t (length tmpDir) d) = Some t2"
    by fastforce
  then obtain t1 where
    t: "strcpy (mzero PATH_LEN) 0 tmpDir = Some t1" "strcpy t1 (length tmpDir) d = Some t2"
    by (auto simp: bind_eq_Some_conv)
  with rename_tmp(2) [OF nd] have "cstr_from t2 0 = Some (tmpDir @ d)" by simp
  with t ap ap2 d show ?thesis
    by (auto simp: srv_rename_def Let_def case_prod_unfold intro!: exI [of _ ap2])
qed

definition rename_target_ok :: "'f fs_srv \<Rightarrow> bool" where
  "rename_target_ok s \<longleftrightarrow>
     (case cstr_from (rw_buf s) 0 of Some d \<Rightarrow> length tmpDir + length d < PATH_LEN | None \<Rightarrow> False)"

lemma srv_rename_overflow:
  assumes "\<not> rename_target_ok s"
  shows "srv_rename P n s = None"
proof (cases "cstr_from (rw_buf s) 0")
  case None
  then show ?thesis by (simp add: srv_rename_def)
next
  case (Some d)
  with assms have "PATH_LEN \<le> length tmpDir + length d" by (simp add: rename_target_ok_def)
  with rename_tmp(1) [OF cstr_from_no_NUL [OF Some]] Some show ?thesis
    by (auto simp: srv_rename_def bind_eq_None_conv)
qed

text \<open>A call with a name succeeds and keeps the invariant, but for \<open>rename\<close> with a bad new name.\<close>

lemma invoke_named:
  assumes inv: "fs_inv s" and n: "name_of c = Some n" "name_ok n"
    and ren: "c = C_rename n \<Longrightarrow> rename_target_ok s"
  shows "\<exists>r s'. invoke (fs_srv_handlers P) c s = Some (r, s') \<and> fs_inv s'"
proof (cases c)
  case (C_open n' f m)
  with n srv_open_path [OF inv n(2), of P f m] show ?thesis
    by (auto simp: fs_srv_handlers_def)
next
  case (C_mkdir n' m)
  with n srv_mkdir_path [OF inv n(2), of P m] show ?thesis
    by (auto simp: fs_srv_handlers_def)
next
  case (C_rename n')
  with n ren obtain d where d: "cstr_from (rw_buf s) 0 = Some d" "length tmpDir + length d < PATH_LEN"
    by (auto simp: rename_target_ok_def split: option.splits)
  with C_rename n srv_rename_path [OF inv n(2) d, of P] show ?thesis
    by (auto simp: fs_srv_handlers_def)
next
  case (C_unlink n')
  with n srv_unlink_path [OF inv n(2), of P] show ?thesis
    by (auto simp: fs_srv_handlers_def)
next
  case (C_rmdir n')
  with n srv_rmdir_path [OF inv n(2), of P] show ?thesis
    by (auto simp: fs_srv_handlers_def)
qed (use inv n in \<open>simp_all add: fs_srv_handlers_def\<close>)

text \<open>Every method keeps the invariant, whatever the file system does.\<close>

lemma fs_srv_preserves:
  assumes inv: "fs_inv s" and names: "names_ok c"
    and i: "invoke (fs_srv_handlers P) c s = Some (r, s')"
  shows "fs_inv s'"
proof (cases "name_of c")
  case None
  with i inv show ?thesis
    by (cases c) (auto simp: fs_srv_handlers_def srv_init_def srv_close_def srv_pread_def
        srv_pwrite_def srv_fstat64_def srv_dataspace_def Let_def fs_inv_rw_buf_update
        fs_inv_def mwrite_msize split: bind_splits prod.splits)
next
  case (Some n)
  then have n: "name_ok n" using names by (auto dest: names_ok_name_of)
  show ?thesis
  proof (cases "c = C_rename n \<and> \<not> rename_target_ok s")
    case True
    with i show ?thesis by (auto simp: fs_srv_handlers_def srv_rename_overflow)
  next
    case False
    with invoke_named [OF inv Some n, of P] i show ?thesis by auto
  qed
qed

text \<open>
  What a request needs to be answered: transfers within the buffer, a terminated new name that
  fits behind the prefix, and for \<open>dataspace\<close> an open file smaller than 2 GiB and memory.
  \<open>contents f fd\<close> is what the file open at \<open>fd\<close> holds, if \<open>fd\<close> is open on a regular file.
\<close>

definition ds_granted :: "'f posix \<Rightarrow> int \<Rightarrow> nat \<Rightarrow> 'f \<Rightarrow> bool" where
  "ds_granted P fh n f =
     (case ds_memory P n (snd (snd (p_fstat P fh f))) of (m, att, _) \<Rightarrow> m \<noteq> None \<and> att)"

fun fs_pre :: "('f \<Rightarrow> int \<Rightarrow> byte list option) \<Rightarrow> 'f posix \<Rightarrow> fs_call \<Rightarrow> 'f fs_srv \<Rightarrow> bool" where
  "fs_pre contents P (C_pread fh n x) s = (n \<le> Max_rw_buffer_size)"
| "fs_pre contents P (C_pwrite fh n x) s = (n \<le> Max_rw_buffer_size)"
| "fs_pre contents P (C_rename n) s = rename_target_ok s"
| "fs_pre contents P (C_dataspace fh) s =
     (case contents (fs s) fh of
        None \<Rightarrow> False
      | Some d \<Rightarrow> length d < 2 ^ 31 \<and> ds_granted P fh (length d) (fs s))"
| "fs_pre contents P _ s = True"

section \<open>What is used of the file system\<close>

text \<open>
  What every read keeps to: it stores no more bytes than asked for, and on a regular file the bytes from its
  offset on, at least one when there is one, perhaps fewer than asked for. \<open>fstat\<close> reports the size of a file
  that \<open>off64_t\<close> can measure. Memory is at least as large as asked for; only memory can be attached.
\<close>

locale posix_reads =
  fixes P :: "'f posix" and contents :: "'f \<Rightarrow> int \<Rightarrow> byte list option"
  assumes pread_bound: "p_pread P fd n x f = (r, bs, f') \<Longrightarrow> length bs \<le> n"
    and pread_some: "contents f fd = Some d \<Longrightarrow> 0 \<le> x \<Longrightarrow>
      \<exists>k f'. p_pread P fd n x f = (int (length (take k (drop (nat x) d))), take k (drop (nat x) d), f') \<and>
        k \<le> n \<and> (0 < n \<longrightarrow> nat x < length d \<longrightarrow> 0 < k) \<and> contents f' = contents f"
    and fstat_file: "contents f fd = Some d \<Longrightarrow> length d < 2 ^ 63 \<Longrightarrow>
      \<exists>st f'. p_fstat P fd f = (0, Some st, f') \<and> uint (st_size st) = int (length d) \<and> contents f' = contents f"
    and ds_alloc: "p_ds_alloc P n f = (m, f') \<Longrightarrow> contents f' = contents f \<and> (\<forall>k. m = Some k \<longrightarrow> n \<le> k)"
    and ds_attach: "p_ds_attach P m f = (att, f') \<Longrightarrow> contents f' = contents f \<and> (att \<longrightarrow> m \<noteq> None)"
begin

text \<open>Every round of the copy loop gets at least one byte and puts it where it belongs.\<close>

lemma ds_fill_reads:
  assumes "contents f fh = Some d" and "length d < 2 ^ 31" and "length d \<le> msize b" and "rd \<le> length d"
    and "\<forall>i. mcell b i = (if i < rd then d ! i else NUL)"
  shows "\<exists>b' f'. ds_fill P fh (of_nat (length d)) (of_nat rd) b f = Some (Some (b', f')) \<and>
    msize b' = msize b \<and> (\<forall>i. mcell b' i = (if i < length d then d ! i else NUL)) \<and> contents f' = contents f"
  using assms
proof (induction "length d - rd" arbitrary: rd b f rule: less_induct)
  case less
  have u: "unat (of_nat (length d) :: u32) = length d" "unat (of_nat rd :: u32) = rd"
    using less.prems by (auto intro!: unat_of_nat_size simp: size_ok_def)
  show ?case
  proof (cases "rd < length d")
    case False
    with less.prems(4) have "rd = length d" by simp
    with less.prems show ?thesis by (subst ds_fill.simps) auto
  next
    case True
    with u have lt: "(of_nat rd :: u32) < of_nat (length d)" by (simp add: word_less_nat_alt)
    have x: "uint (of_nat rd :: u32) = int rd" using u(2) by (metis uint_nat)
    obtain k f1 where p: "p_pread P fh (length d) (int rd) f =
        (int (length (take k (drop rd d))), take k (drop rd d), f1)" "k \<le> length d" "0 < k" "contents f1 = contents f"
      using pread_some [OF less.prems(1), of "int rd" "length d"] True by fastforce
    define bs where "bs = take k (drop rd d)"
    have len: "0 < length bs" "rd + length bs \<le> length d" using True p(3) by (auto simp: bs_def)
    obtain b1 where b1: "mwrite b rd bs = Some b1" using mwrite_total [of rd bs b] len(2) less.prems(3) by auto
    have cells: "\<forall>i. mcell b1 i = (if i < rd + length bs then d ! i else NUL)"
    proof
      fix i
      have "bs ! (i - rd) = d ! i" if "rd \<le> i" "i < rd + length bs" using that by (simp add: bs_def)
      then show "mcell b1 i = (if i < rd + length bs then d ! i else NUL)"
        using b1 less.prems(5) by (auto simp: mwrite_eq_Some_iff)
    qed
    have step: "ds_fill P fh (of_nat (length d)) (of_nat rd) b f =
        ds_fill P fh (of_nat (length d)) (of_nat (rd + length bs)) b1 f1"
      using lt p(1) b1 by (subst ds_fill.simps) (simp add: u x bs_def [symmetric])
    have less1: "length d - (rd + length bs) < length d - rd" using len by linarith
    have "contents f1 fh = Some d" "length d \<le> msize b1"
      using less.prems(1,3) p(4) b1 by (auto simp: mwrite_msize)
    from less.hyps [OF less1 this(1) less.prems(2) this(2) len(2) cells] p(4) b1 show ?thesis
      unfolding step by (simp add: mwrite_msize)
  qed
qed

lemma ds_memory_contents:
  "ds_memory P n f = (m, att, f') \<Longrightarrow> contents f' = contents f \<and> (\<forall>k. m = Some k \<longrightarrow> n \<le> k) \<and> (att \<longrightarrow> m \<noteq> None)"
  using ds_alloc ds_attach by (fastforce simp: ds_memory_def Let_def split: prod.splits)

text \<open>What \<open>dataspace\<close> does, by what it gets: a copy of the file, padded to the size of the memory, or a store
  through the pointer that has not been set.\<close>

lemma srv_dataspace_file:
  assumes d: "contents (fs s) fh = Some d" "length d < 2 ^ 31"
    and mem: "ds_memory P (length d) (snd (snd (p_fstat P fh (fs s)))) = (m, att, f2)"
  shows "att \<Longrightarrow> \<exists>k f'. m = Some k \<and> length d \<le> k \<and>
      srv_dataspace P fh s = Some (FileDs (d @ replicate (k - length d) NUL), 0, s\<lparr>fs := f'\<rparr>) \<and>
      contents f' = contents (fs s)"
    and "\<not> att \<Longrightarrow> d \<noteq> [] \<Longrightarrow> srv_dataspace P fh s = None"
    and "\<not> att \<Longrightarrow> d = [] \<Longrightarrow> \<exists>f'. srv_dataspace P fh s =
      Some (case m of None \<Rightarrow> NoCap | Some k \<Rightarrow> FileDs (replicate k NUL), 0, s\<lparr>fs := f'\<rparr>) \<and>
      contents f' = contents (fs s)"
proof -
  obtain st f1 where f1: "p_fstat P fh (fs s) = (0, Some st, f1)" "uint (st_size st) = int (length d)"
    "contents f1 = contents (fs s)"
    using fstat_file [OF d(1)] d(2) by auto
  have sz: "(ucast (st_size st) :: u32) = of_nat (length d)"
    by (simp add: ucast_eq f1(2))
  have u: "unat (of_nat (length d) :: u32) = length d"
    using d(2) by (intro unat_of_nat_size) (simp add: size_ok_def)
  have mem1: "ds_memory P (length d) f1 = (m, att, f2)" using mem f1(1) by simp
  note c = ds_memory_contents [OF this]
  have df: "contents f2 fh = Some d" using c f1(3) d(1) by simp
  note unfold = srv_dataspace_def f1(1) sz u mem1
  show "\<exists>k f'. m = Some k \<and> length d \<le> k \<and>
      srv_dataspace P fh s = Some (FileDs (d @ replicate (k - length d) NUL), 0, s\<lparr>fs := f'\<rparr>) \<and>
      contents f' = contents (fs s)" if att
  proof -
    from c that obtain k where k: "m = Some k" "length d \<le> k" by auto
    obtain b f' where b: "ds_fill P fh (of_nat (length d)) 0 (mzero k) f2 = Some (Some (b, f'))"
      "\<forall>i. mcell b i = (if i < length d then d ! i else NUL)" "contents f' = contents f2"
      using ds_fill_reads [OF df d(2), of "mzero k" 0] k(2) by (auto simp: mzero_def)
    have "map (mcell b) [0..<k] = d @ replicate (k - length d) NUL"
      using b(2) k(2) by (auto intro!: nth_equalityI simp: nth_append)
    with b k that c f1(3) show ?thesis by (auto simp: unfold)
  qed
  show "srv_dataspace P fh s = None" if no: "\<not> att" "d \<noteq> []"
  proof -
    have pos: "(0 :: u32) < of_nat (length d)" using u no(2) by (simp add: word_less_nat_alt)
    obtain k f3 where p: "p_pread P fh (length d) 0 f2 = (int (length (take k d)), take k d, f3)" "0 < k"
      using pread_some [OF df, of 0 "length d"] no(2) by auto
    have "ds_fill P fh (of_nat (length d)) 0 (mzero 0) f2 = Some None"
      using pos p no(2) by (subst ds_fill.simps) (simp add: u mzero_def mwrite_def)
    then show ?thesis using no(1) by (cases m) (simp_all add: unfold)
  qed
  show "\<exists>f'. srv_dataspace P fh s =
      Some (case m of None \<Rightarrow> NoCap | Some k \<Rightarrow> FileDs (replicate k NUL), 0, s\<lparr>fs := f'\<rparr>) \<and>
      contents f' = contents (fs s)" if no: "\<not> att" "d = []"
  proof -
    have "ds_fill P fh 0 0 (mzero 0) f2 = Some (Some (mzero 0, f2))" by (subst ds_fill.simps) simp
    moreover have "ds_memory P 0 f1 = (m, att, f2)" using mem1 no(2) by simp
    ultimately show ?thesis using no c f1(3) u by (intro exI [of _ f2]) (cases m; simp add: unfold)
  qed
qed

end

text \<open>
  The POSIX contract of the calls on an open file: a read on a regular file stores all bytes up to the end of
  the file; a write stores a prefix of the data, as long as its result, or fails with -1 and stores nothing.
\<close>

locale posix_env = posix_reads +
  assumes pread_file: "contents f fd = Some d \<Longrightarrow> 0 \<le> x \<Longrightarrow>
      \<exists>f'. p_pread P fd n x f = (int (length (take n (drop (nat x) d))), take n (drop (nat x) d), f') \<and>
        contents f' = contents f"
    and pwrite_file: "contents f fd = Some d \<Longrightarrow> 0 \<le> x \<Longrightarrow> p_pwrite P fd bs x f = (r, f') \<Longrightarrow>
      (r = -1 \<and> contents f' = contents f) \<or>
      (0 \<le> r \<and> nat r \<le> length bs \<and> contents f' fd = Some (overwrite d (nat x) (take (nat r) bs)))"
begin

lemma fs_srv_total:
  assumes inv: "fs_inv s" and names: "names_ok c" and pre: "fs_pre contents P c s"
  shows "invoke (fs_srv_handlers P) c s \<noteq> None"
proof (cases "name_of c")
  case None
  have sz: "msize (rw_buf s) = Max_rw_buffer_size" using inv by (simp add: fs_inv_def)
  have rd: "\<not> Max_rw_buffer_size < length bs"
    if "p_pread P fh n x (fs s) = (r, bs, f')" "n \<le> Max_rw_buffer_size" for fh n x r bs f'
    using pread_bound [OF that(1)] that(2) by simp
  show ?thesis
  proof (cases "\<exists>fh. c = C_dataspace fh")
    case True
    then obtain fh where c: "c = C_dataspace fh" by blast
    with pre obtain d m att f2 where d: "contents (fs s) fh = Some d" "length d < 2 ^ 31"
      and m: "ds_memory P (length d) (snd (snd (p_fstat P fh (fs s)))) = (m, att, f2)" att
      by (auto simp: ds_granted_def split: option.splits prod.splits)
    from srv_dataspace_file(1) [OF d m] c show ?thesis by (auto simp: fs_srv_handlers_def)
  next
    case False
    with None pre show ?thesis
    by (cases c) (auto simp: fs_srv_handlers_def srv_init_def srv_close_def srv_pread_def
        srv_pwrite_def srv_fstat64_def Let_def sz split: prod.splits bind_splits dest: rd)
  qed
next
  case (Some n)
  then have n: "name_ok n" using names by (auto dest: names_ok_name_of)
  have "c = C_rename n \<Longrightarrow> rename_target_ok s" using pre by simp
  with invoke_named [OF inv Some n, of P] show ?thesis by auto
qed

end

sublocale posix_env \<subseteq> srv: l4fs_object "fs_srv_handlers P" fs_inv "fs_pre contents P"
  by unfold_locales (blast intro: fs_srv_preserves, blast dest: fs_srv_total)

text \<open>
  What the POSIX calls do to the names: \<open>lookup f p\<close> is the content of the regular file at path \<open>p\<close>,
  \<open>opened f fd\<close> the path and the flags \<open>fd\<close> was opened with, \<open>creatable f p\<close> says that nothing is at
  \<open>p\<close> and a file can be created there, and \<open>room f\<close> is the number of descriptors left.
\<close>

locale posix_paths =
  posix_env P "\<lambda>f fd. Option.bind (opened f fd) (\<lambda>(p, fl). lookup f p)"
  for P :: "'f posix" and lookup :: "'f \<Rightarrow> byte list \<Rightarrow> byte list option"
    and opened :: "'f \<Rightarrow> int \<Rightarrow> (byte list \<times> u32) option"
    and creatable :: "'f \<Rightarrow> byte list \<Rightarrow> bool" and room :: "'f \<Rightarrow> int" +
  assumes creatable: "creatable f p \<Longrightarrow> lookup f p = None"
    and open_existing: "0 < room f \<Longrightarrow> lookup f p = Some d \<Longrightarrow> fl AND O_DIRECTORY = 0 \<Longrightarrow>
      fl AND O_CREAT = 0 \<or> fl AND O_EXCL = 0 \<Longrightarrow>
      \<exists>fd f'. p_open P p fl m f = (fd, f') \<and> 0 \<le> fd \<and> fd < 2 ^ 31 \<and> opened f fd = None \<and>
        opened f' = (opened f)(fd \<mapsto> (p, fl)) \<and> room f' = room f - 1 \<and>
        lookup f' = (if fl AND O_TRUNC = 0 then lookup f else (lookup f)(p \<mapsto> []))"
    and open_new: "0 < room f \<Longrightarrow> creatable f p \<Longrightarrow> fl AND O_DIRECTORY = 0 \<Longrightarrow> fl AND O_CREAT \<noteq> 0 \<Longrightarrow>
      \<exists>fd f'. p_open P p fl m f = (fd, f') \<and> 0 \<le> fd \<and> fd < 2 ^ 31 \<and> opened f fd = None \<and>
        opened f' = (opened f)(fd \<mapsto> (p, fl)) \<and> room f' = room f - 1 \<and> lookup f' = (lookup f)(p \<mapsto> [])"
    and open_exclusive: "0 < room f \<Longrightarrow> lookup f p = Some d \<Longrightarrow> fl AND O_DIRECTORY = 0 \<Longrightarrow>
      fl AND O_CREAT \<noteq> 0 \<Longrightarrow> fl AND O_EXCL \<noteq> 0 \<Longrightarrow>
      \<exists>f'. p_open P p fl m f = (-1, f') \<and> opened f' = opened f \<and> room f' = room f \<and> lookup f' = lookup f"
    and open_missing: "0 < room f \<Longrightarrow> creatable f p \<Longrightarrow> fl AND O_CREAT = 0 \<Longrightarrow>
      \<exists>f'. p_open P p fl m f = (-1, f') \<and> opened f' = opened f \<and> room f' = room f \<and> lookup f' = lookup f"
    and open_root: "0 < room f \<Longrightarrow>
      \<exists>fd f'. p_open P (tmpDir @ ''/'') O_DIRECTORY 0 f = (fd, f') \<and> 0 \<le> fd \<and> fd < 2 ^ 31 \<and>
        opened f fd = None \<and> opened f' = (opened f)(fd \<mapsto> (tmpDir @ ''/'', O_DIRECTORY)) \<and>
        room f' = room f - 1 \<and> lookup f' = lookup f \<and> creatable f' = creatable f"
    and close_file: "opened f fd = Some e \<Longrightarrow>
      \<exists>f'. p_close P fd f = (0, f') \<and> opened f' = (opened f)(fd := None) \<and> room f + 1 \<le> room f' \<and>
        lookup f' = lookup f"
    and pread_frame: "p_pread P fd n x f = (r, bs, f') \<Longrightarrow>
      opened f' = opened f \<and> room f' = room f \<and> lookup f' = lookup f"
    and pwrite_all: "opened f fd = Some (p, fl) \<Longrightarrow> fl AND O_RDWR \<noteq> 0 \<Longrightarrow> lookup f p = Some d \<Longrightarrow> 0 \<le> x \<Longrightarrow>
      \<exists>f'. p_pwrite P fd bs x f = (int (length bs), f') \<and> opened f' = opened f \<and> room f' = room f \<and>
        lookup f' = (lookup f)(p \<mapsto> overwrite d (nat x) bs)"

end
