(* ===== verification/Libc_Backend.thy ===== *)
theory Libc_Backend
  imports L4fs_Stub Fs_Srv
begin

text \<open>
  The client of the file server in the C library (libfs/lib/libc_backend/l4fs.cc): the connection
  \<open>Svr\<close> with its attached transfer buffer, and the methods of \<open>L4fs_file_base\<close>, \<open>L4fs_dir\<close> and
  \<open>L4fs_file\<close>.

  Data moves through the buffer the server shares with its clients, so the buffer is part of the
  world \<open>'w\<close> of the transport: a link gives the transport and access to the buffer. What vectored
  reads and writes need of the other end is the locale \<open>l4fs_remote\<close>; the file server over any
  file system of \<open>posix_env\<close> provides it.
\<close>

record 'w link =
  lcall :: "'w transport"
  lrw :: "'w \<Rightarrow> membuf"
  lput :: "membuf \<Rightarrow> 'w \<Rightarrow> 'w"

text \<open>\<open>memcpy(rw_buffer, bs, n)\<close>.\<close>

definition rw_store :: "'w link \<Rightarrow> byte list \<Rightarrow> 'w \<Rightarrow> 'w option" where
  "rw_store L bs w = map_option (\<lambda>b. lput L b w) (mwrite (lrw L w) 0 bs)"

text \<open>\<open>memcpy(buf, rw_buffer, n)\<close>.\<close>

definition rw_load :: "'w link \<Rightarrow> nat \<Rightarrow> membuf \<Rightarrow> 'w \<Rightarrow> membuf option" where
  "rw_load L n b w = do { bs \<leftarrow> mread (lrw L w) 0 n; mwrite b 0 bs }"

section \<open>Objects and the connection\<close>

text \<open>An open file or directory: the members \<open>_fh\<close> and \<open>_pos\<close>.\<close>

record fobj =
  fo_fh :: int
  fo_pos :: int

datatype fkind = L4fs_dir | L4fs_file

text \<open>
  The constructor of \<open>Svr\<close>. The numbers say what the environment answers to the query of the name,
  to the allocation of the capability and to \<open>attach\<close>: 0, or the error that is thrown. An
  exception is \<open>Inl\<close> with its error number.
\<close>

definition Svr_new :: "'w link \<Rightarrow> int \<Rightarrow> int \<Rightarrow> int \<Rightarrow> 'w \<Rightarrow> ((int + unit) \<times> 'w) option" where
  "Svr_new L query alloc attach w =
     (if query \<noteq> 0 then Some (Inl query, w)
      else if alloc \<noteq> 0 then Some (Inl alloc, w)
      else do {
        (r, _, w) \<leftarrow> l4fs_init (lcall L) w;
        Some (if r < 0 then Inl r else if attach \<noteq> 0 then Inl attach else Inr (), w)
      })"

section \<open>Methods of all objects\<close>

definition fb_link :: "'w link \<Rightarrow> byte list \<Rightarrow> byte list \<Rightarrow> 'w \<Rightarrow> (int \<times> 'w) option" where
  "fb_link L src_path dst_path w =
     (if name_too_long dst_path then Some (- L4_ENAMETOOLONG, w)
      else do {
        w \<leftarrow> rw_store L (dst_path @ [NUL]) w;
        l4fs_link (lcall L) src_path w
      })"

definition fb_symlink :: "'w link \<Rightarrow> byte list \<Rightarrow> byte list \<Rightarrow> 'w \<Rightarrow> (int \<times> 'w) option" where
  "fb_symlink L src_path dst_path w =
     (if name_too_long dst_path then Some (- L4_ENAMETOOLONG, w)
      else do {
        w \<leftarrow> rw_store L (dst_path @ [NUL]) w;
        l4fs_symlink (lcall L) src_path w
      })"

definition fb_readlink :: "'w link \<Rightarrow> fobj \<Rightarrow> membuf \<Rightarrow> nat \<Rightarrow> 'w \<Rightarrow> (int \<times> membuf \<times> 'w) option" where
  "fb_readlink L f buf sz w = do {
     let client_size = sz;
     (res, sz, w) \<leftarrow> l4fs_readlink (lcall L) (fo_fh f) sz w;
     if res < 0 then Some (res, buf, w)
     else do {
       buf \<leftarrow> rw_load L client_size buf w;
       Some (i32 (int sz), buf, w)
     }
   }"

definition fb_fstat64 :: "'w link \<Rightarrow> fobj \<Rightarrow> 'w \<Rightarrow> (int \<times> stat64 option \<times> 'w) option" where
  "fb_fstat64 L f w = l4fs_fstat64 (lcall L) (fo_fh f) w"

definition fb_size :: "'w link \<Rightarrow> fobj \<Rightarrow> 'w \<Rightarrow> (int \<times> 'w) option" where
  "fb_size L f w = do {
     (err, st, w) \<leftarrow> fb_fstat64 L f w;
     if err = 0 then do { st \<leftarrow> st; Some (sint (st_size st), w) }
     else Some (err, w)
   }"

definition fb_close :: "'w link \<Rightarrow> fobj \<Rightarrow> 'w \<Rightarrow> (int \<times> fobj \<times> 'w) option" where
  "fb_close L f w = do {
     (err, w) \<leftarrow> (if 0 \<le> fo_fh f then l4fs_close (lcall L) (fo_fh f) w else Some (- EBADF, w));
     Some (err, f\<lparr>fo_fh := -1\<rparr>, w)
   }"

definition fb_fsync :: "'w link \<Rightarrow> fobj \<Rightarrow> 'w \<Rightarrow> (int \<times> 'w) option" where
  "fb_fsync L f w = l4fs_fsync (lcall L) (fo_fh f) w"

definition fb_fdatasync :: "'w link \<Rightarrow> fobj \<Rightarrow> 'w \<Rightarrow> (int \<times> 'w) option" where
  "fb_fdatasync L f w = fb_fsync L f w"

section \<open>Methods of directories\<close>

datatype whence = SEEK_SET | SEEK_CUR | SEEK_END | SEEK_OTHER

text \<open>A sum of type \<open>off64_t\<close>; its overflow is undefined.\<close>

definition off64 :: "int \<Rightarrow> int option" where
  "off64 x = (if - (2 ^ 63) \<le> x \<and> x < 2 ^ 63 then Some x else None)"

definition fd_lseek64 :: "'w link \<Rightarrow> fobj \<Rightarrow> int \<Rightarrow> whence \<Rightarrow> 'w \<Rightarrow> (int \<times> fobj \<times> 'w) option" where
  "fd_lseek64 L f offset wh w = do {
     (base, w) \<leftarrow> (case wh of
         SEEK_SET \<Rightarrow> Some (Some 0, w)
       | SEEK_CUR \<Rightarrow> Some (Some (fo_pos f), w)
       | SEEK_END \<Rightarrow> do { (n, w) \<leftarrow> fb_size L f w; Some (Some n, w) }
       | SEEK_OTHER \<Rightarrow> Some (None, w));
     case base of
       None \<Rightarrow> Some (- EINVAL, f, w)
     | Some b \<Rightarrow> do {
         r \<leftarrow> off64 (b + offset);
         if r < 0 then Some (- EINVAL, f, w)
         else Some (r, f\<lparr>fo_pos := r\<rparr>, w)
       }
   }"

definition fd_getdents ::
  "'w link \<Rightarrow> fobj \<Rightarrow> membuf \<Rightarrow> nat \<Rightarrow> 'w \<Rightarrow> (int \<times> fobj \<times> membuf \<times> 'w) option" where
  "fd_getdents L f buf max_size w = do {
     (err, sz, w) \<leftarrow> l4fs_pgetdents (lcall L) (fo_fh f) max_size (fo_pos f) w;
     if err = 0 \<and> 0 < sz \<and> sz \<le> max_size
     then do {
       buf \<leftarrow> rw_load L sz buf w;
       pos \<leftarrow> off64 (fo_pos f + int sz);
       Some (i32 (int sz), f\<lparr>fo_pos := pos\<rparr>, buf, w)
     }
     else Some (err, f, buf, w)
   }"

definition S_ISDIR :: "u32 \<Rightarrow> bool" where "S_ISDIR mode \<longleftrightarrow> mode AND 0xF000 = 0x4000"

text \<open>\<open>mem_ok\<close> says whether \<open>new\<close> gives an object; without one the handle stays open.\<close>

definition fd_get_entry ::
  "'w link \<Rightarrow> bool \<Rightarrow> byte list \<Rightarrow> u32 \<Rightarrow> u32 \<Rightarrow> 'w \<Rightarrow> (int \<times> (fkind \<times> fobj) option \<times> 'w) option" where
  "fd_get_entry L mem_ok name flags mode w = do {
     let flags = (if name = [] then flags OR O_DIRECTORY else flags);
     (fh, mode, w) \<leftarrow> l4fs_open (lcall L) name flags mode w;
     if fh < 0 then Some (fh, None, w)
     else if mem_ok
     then Some (0, Some (if S_ISDIR mode then L4fs_dir else L4fs_file, \<lparr>fo_fh = fh, fo_pos = 0\<rparr>), w)
     else Some (- ENOMEM, None, w)
   }"

definition fd_mkdir :: "'w link \<Rightarrow> byte list \<Rightarrow> u32 \<Rightarrow> 'w \<Rightarrow> (int \<times> 'w) option" where
  "fd_mkdir L name mode w = l4fs_mkdir (lcall L) name mode w"

definition fd_rmdir :: "'w link \<Rightarrow> byte list \<Rightarrow> 'w \<Rightarrow> (int \<times> 'w) option" where
  "fd_rmdir L name w = l4fs_rmdir (lcall L) name w"

definition fd_rename :: "'w link \<Rightarrow> byte list \<Rightarrow> byte list \<Rightarrow> 'w \<Rightarrow> (int \<times> 'w) option" where
  "fd_rename L from to w =
     (if name_too_long to then Some (- L4_ENAMETOOLONG, w)
      else do {
        w \<leftarrow> rw_store L (to @ [NUL]) w;
        l4fs_rename (lcall L) from w
      })"

definition fd_unlink :: "'w link \<Rightarrow> byte list \<Rightarrow> 'w \<Rightarrow> (int \<times> 'w) option" where
  "fd_unlink L name w = l4fs_unlink (lcall L) name w"

section \<open>Methods of files\<close>

text \<open>The loop of \<open>preadv\<close>; an \<open>iovec\<close> is the buffer it describes.\<close>

fun ff_preadv_loop ::
  "'w link \<Rightarrow> int \<Rightarrow> membuf list \<Rightarrow> int \<Rightarrow> int \<Rightarrow> 'w \<Rightarrow> (int \<times> membuf list \<times> 'w) option" where
  "ff_preadv_loop L fh [] p read_bytes w = Some (read_bytes, [], w)"
| "ff_preadv_loop L fh (buf # iov) p read_bytes w = do {
     (err, len, w) \<leftarrow> l4fs_pread (lcall L) fh (msize buf) p w;
     if err < 0 then Some (err, buf # iov, w)
     else do {
       buf \<leftarrow> (if err = 0 \<and> len \<noteq> 0 then rw_load L len buf w else Some buf);
       p \<leftarrow> off64 (p + int len);
       (r, iov, w) \<leftarrow> ff_preadv_loop L fh iov p (i32 (read_bytes + int len)) w;
       Some (r, buf # iov, w)
     }
   }"

definition ff_preadv :: "'w link \<Rightarrow> fobj \<Rightarrow> membuf list \<Rightarrow> int \<Rightarrow> 'w \<Rightarrow> (int \<times> membuf list \<times> 'w) option" where
  "ff_preadv L f iov p w = ff_preadv_loop L (fo_fh f) iov p 0 w"

fun ff_pwritev_loop ::
  "'w link \<Rightarrow> int \<Rightarrow> byte list list \<Rightarrow> int \<Rightarrow> int \<Rightarrow> 'w \<Rightarrow> (int \<times> 'w) option" where
  "ff_pwritev_loop L fh [] p written_bytes w = Some (written_bytes, w)"
| "ff_pwritev_loop L fh (buf # iov) p written_bytes w = do {
     w \<leftarrow> rw_store L buf w;
     (err, len, w) \<leftarrow> l4fs_pwrite (lcall L) fh (length buf) p w;
     if err < 0 then Some (err, w)
     else do {
       p \<leftarrow> off64 (p + int len);
       if len \<noteq> length buf then Some (i32 (written_bytes + int len), w)
       else ff_pwritev_loop L fh iov p (i32 (written_bytes + int len)) w
     }
   }"

definition ff_pwritev :: "'w link \<Rightarrow> fobj \<Rightarrow> byte list list \<Rightarrow> int \<Rightarrow> 'w \<Rightarrow> (int \<times> 'w) option" where
  "ff_pwritev L f iov p w = ff_pwritev_loop L (fo_fh f) iov p 0 w"

definition ff_ftruncate64 :: "'w link \<Rightarrow> fobj \<Rightarrow> int \<Rightarrow> 'w \<Rightarrow> (int \<times> 'w) option" where
  "ff_ftruncate64 L f offset w = l4fs_ftruncate64 (lcall L) (fo_fh f) offset w"

text \<open>\<open>data_space\<close>: without a capability slot \<open>chkcap\<close> throws out of a \<open>throw()\<close> function.\<close>

definition ff_data_space :: "'w link \<Rightarrow> bool \<Rightarrow> fobj \<Rightarrow> 'w \<Rightarrow> (dscap \<times> 'w) option" where
  "ff_data_space L alloc_ok f w =
     (if \<not> alloc_ok then None
      else do {
        (err, ds, w) \<leftarrow> l4fs_dataspace (lcall L) (fo_fh f) w;
        Some (if err = 0 then ds else NoCap, w)
      })"

section \<open>Mounting\<close>

text \<open>
  The test behind \<open>new\<close> looks at the pointer \<open>dir\<close> and never fails, so \<open>mount\<close> reports success
  and stores a null reference when there is no memory.
\<close>

definition fs_mount ::
  "'w link \<Rightarrow> int \<Rightarrow> int \<Rightarrow> int \<Rightarrow> bool \<Rightarrow> byte list \<Rightarrow> 'w \<Rightarrow> (int \<times> fobj option \<times> 'w) option" where
  "fs_mount L query alloc attach mem_ok source w = do {
     (svr, w) \<leftarrow> Svr_new L query alloc attach w;
     case svr of
       Inl e \<Rightarrow> Some (e, None, w)
     | Inr _ \<Rightarrow> do {
         (fh, mode, w) \<leftarrow> l4fs_open (lcall L) source O_DIRECTORY 0 w;
         if fh < 0 then Some (fh, None, w)
         else Some (0, (if mem_ok then Some \<lparr>fo_fh = fh, fo_pos = 0\<rparr> else None), w)
       }
   }"

section \<open>The other end of a link\<close>

text \<open>
  \<open>content w fh\<close> is what the file open at \<open>fh\<close> on the server holds. The buffer keeps its size and
  belongs to the client between two calls; a read leaves the bytes in the buffer and their number
  in \<open>size\<close>; a write stores a prefix of the buffer, or fails and stores nothing.
\<close>

locale l4fs_remote =
  fixes L :: "'w link" and ok :: "'w \<Rightarrow> bool" and content :: "'w \<Rightarrow> int \<Rightarrow> byte list option"
  assumes rw_size: "ok w \<Longrightarrow> msize (lrw L w) = Max_rw_buffer_size"
    and put: "ok w \<Longrightarrow> msize b = Max_rw_buffer_size \<Longrightarrow>
      ok (lput L b w) \<and> lrw L (lput L b w) = b \<and> content (lput L b w) = content w"
    and pread: "ok w \<Longrightarrow> content w fh = Some d \<Longrightarrow> fh_ok fh \<Longrightarrow> 0 \<le> x \<Longrightarrow> off_ok x \<Longrightarrow>
      n \<le> Max_rw_buffer_size \<Longrightarrow> bs = take n (drop (nat x) d) \<Longrightarrow>
      \<exists>w'. l4fs_pread (lcall L) fh n x w = Some (0, length bs, w') \<and> ok w' \<and> content w' = content w \<and>
        mread (lrw L w') 0 (length bs) = Some bs"
    and pwrite: "ok w \<Longrightarrow> content w fh = Some d \<Longrightarrow> fh_ok fh \<Longrightarrow> 0 \<le> x \<Longrightarrow> off_ok x \<Longrightarrow>
      length bs \<le> Max_rw_buffer_size \<Longrightarrow> mread (lrw L w) 0 (length bs) = Some bs \<Longrightarrow>
      \<exists>r k w'. l4fs_pwrite (lcall L) fh (length bs) x w = Some (r, k, w') \<and> ok w' \<and>
        (r < 0 \<and> content w' = content w \<or>
         r = 0 \<and> k \<le> length bs \<and> content w' fh = Some (overwrite d (nat x) (take k bs)))"

text \<open>How a read at \<open>x\<close> is cut into the buffers of an \<open>iovec\<close> array.\<close>

fun slices :: "nat list \<Rightarrow> nat \<Rightarrow> byte list \<Rightarrow> byte list list" where
  "slices [] x d = []"
| "slices (n # ns) x d =
     take n (drop x d) # slices ns (x + length (take n (drop x d))) d"

lemma concat_slices: "concat (slices ns x d) = take (sum_list ns) (drop x d)"
proof (induction ns arbitrary: x)
  case Nil
  then show ?case by simp
next
  case (Cons n ns)
  show ?case
  proof (cases "n \<le> length d - x")
    case True
    then have "take (n + sum_list ns) (drop x d) = take n (drop x d) @ take (sum_list ns) (drop n (drop x d))"
      by (simp add: take_add)
    with True Cons show ?thesis by (simp add: add.commute)
  next
    case False
    with Cons show ?thesis by simp
  qed
qed

lemma length_slices [simp]: "length (slices ns x d) = length ns"
  by (induction ns arbitrary: x) simp_all

text \<open>A buffer that has received \<open>bs\<close> at its start and is otherwise unchanged.\<close>

definition received :: "membuf \<Rightarrow> byte list \<Rightarrow> membuf \<Rightarrow> bool" where
  "received b bs b' \<longleftrightarrow> msize b' = msize b \<and> mread b' 0 (length bs) = Some bs \<and>
     (\<forall>i \<ge> length bs. mcell b' i = mcell b i)"

lemma received_Nil [simp]: "received b [] b"
  by (simp add: received_def mread_def)

lemma mwrite_received: "mwrite b 0 bs = Some b' \<Longrightarrow> received b bs b'"
  using mread_mwrite_same [of b 0 bs b'] by (auto simp: received_def mwrite_eq_Some_iff)


lemma off_ok_nonneg: "0 \<le> x \<Longrightarrow> x < 2 ^ 63 \<Longrightarrow> off_ok x"
  by (simp add: off_ok_def sint_sbintrunc' signed_take_bit_int_eq_self)

lemma off64_id: "0 \<le> x \<Longrightarrow> x < 2 ^ 63 \<Longrightarrow> off64 x = Some x"
  by (simp add: off64_def)

text \<open>The loop bounds under which no \<open>ssize_t\<close> or \<open>off64_t\<close> sum of the loops overflows.\<close>

definition iov_ok :: "nat list \<Rightarrow> int \<Rightarrow> bool" where
  "iov_ok ns p \<longleftrightarrow> (\<forall>n \<in> set ns. n \<le> Max_rw_buffer_size) \<and> 0 \<le> p \<and>
     p + int (sum_list ns) < 2 ^ 63 \<and> sum_list ns < 2 ^ 31"

context l4fs_remote
begin

lemma rw_store_total:
  assumes "ok w" and "length bs \<le> Max_rw_buffer_size"
  shows "\<exists>w'. rw_store L bs w = Some w' \<and> ok w' \<and> content w' = content w \<and>
    mread (lrw L w') 0 (length bs) = Some bs"
proof -
  from assms obtain b where b: "mwrite (lrw L w) 0 bs = Some b"
    using mwrite_total [of 0 bs "lrw L w"] by (auto simp: rw_size)
  with assms(1) have "msize b = Max_rw_buffer_size" by (simp add: mwrite_msize rw_size)
  with put [OF assms(1)] b mread_mwrite_same [OF b] show ?thesis
    by (auto simp: rw_store_def)
qed

lemma preadv_step:
  assumes "ok w" and "content w fh = Some d" and "fh_ok fh" and "0 \<le> p" and "off_ok p"
    and "msize b \<le> Max_rw_buffer_size" and "bs = take (msize b) (drop (nat p) d)"
  shows "\<exists>w' b'. l4fs_pread (lcall L) fh (msize b) p w = Some (0, length bs, w') \<and> ok w' \<and>
    content w' = content w \<and> received b bs b' \<and>
    (if length bs \<noteq> 0 then rw_load L (length bs) b w' else Some b) = Some b'"
proof -
  obtain w' where w': "l4fs_pread (lcall L) fh (msize b) p w = Some (0, length bs, w')" "ok w'"
    "content w' = content w" "mread (lrw L w') 0 (length bs) = Some bs"
    using pread [OF assms(1-6,7)] by auto
  obtain b' where "mwrite b 0 bs = Some b'"
    using mwrite_total [of 0 bs b] assms(7) by auto
  with w' show ?thesis
    by (cases "bs = []") (auto simp: rw_load_def mwrite_received)
qed

lemma preadv_loop:
  assumes "ok w" and "content w fh = Some d" and "fh_ok fh"
    and "\<forall>b \<in> set iov. msize b \<le> Max_rw_buffer_size" and "0 \<le> p"
    and "p + int (sum_list (map msize iov)) < 2 ^ 63"
    and "0 \<le> n" and "n + int (sum_list (map msize iov)) < 2 ^ 31"
    and "S = slices (map msize iov) (nat p) d"
  shows "\<exists>iov' w'. ff_preadv_loop L fh iov p n w = Some (n + int (length (concat S)), iov', w') \<and>
    ok w' \<and> content w' = content w \<and> length iov' = length iov \<and>
    (\<forall>i < length iov. received (iov ! i) (S ! i) (iov' ! i))"
  using assms
proof (induction iov arbitrary: p n w S)
  case Nil
  then show ?case by simp
next
  case (Cons b iov)
  define bs where "bs = take (msize b) (drop (nat p) d)"
  define S' where "S' = slices (map msize iov) (nat (p + int (length bs))) d"
  have len: "length bs \<le> msize b" by (simp add: bs_def)
  have nat: "nat (p + int (length bs)) = nat p + length bs" using Cons.prems(5) by simp
  have S: "S = bs # S'" unfolding S'_def nat using Cons.prems(9) by (simp add: bs_def)
  have "off_ok p" using Cons.prems by (intro off_ok_nonneg) auto
  then obtain w1 b' where w1:
    "l4fs_pread (lcall L) fh (msize b) p w = Some (0, length bs, w1)" "ok w1"
    "content w1 = content w" "received b bs b'"
    "(if length bs \<noteq> 0 then rw_load L (length bs) b w1 else Some b) = Some b'"
    using preadv_step [of w fh d p b bs] Cons.prems by (auto simp: bs_def)
  have n: "i32 (n + int (length bs)) = n + int (length bs)"
    using Cons.prems len by (intro i32_id) auto
  have o: "off64 (p + int (length bs)) = Some (p + int (length bs))"
    using Cons.prems len by (intro off64_id) auto
  obtain iov' w' where rest:
    "ff_preadv_loop L fh iov (p + int (length bs)) (n + int (length bs)) w1 =
       Some (n + int (length bs) + int (length (concat S')), iov', w')"
    "ok w'" "content w' = content w1" "length iov' = length iov"
    "\<forall>i < length iov. received (iov ! i) (S' ! i) (iov' ! i)"
    using Cons.IH [of w1 "p + int (length bs)" "n + int (length bs)" S'] Cons.prems len w1
    by (auto simp: S'_def)
  with w1 n o S show ?case
    by (auto simp: less_Suc_eq_0_disj split: if_splits)
qed

lemma preadv_slices:
  assumes "ok w" and "content w (fo_fh f) = Some d" and "fh_ok (fo_fh f)"
    and "iov_ok (map msize iov) p" and "S = slices (map msize iov) (nat p) d"
  shows "\<exists>iov' w'. ff_preadv L f iov p w = Some (int (length (concat S)), iov', w') \<and>
    ok w' \<and> content w' = content w \<and> length iov' = length iov \<and>
    (\<forall>i < length iov. received (iov ! i) (S ! i) (iov' ! i))"
  using preadv_loop [of w "fo_fh f" d iov p 0 S] assms by (auto simp: ff_preadv_def iov_ok_def)

lemma pwritev_loop:
  assumes "ok w" and "content w fh = Some d" and "fh_ok fh"
    and "\<forall>b \<in> set iov. length b \<le> Max_rw_buffer_size" and "0 \<le> p"
    and "p + int (sum_list (map length iov)) < 2 ^ 63"
    and "0 \<le> n" and "n + int (sum_list (map length iov)) < 2 ^ 31"
  shows "\<exists>r w' k. ff_pwritev_loop L fh iov p n w = Some (r, w') \<and> ok w' \<and>
    k \<le> length (concat iov) \<and> (r < 0 \<or> r = n + int k) \<and>
    content w' fh = Some (overwrite d (nat p) (take k (concat iov)))"
  using assms
proof (induction iov arbitrary: p n w d)
  case Nil
  then show ?case by auto
next
  case (Cons b iov)
  have off: "off_ok p" using Cons.prems by (intro off_ok_nonneg) auto
  obtain w1 where w1: "rw_store L b w = Some w1" "ok w1" "content w1 = content w"
    "mread (lrw L w1) 0 (length b) = Some b"
    using rw_store_total [of w b] Cons.prems by auto
  obtain r k w2 where w2: "l4fs_pwrite (lcall L) fh (length b) p w1 = Some (r, k, w2)" "ok w2"
    "r < 0 \<and> content w2 = content w1 \<or>
     r = 0 \<and> k \<le> length b \<and> content w2 fh = Some (overwrite d (nat p) (take k b))"
    using pwrite [of w1 fh d p b] w1 off Cons.prems by auto
  from w2(3) show ?case
  proof (elim disjE conjE)
    assume "r < 0" "content w2 = content w1"
    with w1 w2 Cons.prems show ?thesis by (auto intro!: exI [of _ "0 :: nat"])
  next
    assume r: "r = 0" and k: "k \<le> length b"
      and c: "content w2 fh = Some (overwrite d (nat p) (take k b))"
    have n: "i32 (n + int k) = n + int k" using Cons.prems k by (intro i32_id) auto
    have o: "off64 (p + int k) = Some (p + int k)" using Cons.prems k by (intro off64_id) auto
    show ?thesis
    proof (cases "k = length b")
      case False
      with w1 w2 r k c n o show ?thesis by (auto intro!: exI [of _ k])
    next
      case True
      have p: "nat (p + int k) = nat p + length (take k b)" using Cons.prems True by simp
      obtain r' w' k' where rest: "ff_pwritev_loop L fh iov (p + int k) (n + int k) w2 = Some (r', w')"
        "ok w'" "k' \<le> length (concat iov)" "r' < 0 \<or> r' = n + int k + int k'"
        "content w' fh =
          Some (overwrite (overwrite d (nat p) (take k b)) (nat (p + int k)) (take k' (concat iov)))"
        using Cons.IH [of w2 "overwrite d (nat p) (take k b)" "p + int k" "n + int k"]
          Cons.prems True w2(2) c by auto
      with w1 w2 r True n o show ?thesis
        by (intro exI [of _ r'] exI [of _ w'] exI [of _ "k + k'"])
          (auto simp: p [unfolded True] overwrite_append)
    qed
  qed
qed

lemma pwritev_prefix:
  assumes "ok w" and "content w (fo_fh f) = Some d" and "fh_ok (fo_fh f)"
    and "iov_ok (map length iov) p"
  shows "\<exists>r w' k. ff_pwritev L f iov p w = Some (r, w') \<and> ok w' \<and>
    k \<le> length (concat iov) \<and> (r < 0 \<or> r = int k) \<and>
    content w' (fo_fh f) = Some (overwrite d (nat p) (take k (concat iov)))"
  using pwritev_loop [of w "fo_fh f" d iov p 0] assms by (auto simp: ff_pwritev_def iov_ok_def)

text \<open>What has been written is what a read at the same place returns, however both are cut.\<close>

lemma write_read:
  assumes w: "ok w" "content w (fo_fh f) = Some d" "fh_ok (fo_fh f)" "iov_ok (map length iov) p"
    and wr: "ff_pwritev L f iov p w = Some (int (length (concat iov)), w')"
    and rd: "iov_ok (map msize dst) p" "sum_list (map msize dst) = length (concat iov)"
  shows "\<exists>dst' w'' S. ff_preadv L f dst p w' = Some (int (length (concat iov)), dst', w'') \<and>
    concat S = concat iov \<and> length S = length dst \<and> length dst' = length dst \<and>
    (\<forall>i < length dst. received (dst ! i) (S ! i) (dst' ! i))"
proof -
  define S where "S = slices (map msize dst) (nat p) (overwrite d (nat p) (concat iov))"
  have S: "concat S = concat iov"
    by (simp only: S_def concat_slices rd(2) take_drop_overwrite)
  from pwritev_prefix [OF w] wr have w': "ok w'"
    "content w' (fo_fh f) = Some (overwrite d (nat p) (concat iov))"
    by auto
  from preadv_slices [OF this w(3) rd(1) S_def] obtain dst' w'' where
    "ff_preadv L f dst p w' = Some (int (length (concat S)), dst', w'')" "length dst' = length dst"
    "\<forall>i < length dst. received (dst ! i) (S ! i) (dst' ! i)"
    by blast
  with S show ?thesis
    by (intro exI [of _ dst'] exI [of _ w''] exI [of _ S]) (simp add: S_def)
qed

end


section \<open>The file server at the other end\<close>

text \<open>A client and the file server: calls go through the stubs and the dispatcher, the buffer is shared.\<close>

definition fs_link :: "'f posix \<Rightarrow> 'f fs_srv svr link" where
  "fs_link P =
     \<lparr>lcall = dispatch (fs_srv_handlers P),
      lrw = (\<lambda>w. rw_buf (obj w)),
      lput = (\<lambda>b w. w\<lparr>obj := (obj w)\<lparr>rw_buf := b\<rparr>\<rparr>)\<rparr>"

definition fs_ok :: "'f fs_srv svr \<Rightarrow> bool" where
  "fs_ok w \<longleftrightarrow> svr_wf w \<and> fs_inv (obj w)"

lemma fs_link_sel [simp]:
  "lcall (fs_link P) = dispatch (fs_srv_handlers P)" "lrw (fs_link P) w = rw_buf (obj w)"
  "lput (fs_link P) b w = w\<lparr>obj := (obj w)\<lparr>rw_buf := b\<rparr>\<rparr>"
  by (simp_all add: fs_link_def)

lemma fs_srv_handlers_sel [simp]:
  "h_init (fs_srv_handlers P) = srv_init" "h_open (fs_srv_handlers P) = srv_open P"
  "h_pread (fs_srv_handlers P) = srv_pread P" "h_pwrite (fs_srv_handlers P) = srv_pwrite P"
  "h_close (fs_srv_handlers P) = srv_close P" "h_fstat64 (fs_srv_handlers P) = srv_fstat64 P"
  "h_rename (fs_srv_handlers P) = srv_rename P" "h_dataspace (fs_srv_handlers P) = srv_dataspace P"
  by (simp_all add: fs_srv_handlers_def)

lemma size_ok_rw: "n \<le> Max_rw_buffer_size \<Longrightarrow> size_ok n"
  by (simp add: size_ok_def Max_rw_buffer_size_val)

lemma l4fs_pread_dispatch:
  assumes "fh_ok fh" and "off_ok x" and "n \<le> Max_rw_buffer_size"
  shows "l4fs_pread (dispatch h) fh n x s =
    map_option (\<lambda>(r, o'). (reply_code r, unat (word_of_int r :: u32), s\<lparr>obj := o'\<rparr>))
      (h_pread h fh n x (obj s))"
  using assms size_ok_rw [OF assms(3)]
  by (cases "h_pread h fh n x (obj s)")
    (auto simp: l4fs_pread_def dispatch_def fh_ok_def off_ok_def sint_word_of_int_i32 split: bind_splits)

lemma l4fs_pwrite_dispatch:
  assumes "fh_ok fh" and "off_ok x" and "n \<le> Max_rw_buffer_size"
  shows "l4fs_pwrite (dispatch h) fh n x s =
    map_option (\<lambda>(r, o'). (reply_code r, unat (word_of_int r :: u32), s\<lparr>obj := o'\<rparr>))
      (h_pwrite h fh n x (obj s))"
  using assms size_ok_rw [OF assms(3)]
  by (cases "h_pwrite h fh n x (obj s)")
    (auto simp: l4fs_pwrite_def dispatch_def fh_ok_def off_ok_def sint_word_of_int_i32 split: bind_splits)

lemma unat_word_of_int_size: "n \<le> Max_rw_buffer_size \<Longrightarrow> unat (word_of_int (int n) :: u32) = n"
  using unat_of_nat_size [OF size_ok_rw, of n] by simp

context posix_env
begin

lemma srv_pread_file:
  assumes "fs_inv s" and "contents (fs s) fh = Some d" and "0 \<le> x" and "n \<le> Max_rw_buffer_size"
    and "bs = take n (drop (nat x) d)"
  shows "\<exists>s'. srv_pread P fh n x s = Some (int (length bs), s') \<and> fs_inv s' \<and>
    contents (fs s') = contents (fs s) \<and> mread (rw_buf s') 0 (length bs) = Some bs"
proof -
  from pread_file [OF assms(2,3), of n] obtain f' where
    f': "p_pread P fh n x (fs s) = (int (length bs), bs, f')" "contents f' = contents (fs s)"
    unfolding assms(5) by blast
  have "0 + length bs \<le> msize (rw_buf s)" using assms by (simp add: fs_inv_def)
  then obtain rb where rb: "mwrite (rw_buf s) 0 bs = Some rb"
    using mwrite_total by blast
  with f' assms(1) mread_mwrite_same [OF rb] show ?thesis
    by (auto simp: srv_pread_def fs_inv_def mwrite_msize)
qed

lemma srv_pwrite_file:
  assumes "fs_inv s" and "contents (fs s) fh = Some d" and "0 \<le> x"
    and "mread (rw_buf s) 0 (length bs) = Some bs"
  shows "\<exists>r s'. srv_pwrite P fh (length bs) x s = Some (r, s') \<and> fs_inv s' \<and>
    (r = -1 \<and> contents (fs s') = contents (fs s) \<or>
     0 \<le> r \<and> nat r \<le> length bs \<and> contents (fs s') fh = Some (overwrite d (nat x) (take (nat r) bs)))"
proof -
  obtain r f' where f': "p_pwrite P fh bs x (fs s) = (r, f')" by fastforce
  with pwrite_file [OF assms(2,3) f'] assms show ?thesis
    by (auto simp: srv_pwrite_def)
qed

end

sublocale posix_env \<subseteq> remote: l4fs_remote "fs_link P" fs_ok "\<lambda>w. contents (fs (obj w))"
proof unfold_locales
  fix w fh d x n and bs :: "byte list"
  assume a: "fs_ok w" "contents (fs (obj w)) fh = Some d" "fh_ok fh" "0 \<le> x" "off_ok x"
    "n \<le> Max_rw_buffer_size" and bs: "bs = take n (drop (nat x) d)"
  then obtain s' where "srv_pread P fh n x (obj w) = Some (int (length bs), s')"
    "fs_inv s'" "contents (fs s') = contents (fs (obj w))" "mread (rw_buf s') 0 (length bs) = Some bs"
    using srv_pread_file [of "obj w" fh d x n bs] by (auto simp: fs_ok_def)
  moreover have "length bs \<le> Max_rw_buffer_size" using a(6) by (simp add: bs)
  note unat_word_of_int_size [OF this]
  ultimately show "\<exists>w'. l4fs_pread (lcall (fs_link P)) fh n x w = Some (0, length bs, w') \<and> fs_ok w' \<and>
      contents (fs (obj w')) = contents (fs (obj w)) \<and>
      mread (lrw (fs_link P) w') 0 (length bs) = Some bs"
    using a by (auto simp: l4fs_pread_dispatch reply_code_def fs_ok_def)
next
  fix w fh d x and bs :: "byte list"
  assume a: "fs_ok w" "contents (fs (obj w)) fh = Some d" "fh_ok fh" "0 \<le> x" "off_ok x"
    "length bs \<le> Max_rw_buffer_size" "mread (lrw (fs_link P) w) 0 (length bs) = Some bs"
  then obtain r s' where s': "srv_pwrite P fh (length bs) x (obj w) = Some (r, s')" "fs_inv s'"
    "r = -1 \<and> contents (fs s') = contents (fs (obj w)) \<or>
     0 \<le> r \<and> nat r \<le> length bs \<and> contents (fs s') fh = Some (overwrite d (nat x) (take (nat r) bs))"
    using srv_pwrite_file [of "obj w" fh d x bs] by (auto simp: fs_ok_def)
  have "0 \<le> r \<Longrightarrow> unat (word_of_int r :: u32) = nat r"
    using s'(3) a(6) unat_word_of_int_size [of "nat r"] by auto
  with a s' show "\<exists>r k w'. l4fs_pwrite (lcall (fs_link P)) fh (length bs) x w = Some (r, k, w') \<and>
      fs_ok w' \<and>
      (r < 0 \<and> contents (fs (obj w')) = contents (fs (obj w)) \<or>
       r = 0 \<and> k \<le> length bs \<and>
       contents (fs (obj w')) fh = Some (overwrite d (nat x) (take k bs)))"
    by (auto simp: l4fs_pwrite_dispatch reply_code_def fs_ok_def)
qed (auto simp: fs_ok_def fs_inv_def svr_wf_def)


text \<open>The facts the properties rest on, over the model of server and client.\<close>

context posix_env
begin

lemmas fs_answers = srv.dispatch_answers
lemmas fs_preadv = remote.preadv_slices
lemmas fs_pwritev = remote.pwritev_prefix
lemmas fs_write_read = remote.write_read
lemmas fs_put = remote.put
lemmas fs_pwrite_step = remote.pwrite

end

text \<open>One call over the link, for the operations that do not move data.\<close>

lemma l4fs_rename_dispatch:
  assumes "svr_wf s" and "name_ok n"
  shows "l4fs_rename (dispatch h) n s =
    map_option (\<lambda>(r, o'). (r, (named (C_rename n) s)\<lparr>obj := o'\<rparr>)) (h_rename h n (obj s))"
  using stub_dispatch [OF assms(1), of "C_rename n" h] assms(2)
  by (cases "h_rename h n (obj s)"; cases "l4fs_rename (dispatch h) n s") auto

lemma l4fs_close_dispatch:
  assumes "fh_ok fh"
  shows "l4fs_close (dispatch h) fh s = map_option (\<lambda>(r, o'). (r, s\<lparr>obj := o'\<rparr>)) (h_close h fh (obj s))"
  using assms by (cases "h_close h fh (obj s)") (auto simp: l4fs_close_def dispatch_def fh_ok_def sint_word_of_int_i32)

lemma l4fs_open_dispatch:
  assumes "svr_wf s" and "name_ok n"
  shows "l4fs_open (dispatch h) n fl m s =
    map_option (\<lambda>(r, m', o'). (i32 r, m', (named (C_open n fl m) s)\<lparr>obj := o'\<rparr>)) (h_open h n fl m (obj s))"
  using stub_dispatch [OF assms(1), of "C_open n fl m" h] assms(2)
  by (cases "h_open h n fl m (obj s)"; cases "l4fs_open (dispatch h) n fl m s") auto

lemma l4fs_dataspace_dispatch:
  assumes "fh_ok fh"
  shows "l4fs_dataspace (dispatch h) fh s =
    map_option (\<lambda>(c, r, o'). (r, c, s\<lparr>obj := o'\<rparr>)) (h_dataspace h fh (obj s))"
  using assms by (cases "h_dataspace h fh (obj s)")
    (auto simp: l4fs_dataspace_def dispatch_def fh_ok_def sint_word_of_int_i32)

text \<open>A name stored by a client is the C string the server finds in the shared buffer.\<close>

lemma rw_store_cstr:
  assumes "fs_ok w" and "name_ok d"
  shows "\<exists>rb. rw_store (fs_link P) (d @ [NUL]) w = Some (w\<lparr>obj := (obj w)\<lparr>rw_buf := rb\<rparr>\<rparr>) \<and>
    msize rb = Max_rw_buffer_size \<and> cstr_from rb 0 = Some d"
proof -
  have "length (d @ [NUL]) \<le> msize (rw_buf (obj w))"
    using assms by (simp add: fs_ok_def fs_inv_def name_ok_def Max_rw_buffer_size_val)
  then obtain rb where rb: "strcpy (rw_buf (obj w)) 0 d = Some rb"
    using mwrite_total [of 0 "d @ [NUL]" "rw_buf (obj w)"] by (auto simp: strcpy_def)
  with assms cstr_from_strcpy_same [OF rb] show ?thesis
    by (auto simp: rw_store_def strcpy_def fs_ok_def fs_inv_def name_ok_def mwrite_msize)
qed

lemma fd_rename_fs:
  assumes w: "fs_ok w" and names: "name_ok from1" "name_ok to1"
  shows "\<exists>w'. fd_rename (fs_link P) from1 to1 w =
      Some (fst (p_rename P (tmpDir @ from1) (tmpDir @ to1) (fs (obj w))), w') \<and> fs_ok w' \<and>
    fs (obj w') = snd (p_rename P (tmpDir @ from1) (tmpDir @ to1) (fs (obj w)))"
proof -
  obtain rb where rb: "rw_store (fs_link P) (to1 @ [NUL]) w = Some (w\<lparr>obj := (obj w)\<lparr>rw_buf := rb\<rparr>\<rparr>)"
    "msize rb = Max_rw_buffer_size" "cstr_from rb 0 = Some to1"
    using rw_store_cstr [OF w names(2)] by blast
  define s where "s = (obj w)\<lparr>rw_buf := rb\<rparr>"
  have inv: "fs_inv s" using w rb(2) by (simp add: s_def fs_ok_def fs_inv_rw_buf_update)
  have fits: "length tmpDir + length to1 < PATH_LEN"
    using names(2) by (simp add: name_ok_def tmpDir_def PATH_LEN_def)
  obtain ap where ap: "fs_inv (s\<lparr>actualPath := ap\<rparr>)"
    "srv_rename P from1 s = Some (fst (p_rename P (tmpDir @ from1) (tmpDir @ to1) (fs s)),
        s\<lparr>actualPath := ap, fs := snd (p_rename P (tmpDir @ from1) (tmpDir @ to1) (fs s))\<rparr>)"
    using srv_rename_path [OF inv names(1) _ fits, of P] rb(3) by (auto simp: s_def)
  have wf: "svr_wf (w\<lparr>obj := s\<rparr>)" using w by (simp add: fs_ok_def)
  note ren = l4fs_rename_dispatch [OF wf names(1), of "fs_srv_handlers P"]
  have "svr_wf (named (C_rename from1) (w\<lparr>obj := s\<rparr>))" using named_wf [OF wf] by blast
  with rb(1) ap ren names(2) show ?thesis
    by (auto simp: fd_rename_def name_ok_not_too_long fs_ok_def s_def [symmetric]) (auto simp: s_def)
qed

text \<open>The calls of a client that uses one file, with the result of the POSIX call behind each.\<close>

lemma fh_ok_nonneg: "0 \<le> fh \<Longrightarrow> fh < 2 ^ 31 \<Longrightarrow> fh_ok fh"
  by (simp add: fh_ok_def i32_id)

lemma fd_get_entry_fs:
  assumes "fs_ok w" and "name_ok n"
    and "p_open P (tmpDir @ n) (if n = [] then flags OR O_DIRECTORY else flags) mode (fs (obj w)) = (r, f')"
  shows "\<exists>w'. fd_get_entry (fs_link P) True n flags mode w =
      Some (if i32 r < 0 then (i32 r, None, w')
        else (0, Some (if S_ISDIR mode then L4fs_dir else L4fs_file, \<lparr>fo_fh = i32 r, fo_pos = 0\<rparr>), w')) \<and>
    fs_ok w' \<and> fs (obj w') = f'"
proof -
  let ?fl = "if n = [] then flags OR O_DIRECTORY else flags"
  have wf: "svr_wf w" and inv: "fs_inv (obj w)" using assms(1) by (simp_all add: fs_ok_def)
  obtain ap where ap: "srv_open P n ?fl mode (obj w) = Some (r, mode, (obj w)\<lparr>actualPath := ap, fs := f'\<rparr>)"
    "fs_inv ((obj w)\<lparr>actualPath := ap\<rparr>)"
    using srv_open_path [OF inv assms(2), of P ?fl mode] assms(3) by auto
  have "svr_wf (named (C_open n ?fl mode) w)" using named_wf [OF wf] by blast
  with ap show ?thesis
    by (auto simp: fd_get_entry_def l4fs_open_dispatch [OF wf assms(2)] Let_def fs_ok_def)
qed

lemma fs_mount_fs:
  assumes "fs_ok w" and "name_ok n" and "p_open P (tmpDir @ n) O_DIRECTORY 0 (fs (obj w)) = (fd, f')"
    and "0 \<le> fd" and "fd < 2 ^ 31"
  shows "\<exists>w'. fs_mount (fs_link P) 0 0 0 True n w = Some (0, Some \<lparr>fo_fh = fd, fo_pos = 0\<rparr>, w') \<and>
    fs_ok w' \<and> fs (obj w') = f'"
proof -
  have wf: "svr_wf w" and inv: "fs_inv (obj w)" using assms(1) by (simp_all add: fs_ok_def)
  have new: "Svr_new (fs_link P) 0 0 0 w = Some (Inr (), w)"
    using inv by (simp add: Svr_new_def l4fs_init_def dispatch_def srv_init_def fs_inv_def)
  obtain ap where ap: "srv_open P n O_DIRECTORY 0 (obj w) = Some (fd, 0, (obj w)\<lparr>actualPath := ap, fs := f'\<rparr>)"
    "fs_inv ((obj w)\<lparr>actualPath := ap\<rparr>)"
    using srv_open_path [OF inv assms(2), of P O_DIRECTORY 0] assms(3) by auto
  have "svr_wf (named (C_open n O_DIRECTORY 0) w)" using named_wf [OF wf] by blast
  moreover have "i32 fd = fd" using fh_ok_nonneg [OF assms(4,5)] by (simp add: fh_ok_def)
  ultimately show ?thesis
    using ap new assms(4) by (simp add: fs_mount_def l4fs_open_dispatch [OF wf assms(2)] fs_ok_def)
qed

lemma fb_close_fs:
  assumes "fs_ok w" and "0 \<le> fo_fh f" and "fo_fh f < 2 ^ 31"
    and "p_close P (fo_fh f) (fs (obj w)) = (r, f')"
  shows "\<exists>w'. fb_close (fs_link P) f w = Some (r, f\<lparr>fo_fh := -1\<rparr>, w') \<and> fs_ok w' \<and> fs (obj w') = f'"
  using assms fh_ok_nonneg [OF assms(2,3)]
  by (auto simp: fb_close_def l4fs_close_dispatch srv_close_def fs_ok_def)

lemma ff_preadv_fs:
  assumes w: "fs_ok w" and fh: "0 \<le> fo_fh f" "fo_fh f < 2 ^ 31" and x: "0 \<le> x" "x + int (length bs) < 2 ^ 63"
    and n: "n \<le> Max_rw_buffer_size" "length bs \<le> n"
    and p: "p_pread P (fo_fh f) n x (fs (obj w)) = (int (length bs), bs, f')"
  shows "\<exists>b w'. ff_preadv (fs_link P) f [mzero n] x w = Some (int (length bs), [b], w') \<and>
    mread b 0 (length bs) = Some bs \<and> fs_ok w' \<and> fs (obj w') = f'"
proof -
  have sz: "msize (rw_buf (obj w)) = Max_rw_buffer_size" using w by (simp add: fs_ok_def fs_inv_def)
  have "0 + length bs \<le> msize (rw_buf (obj w))" using sz n by simp
  then obtain rb where rb: "mwrite (rw_buf (obj w)) 0 bs = Some rb" using mwrite_total by blast
  define w1 where "w1 = w\<lparr>obj := (obj w)\<lparr>rw_buf := rb, fs := f'\<rparr>\<rparr>"
  have w1: "fs_ok w1" "fs (obj w1) = f'" "mread (rw_buf (obj w1)) 0 (length bs) = Some bs"
    using w rb mread_mwrite_same [OF rb] sz by (simp_all add: w1_def fs_ok_def fs_inv_def mwrite_msize)
  have off: "off_ok x" using x by (intro off_ok_nonneg) auto
  have "length bs \<le> Max_rw_buffer_size" using n by simp
  note u = unat_word_of_int_size [OF this]
  have call: "l4fs_pread (dispatch (fs_srv_handlers P)) (fo_fh f) n x w = Some (0, length bs, w1)"
    using rb p u by (simp add: l4fs_pread_dispatch [OF fh_ok_nonneg [OF fh] off n(1)] srv_pread_def
        reply_code_def w1_def)
  have "0 + length bs \<le> msize (mzero n)" using n by (simp add: mzero_def)
  then obtain b where b: "mwrite (mzero n) 0 bs = Some b" using mwrite_total by blast
  have m: "msize (mzero n) = n" by (simp add: mzero_def)
  have i: "i32 (int (length bs)) = int (length bs)"
    using n by (intro i32_id) (auto simp: Max_rw_buffer_size_val)
  have o: "off64 (x + int (length bs)) = Some (x + int (length bs))" using x by (intro off64_id) auto
  show ?thesis
  proof (cases "bs = []")
    case True
    with call w1 i o m show ?thesis by (simp add: ff_preadv_def mread_def)
  next
    case False
    with call w1 i o m b mread_mwrite_same [OF b] show ?thesis
      by (simp add: ff_preadv_def rw_load_def)
  qed
qed

lemma ff_pwritev_fs:
  assumes w: "fs_ok w" and fh: "0 \<le> fo_fh f" "fo_fh f < 2 ^ 31" and x: "0 \<le> x" "x + int (length bs) < 2 ^ 63"
    and n: "length bs \<le> Max_rw_buffer_size"
    and p: "p_pwrite P (fo_fh f) bs x (fs (obj w)) = (int (length bs), f')"
  shows "\<exists>w'. ff_pwritev (fs_link P) f [bs] x w = Some (int (length bs), w') \<and> fs_ok w' \<and>
    fs (obj w') = f'"
proof -
  have sz: "msize (rw_buf (obj w)) = Max_rw_buffer_size" using w by (simp add: fs_ok_def fs_inv_def)
  have "0 + length bs \<le> msize (rw_buf (obj w))" using sz n by simp
  then obtain rb where rb: "mwrite (rw_buf (obj w)) 0 bs = Some rb" using mwrite_total by blast
  have off: "off_ok x" using x by (intro off_ok_nonneg) auto
  have "i32 (int (length bs)) = int (length bs)"
    using n by (intro i32_id) (auto simp: Max_rw_buffer_size_val)
  moreover have "off64 (x + int (length bs)) = Some (x + int (length bs))" using x by (intro off64_id) auto
  ultimately show ?thesis using w rb p n sz unat_word_of_int_size [OF n] mread_mwrite_same [OF rb]
    by (simp add: ff_pwritev_def rw_store_def l4fs_pwrite_dispatch [OF fh_ok_nonneg [OF fh] off n]
        srv_pwrite_def reply_code_def fs_ok_def fs_inv_def mwrite_msize)
qed

end
