(* ===== verification/Ref_Posix.thy ===== *)
theory Ref_Posix
  imports Fs_Srv
begin

text \<open>
  An executable instance of the parameter \<open>P\<close> of the file server: files in memory, addressed by
  path, and a table of open files. It satisfies the laws of \<open>posix_env\<close>, which shows that they
  can hold, and concrete runs of the server and of its clients are evaluated on it.
\<close>

record ref_fs =
  rfiles :: "(byte list \<times> byte list) list"
  rdirs :: "byte list list"
  rfds :: "(int \<times> byte list \<times> u32) list"  \<comment> \<open>descriptor, path, flags\<close>

definition ref_empty :: ref_fs where
  "ref_empty = \<lparr>rfiles = [], rdirs = [], rfds = []\<rparr>"

text \<open>Directories are those made, and the root of the mounted file system; new files go there.\<close>

definition ref_is_dir :: "byte list \<Rightarrow> ref_fs \<Rightarrow> bool" where
  "ref_is_dir path f \<longleftrightarrow> path = tmpDir \<or> path = tmpDir @ ''/'' \<or> path \<in> set (rdirs f)"

definition ref_lookup :: "ref_fs \<Rightarrow> byte list \<Rightarrow> byte list option" where
  "ref_lookup f path = (if ref_is_dir path f then None else map_of (rfiles f) path)"

definition ref_opened :: "ref_fs \<Rightarrow> int \<Rightarrow> (byte list \<times> u32) option" where
  "ref_opened f = map_of (rfds f)"

definition ref_contents :: "ref_fs \<Rightarrow> int \<Rightarrow> byte list option" where
  "ref_contents f fd = Option.bind (ref_opened f fd) (\<lambda>(p, _). ref_lookup f p)"

definition ref_room :: "ref_fs \<Rightarrow> int" where
  "ref_room f = 1000 - int (length (rfds f))"

definition drop_key :: "'k \<Rightarrow> ('k \<times> 'v) list \<Rightarrow> ('k \<times> 'v) list" where
  "drop_key k xs = filter (\<lambda>(k', _). k' \<noteq> k) xs"

definition ref_creatable :: "ref_fs \<Rightarrow> byte list \<Rightarrow> bool" where
  "ref_creatable f path \<longleftrightarrow> ref_lookup f path = None \<and> \<not> ref_is_dir path f \<and>
     take (length tmpDir) path = tmpDir \<and> CHR ''/'' \<notin> set (drop (length tmpDir) path)"

text \<open>A free descriptor.\<close>

definition fd_free :: "int list \<Rightarrow> int" where
  "fd_free ks = hd (filter (\<lambda>n. n \<notin> set ks) (map int [3..<4 + length ks]))"

definition ref_open :: "byte list \<Rightarrow> u32 \<Rightarrow> u32 \<Rightarrow> ref_fs \<Rightarrow> int \<times> ref_fs" where
  "ref_open path flags mode f =
     (let fd = fd_free (map fst (rfds f)); opened = f\<lparr>rfds := (fd, path, flags) # rfds f\<rparr> in
      if ref_room f \<le> 0 then (-1, f)
      else if ref_is_dir path f then (if flags AND (O_RDWR OR O_CREAT) = 0 then (fd, opened) else (-1, f))
      else if flags AND O_DIRECTORY \<noteq> 0 then (-1, f)
      else if ref_lookup f path \<noteq> None then
        (if flags AND O_CREAT \<noteq> 0 \<and> flags AND O_EXCL \<noteq> 0 then (-1, f)
         else if flags AND O_TRUNC \<noteq> 0
         then (fd, opened\<lparr>rfiles := (path, []) # drop_key path (rfiles f)\<rparr>)
         else (fd, opened))
      else if flags AND O_CREAT \<noteq> 0 \<and> ref_creatable f path
      then (fd, opened\<lparr>rfiles := (path, []) # rfiles f\<rparr>)
      else (-1, f))"

definition ref_mkdir :: "byte list \<Rightarrow> u32 \<Rightarrow> ref_fs \<Rightarrow> int \<times> ref_fs" where
  "ref_mkdir path mode f = (if ref_is_dir path f \<or> ref_lookup f path \<noteq> None then (-1, f) else (0, f\<lparr>rdirs := path # rdirs f\<rparr>))"

definition ref_rename :: "byte list \<Rightarrow> byte list \<Rightarrow> ref_fs \<Rightarrow> int \<times> ref_fs" where
  "ref_rename old new f =
     (case map_of (rfiles f) old of
        None \<Rightarrow> (-1, f)
      | Some d \<Rightarrow> (0, f\<lparr>rfiles := (new, d) # drop_key new (drop_key old (rfiles f))\<rparr>))"

definition ref_unlink :: "byte list \<Rightarrow> ref_fs \<Rightarrow> int \<times> ref_fs" where
  "ref_unlink path f =
     (if map_of (rfiles f) path = None then (-1, f) else (0, f\<lparr>rfiles := drop_key path (rfiles f)\<rparr>))"

definition ref_rmdir :: "byte list \<Rightarrow> ref_fs \<Rightarrow> int \<times> ref_fs" where
  "ref_rmdir path f =
     (if path \<in> set (rdirs f) then (0, f\<lparr>rdirs := filter (\<lambda>p. p \<noteq> path) (rdirs f)\<rparr>) else (-1, f))"

definition ref_close :: "int \<Rightarrow> ref_fs \<Rightarrow> int \<times> ref_fs" where
  "ref_close fd f =
     (if map_of (rfds f) fd = None then (-1, f) else (0, f\<lparr>rfds := drop_key fd (rfds f)\<rparr>))"

definition ref_pread :: "int \<Rightarrow> nat \<Rightarrow> int \<Rightarrow> ref_fs \<Rightarrow> int \<times> byte list \<times> ref_fs" where
  "ref_pread fd n x f =
     (case ref_contents f fd of
        None \<Rightarrow> (-1, [], f)
      | Some d \<Rightarrow> if x < 0 then (-1, [], f)
          else (let bs = take n (drop (nat x) d) in (int (length bs), bs, f)))"

definition ref_pwrite :: "int \<Rightarrow> byte list \<Rightarrow> int \<Rightarrow> ref_fs \<Rightarrow> int \<times> ref_fs" where
  "ref_pwrite fd bs x f =
     (case ref_opened f fd of
        None \<Rightarrow> (-1, f)
      | Some (p, flags) \<Rightarrow>
          (case ref_lookup f p of
             None \<Rightarrow> (-1, f)
           | Some d \<Rightarrow>
               if x < 0 \<or> flags AND 3 = O_RDONLY then (-1, f)
               else (int (length bs), f\<lparr>rfiles := (p, overwrite d (nat x) bs) # drop_key p (rfiles f)\<rparr>)))"

definition ref_fstat :: "int \<Rightarrow> ref_fs \<Rightarrow> int \<times> stat64 option \<times> ref_fs" where
  "ref_fstat fd f =
     (case ref_contents f fd of
        None \<Rightarrow> (-1, None, f)
      | Some d \<Rightarrow> (0, Some \<lparr>st_mode = 0x8000, st_size = of_nat (length d)\<rparr>, f))"

text \<open>Memory comes in pages, and there is always some.\<close>

definition ref_ds_alloc :: "nat \<Rightarrow> ref_fs \<Rightarrow> nat option \<times> ref_fs" where
  "ref_ds_alloc n f = (Some ((n + (L4_PAGESIZE - 1)) div L4_PAGESIZE * L4_PAGESIZE), f)"

definition ref_posix :: "ref_fs posix" where
  "ref_posix =
     \<lparr>p_open = ref_open, p_mkdir = ref_mkdir, p_rename = ref_rename, p_unlink = ref_unlink,
      p_rmdir = ref_rmdir, p_close = ref_close, p_pread = ref_pread, p_pwrite = ref_pwrite,
      p_fstat = ref_fstat, p_ds_alloc = ref_ds_alloc, p_ds_attach = (\<lambda>m f. (m \<noteq> None, f))\<rparr>"

lemma map_of_drop_key: "map_of (drop_key k xs) = (map_of xs)(k := None)"
  by (induction xs) (auto simp: drop_key_def fun_eq_iff)

lemma fd_free: "fd_free ks \<notin> set ks \<and> 3 \<le> fd_free ks \<and> fd_free ks \<le> 3 + int (length ks)"
proof -
  let ?c = "map int [3..<4 + length ks]"
  have "\<not> set ?c \<subseteq> set ks"
  proof
    assume "set ?c \<subseteq> set ks"
    then have "card (set ?c) \<le> card (set ks)" by (intro card_mono) simp_all
    moreover have "card (set ?c) = length ks + 1" by (simp add: card_image)
    ultimately show False using card_length [of ks] by simp
  qed
  then have "filter (\<lambda>n. n \<notin> set ks) ?c \<noteq> []" by (auto simp: filter_empty_conv)
  then have "fd_free ks \<in> set (filter (\<lambda>n. n \<notin> set ks) ?c)"
    unfolding fd_free_def by (rule hd_in_set)
  then show ?thesis by auto
qed

lemma ref_is_dir_update [simp]:
  "ref_is_dir p (f\<lparr>rfds := x\<rparr>) = ref_is_dir p f" "ref_is_dir p (f\<lparr>rfiles := y\<rparr>) = ref_is_dir p f"
  by (simp_all add: ref_is_dir_def)

lemma ref_lookup_update [simp]:
  "ref_lookup (f\<lparr>rfds := x\<rparr>) = ref_lookup f"
  "\<not> ref_is_dir p f \<Longrightarrow> ref_lookup (f\<lparr>rfiles := (p, d) # rfiles f\<rparr>) = (ref_lookup f)(p \<mapsto> d)"
  "\<not> ref_is_dir p f \<Longrightarrow>
    ref_lookup (f\<lparr>rfiles := (p, d) # drop_key p (rfiles f)\<rparr>) = (ref_lookup f)(p \<mapsto> d)"
  "\<not> ref_is_dir p f \<Longrightarrow> ref_lookup (f\<lparr>rfds := x, rfiles := (p, d) # rfiles f\<rparr>) = (ref_lookup f)(p \<mapsto> d)"
  "\<not> ref_is_dir p f \<Longrightarrow>
    ref_lookup (f\<lparr>rfds := x, rfiles := (p, d) # drop_key p (rfiles f)\<rparr>) = (ref_lookup f)(p \<mapsto> d)"
  by (auto simp: ref_lookup_def fun_eq_iff map_of_drop_key)

lemma ref_lookup_no_dir: "ref_lookup f p = Some d \<Longrightarrow> \<not> ref_is_dir p f"
  by (auto simp: ref_lookup_def)

lemma ref_room_room [simp]: "ref_room (f\<lparr>rfiles := y\<rparr>) = ref_room f"
  by (simp add: ref_room_def)

lemma ref_opened_files [simp]: "ref_opened (f\<lparr>rfiles := y\<rparr>) = ref_opened f"
  by (simp add: ref_opened_def)

lemma ref_pwrite_cases:
  assumes "ref_contents f fd = Some d" and "0 \<le> x" and "ref_pwrite fd bs x f = (r, f')"
  shows "(r = -1 \<and> f' = f) \<or>
    (r = int (length bs) \<and> ref_contents f' fd = Some (overwrite d (nat x) bs))"
  using assms by (auto simp: ref_pwrite_def ref_contents_def bind_eq_Some_conv ref_lookup_no_dir
      split: if_splits)

lemma page_round_ge: "n \<le> (n + 4095) div 4096 * (4096 :: nat)"
  using div_mult_mod_eq [of "n + 4095" 4096] mod_less_divisor [of 4096 "n + 4095"] by linarith

interpretation ref: posix_env ref_posix ref_contents
proof unfold_locales
  fix f fd and x :: int and d :: "byte list" and n
  assume "ref_contents f fd = Some d" "0 \<le> x"
  then show "\<exists>k f'. p_pread ref_posix fd n x f =
      (int (length (take k (drop (nat x) d))), take k (drop (nat x) d), f') \<and>
      k \<le> n \<and> (0 < n \<longrightarrow> nat x < length d \<longrightarrow> 0 < k) \<and> ref_contents f' = ref_contents f"
    by (intro exI [of _ n] exI [of _ f]) (simp add: ref_posix_def ref_pread_def Let_def)
next
  fix n m and f f' :: ref_fs
  assume "p_ds_alloc ref_posix n f = (m, f')"
  then show "ref_contents f' = ref_contents f \<and> (\<forall>k. m = Some k \<longrightarrow> n \<le> k)"
    using page_round_ge [of n] by (auto simp: ref_posix_def ref_ds_alloc_def)
next
  fix f fd d x bs r f'
  assume "ref_contents f fd = Some d" "0 \<le> x" "p_pwrite ref_posix fd bs x f = (r, f')"
  from ref_pwrite_cases [OF this(1,2)] this(3)
  show "(r = -1 \<and> ref_contents f' = ref_contents f) \<or>
      (0 \<le> r \<and> nat r \<le> length bs \<and> ref_contents f' fd = Some (overwrite d (nat x) (take (nat r) bs)))"
    by (fastforce simp: ref_posix_def)
next
  fix f :: ref_fs and fd and d :: "byte list"
  assume "ref_contents f fd = Some d" "length d < 2 ^ 63"
  then show "\<exists>st f'. p_fstat ref_posix fd f = (0, Some st, f') \<and> uint (st_size st) = int (length d) \<and>
      ref_contents f' = ref_contents f"
    by (simp add: ref_posix_def ref_fstat_def unsigned_of_nat take_bit_nat_eq_self)
qed (auto simp: ref_posix_def ref_pread_def Let_def split: option.splits if_splits)

text \<open>The laws about names. Descriptors stay distinct keys of the table of open files.\<close>

lemma ref_contents_paths: "ref_contents = (\<lambda>f fd. Option.bind (ref_opened f fd) (\<lambda>(p, fl). ref_lookup f p))"
  by (simp add: fun_eq_iff ref_contents_def)

lemma fd_free_unused: "map_of xs (fd_free (map fst xs)) = None"
  using fd_free [of "map fst xs"] by (simp add: map_of_eq_None_iff)

lemma fd_free_bounds: "length xs < 1000 \<Longrightarrow> 0 \<le> fd_free (map fst xs) \<and> fd_free (map fst xs) < 2147483648"
  using fd_free [of "map fst xs"] by simp

lemma length_drop_key: "map_of xs k = Some v \<Longrightarrow> length (drop_key k xs) < length xs"
  by (induction xs) (auto simp: drop_key_def less_Suc_eq_le)

lemma map_of_Cons_drop_key: "map_of ((k, v) # drop_key k xs) = (map_of xs)(k \<mapsto> v)"
  by (simp add: map_of_drop_key)

lemma tmp_not_creatable: "\<not> ref_creatable f tmpDir" "\<not> ref_creatable f (tmpDir @ ''/'')"
  by (auto simp: ref_creatable_def ref_is_dir_def)

lemma writable_access: "(fl :: u32) AND O_RDWR \<noteq> 0 \<Longrightarrow> fl AND 3 \<noteq> O_RDONLY"
proof
  assume "fl AND O_RDWR \<noteq> 0" "fl AND 3 = O_RDONLY"
  moreover have "fl AND O_RDWR = (fl AND 3) AND O_RDWR" by (simp add: O_RDWR_def and.assoc)
  ultimately show False by (simp add: O_RDONLY_def)
qed

text \<open>What a successful \<open>open\<close> does to the table.\<close>

lemma ref_new_fd:
  assumes "0 < ref_room f"
  shows "0 \<le> fd_free (map fst (rfds f))" "fd_free (map fst (rfds f)) < 2147483648"
    "ref_opened f (fd_free (map fst (rfds f))) = None"
    "ref_opened (f\<lparr>rfds := (fd_free (map fst (rfds f)), e) # rfds f\<rparr>) =
      (ref_opened f)(fd_free (map fst (rfds f)) \<mapsto> e)"
    "ref_room (f\<lparr>rfds := (fd_free (map fst (rfds f)), e) # rfds f\<rparr>) = ref_room f - 1"
  using assms fd_free_bounds [of "rfds f"] by (auto simp: ref_room_def ref_opened_def fd_free_unused)

interpretation ref_paths: posix_paths ref_posix ref_lookup ref_opened ref_creatable ref_room
proof (intro posix_paths.intro posix_paths_axioms.intro)
  show "posix_env ref_posix (\<lambda>f fd. Option.bind (ref_opened f fd) (\<lambda>(p, fl). ref_lookup f p))"
    using ref.posix_env_axioms unfolding ref_contents_paths .
next
  fix f :: ref_fs and p d and fl m :: u32
  assume room: "0 < ref_room f" and p: "ref_lookup f p = Some d"
    and fl: "fl AND O_DIRECTORY = 0" "fl AND O_CREAT = 0 \<or> fl AND O_EXCL = 0"
  note new = ref_new_fd [OF room]
  show "\<exists>fd f'. p_open ref_posix p fl m f = (fd, f') \<and> 0 \<le> fd \<and> fd < 2 ^ 31 \<and> ref_opened f fd = None \<and>
      ref_opened f' = (ref_opened f)(fd \<mapsto> (p, fl)) \<and> ref_room f' = ref_room f - 1 \<and>
      ref_lookup f' = (if fl AND O_TRUNC = 0 then ref_lookup f else (ref_lookup f)(p \<mapsto> []))"
    using room p fl new ref_lookup_no_dir [OF p] by (auto simp: ref_posix_def ref_open_def Let_def)
next
  fix f :: ref_fs and p and fl m :: u32
  assume room: "0 < ref_room f" and p: "ref_creatable f p"
    and fl: "fl AND O_DIRECTORY = 0" "fl AND O_CREAT \<noteq> 0"
  note new = ref_new_fd [OF room]
  show "\<exists>fd f'. p_open ref_posix p fl m f = (fd, f') \<and> 0 \<le> fd \<and> fd < 2 ^ 31 \<and> ref_opened f fd = None \<and>
      ref_opened f' = (ref_opened f)(fd \<mapsto> (p, fl)) \<and> ref_room f' = ref_room f - 1 \<and>
      ref_lookup f' = (ref_lookup f)(p \<mapsto> [])"
    using room p fl new by (auto simp: ref_posix_def ref_open_def Let_def ref_creatable_def)
next
  fix f :: ref_fs assume room: "0 < ref_room f"
  note new = ref_new_fd [OF room]
  have "O_DIRECTORY AND (O_RDWR OR O_CREAT) = 0" by (simp add: open_flags)
  with new show "\<exists>fd f'. p_open ref_posix (tmpDir @ ''/'') O_DIRECTORY 0 f = (fd, f') \<and> 0 \<le> fd \<and> fd < 2 ^ 31 \<and>
      ref_opened f fd = None \<and> ref_opened f' = (ref_opened f)(fd \<mapsto> (tmpDir @ ''/'', O_DIRECTORY)) \<and>
      ref_room f' = ref_room f - 1 \<and> ref_lookup f' = ref_lookup f \<and> ref_creatable f' = ref_creatable f"
    using room by (auto simp: ref_posix_def ref_open_def Let_def ref_is_dir_def ref_creatable_def fun_eq_iff)
next
  fix f :: ref_fs and fd p d and x :: int and bs :: "byte list" and fl :: u32
  assume "ref_opened f fd = Some (p, fl)" "fl AND O_RDWR \<noteq> 0" "ref_lookup f p = Some d" "0 \<le> x"
  then show "\<exists>f'. p_pwrite ref_posix fd bs x f = (int (length bs), f') \<and> ref_opened f' = ref_opened f \<and>
      ref_room f' = ref_room f \<and> ref_lookup f' = (ref_lookup f)(p \<mapsto> overwrite d (nat x) bs)"
    using writable_access ref_lookup_no_dir by (auto simp: ref_posix_def ref_pwrite_def)
qed (auto simp: ref_posix_def ref_open_def ref_close_def ref_pread_def Let_def ref_creatable_def
    ref_opened_def ref_room_def map_of_drop_key
    dest: ref_lookup_no_dir length_drop_key split: option.splits if_splits)

end
