(* ===== verification/Fs_Properties.thy ===== *)
theory Fs_Properties
  imports Libc_Backend Ref_Posix
begin

text \<open>
  The properties of the file system parts: remote calls, the file server, and the file server seen
  through the C library. The file system behind the server is the parameter \<open>P\<close> of \<open>Fs_Srv\<close> with the
  laws of \<open>posix_env\<close>; the witnesses take the executable \<open>ref_posix\<close> for it.
\<close>

section \<open>A concrete world for the witnesses\<close>

text \<open>A server with one file, \<open>/tmp/f\<close>, holding seven bytes and open at handle 3.\<close>

definition demo_fs :: ref_fs where
  "demo_fs = \<lparr>rfiles = [(tmpDir @ ''f'', ''content'')], rdirs = [], rfds = [(3, tmpDir @ ''f'', O_RDWR)]\<rparr>"

definition demo_obj :: "ref_fs fs_srv" where
  "demo_obj = \<lparr>actualPath = \<lparr>msize = PATH_LEN,
      mcell = (\<lambda>i. if i < length tmpDir then tmpDir ! i else NUL)\<rparr>,
    rw_buf_ds = RwBufDs, rw_buf = mzero Max_rw_buffer_size, fs = demo_fs\<rparr>"

definition demo_w :: "ref_fs fs_srv svr" where
  "demo_w = svr_start demo_obj"

lemma demo_ok: "fs_ok demo_w" "fs_inv demo_obj" "svr_wf demo_w" "obj demo_w = demo_obj"
  by (simp_all add: demo_w_def demo_obj_def fs_ok_def fs_inv_def svr_start_def svr_wf_def mzero_def)

lemma demo_contents: "ref_contents (fs demo_obj) 3 = Some ''content''"
  by (simp add: demo_obj_def demo_fs_def ref_contents_def ref_opened_def ref_lookup_def ref_is_dir_def tmpDir_def)

lemma fh_ok_small [simp]: "fh_ok 3"
  by (simp add: fh_ok_def i32_id)

section \<open>Remote calls\<close>

text \<open>C1: a stub of class \<open>L4fs\<close> whose transport is \<open>dispatch\<close> is a call of the virtual method of the
  service object: arguments and results cross the wire unchanged (results as \<open>client_view\<close> says), for
  all nineteen operations, and nothing else of the object changes.\<close>

theorem rpc_transparent:
  assumes "svr_wf s" and "names_ok c" and "args_ok c" and "sizes_ok c"
  shows "stub (dispatch h) c s =
    map_option (\<lambda>(r, o'). (client_view c r, (named c s)\<lparr>obj := o'\<rparr>)) (invoke h c (obj s))"
  by (rule stub_dispatch [OF assms])

lemma rpc_transparent_witness:
  "svr_wf (svr_start ()) \<and> names_ok (C_pread 3 16 0) \<and> args_ok (C_pread 3 16 0) \<and>
   sizes_ok (C_pread 3 16 0) \<and>
   stub (dispatch default_handlers) (C_pread 3 16 0) (svr_start ()) =
     map_option (\<lambda>(r, o'). (client_view (C_pread 3 16 0) r,
         (named (C_pread 3 16 0) (svr_start ()))\<lparr>obj := o'\<rparr>))
       (invoke default_handlers (C_pread 3 16 0) (obj (svr_start ())))"
proof -
  have h: "svr_wf (svr_start ())" "names_ok (C_pread 3 16 0)" "args_ok (C_pread 3 16 0)"
    "sizes_ok (C_pread 3 16 0)"
    by (simp_all add: size_ok_def off_ok_def Max_rw_buffer_size_def)
  from rpc_transparent [OF h, of default_handlers] h show ?thesis by blast
qed

text \<open>A name without a NUL that does not fit the name buffer is refused by the stub with
  \<open>-L4_ENAMETOOLONG\<close>, a transfer larger than the shared buffer with \<open>-L4_ENOMEM\<close>; in both cases
  no message is sent and the world is untouched, whatever the transport does.\<close>

theorem stub_guards:
  "(name_of c = Some n \<longrightarrow> NUL \<notin> set n \<longrightarrow> \<not> name_ok n \<longrightarrow>
      stub T c w = Some (case c of C_open _ _ m \<Rightarrow> S_open (- L4_ENAMETOOLONG) m
        | _ \<Rightarrow> S_int (- L4_ENAMETOOLONG), w)) \<and>
   (\<not> sizes_ok c \<longrightarrow> (\<exists>k. stub T c w = Some (S_size (- L4_ENOMEM) k, w)))"
  using stub_refused [of c n T w] stub_refused_size [of c T w] by (simp add: name_too_long_iff)

lemma stub_guards_witness:
  "name_of (C_unlink (replicate 232 CHR ''a'')) = Some (replicate 232 CHR ''a'') \<and>
   stub (\<lambda>_ _. None) (C_unlink (replicate 232 CHR ''a'')) () = Some (S_int (- L4_ENAMETOOLONG), ())"
  using stub_guards [of "C_unlink (replicate 232 CHR ''a'')" "replicate 232 CHR ''a''" "\<lambda>_ _. None" "()"]
  by (simp add: name_ok_def)

section \<open>The file server\<close>

text \<open>
  The path arguments of the file system calls are observed by a wrapper around \<open>P\<close> that records
  them in front of its state.
\<close>

definition traced :: "'f posix \<Rightarrow> (byte list list \<times> 'f) posix" where
  "traced P =
     \<lparr>p_open = (\<lambda>p fl m (t, f). let (r, f) = p_open P p fl m f in (r, p # t, f)),
      p_mkdir = (\<lambda>p m (t, f). let (r, f) = p_mkdir P p m f in (r, p # t, f)),
      p_rename = (\<lambda>p q (t, f). let (r, f) = p_rename P p q f in (r, p # q # t, f)),
      p_unlink = (\<lambda>p (t, f). let (r, f) = p_unlink P p f in (r, p # t, f)),
      p_rmdir = (\<lambda>p (t, f). let (r, f) = p_rmdir P p f in (r, p # t, f)),
      p_close = (\<lambda>fd (t, f). let (r, f) = p_close P fd f in (r, t, f)),
      p_pread = (\<lambda>fd n x (t, f). let (r, bs, f) = p_pread P fd n x f in (r, bs, t, f)),
      p_pwrite = (\<lambda>fd bs x (t, f). let (r, f) = p_pwrite P fd bs x f in (r, t, f)),
      p_fstat = (\<lambda>fd (t, f). let (r, st, f) = p_fstat P fd f in (r, st, t, f)),
      p_ds_alloc = (\<lambda>n (t, f). let (m, f) = p_ds_alloc P n f in (m, t, f)),
      p_ds_attach = (\<lambda>m (t, f). let (a, f) = p_ds_attach P m f in (a, t, f))\<rparr>"

definition below_tmp :: "byte list \<Rightarrow> bool" where
  "below_tmp p \<longleftrightarrow> (\<exists>n. p = tmpDir @ n \<and> NUL \<notin> set n)"

definition trace_inv :: "(byte list list \<times> 'f) fs_srv \<Rightarrow> bool" where
  "trace_inv s \<longleftrightarrow> fs_inv s \<and> list_all below_tmp (fst (fs s))"

lemma below_tmp_app [simp]: "below_tmp (tmpDir @ n) \<longleftrightarrow> NUL \<notin> set n"
  by (auto simp: below_tmp_def)







lemma trace_fd_calls [simp]:
  "fst (snd (p_close (traced P) fd f)) = fst f"
  "fst (snd (snd (p_pread (traced P) fd k x f))) = fst f"
  "fst (snd (p_pwrite (traced P) fd bs x f)) = fst f"
  "fst (snd (snd (p_fstat (traced P) fd f))) = fst f"
  "fst (snd (p_ds_alloc (traced P) k f)) = fst f"
  "fst (snd (p_ds_attach (traced P) m f)) = fst f"
  by (simp_all add: traced_def case_prod_unfold Let_def)

lemma trace_path_calls [simp]:
  "fst (snd (p_open (traced P) p fl m f)) = p # fst f"
  "fst (snd (p_mkdir (traced P) p m f)) = p # fst f"
  "fst (snd (p_rename (traced P) p q f)) = p # q # fst f"
  "fst (snd (p_unlink (traced P) p f)) = p # fst f"
  "fst (snd (p_rmdir (traced P) p f)) = p # fst f"
  by (simp_all add: traced_def case_prod_unfold Let_def)

lemma traced_srv_step:
  assumes "trace_inv s" and "names_ok c" and i: "invoke (fs_srv_handlers (traced P)) c s = Some (r, s')"
  shows "trace_inv s'"
proof -
  have inv: "fs_inv s" using assms(1) by (simp add: trace_inv_def)
  have "fs_inv s'" by (rule fs_srv_preserves [OF inv assms(2) i])
  moreover have "list_all below_tmp (fst (fs s'))"
  proof (cases "name_of c")
    case None
    have fill: "fst f' = fst f" if "ds_fill (traced P) fh sz rd b f = Some (Some (b', f'))"
      for fh sz rd b f b' f'
      by (rule ds_fill_preserves [OF that, where R = "\<lambda>g. fst g = fst f"]) simp_all
    from None i assms(1) show ?thesis
      by (cases c) (auto simp: fs_srv_handlers_def srv_init_def srv_close_def srv_pread_def
          srv_pwrite_def srv_fstat64_def srv_dataspace_def ds_memory_def Let_def case_prod_unfold trace_inv_def
          dest!: fill split: bind_splits)
  next
    case (Some n)
    then have n: "name_ok n" using assms(2) by (auto dest: names_ok_name_of)
    note paths = srv_open_path [OF inv n] srv_mkdir_path [OF inv n] srv_unlink_path [OF inv n]
      srv_rmdir_path [OF inv n]
    show ?thesis
    proof (cases c)
      case (C_rename n')
      with i Some have "rename_target_ok s"
        using srv_rename_overflow [of s "traced P" n] by (cases "rename_target_ok s") auto
      then obtain d where d: "cstr_from (rw_buf s) 0 = Some d" "length tmpDir + length d < PATH_LEN"
        by (auto simp: rename_target_ok_def split: option.splits)
      from d(1) have "NUL \<notin> set d" by (rule cstr_from_no_NUL)
      with i Some C_rename assms(1) n srv_rename_path [OF inv n d, of "traced P"] show ?thesis
        by (auto simp: trace_inv_def name_ok_def)
    next
      case (C_open n' fl m)
      with i Some assms(1) n srv_open_path [OF inv n, of "traced P" fl m] show ?thesis
        by (auto simp: trace_inv_def name_ok_def)
    next
      case (C_mkdir n' m)
      with i Some assms(1) n srv_mkdir_path [OF inv n, of "traced P" m] show ?thesis
        by (auto simp: trace_inv_def fs_srv_handlers_def name_ok_def)
    next
      case (C_unlink n')
      with i Some assms(1) n srv_unlink_path [OF inv n, of "traced P"] show ?thesis
        by (auto simp: trace_inv_def fs_srv_handlers_def name_ok_def)
    next
      case (C_rmdir n')
      with i Some assms(1) n srv_rmdir_path [OF inv n, of "traced P"] show ?thesis
        by (auto simp: trace_inv_def fs_srv_handlers_def name_ok_def)
    qed (use i Some assms(1) in \<open>auto simp: trace_inv_def fs_srv_handlers_def\<close>)
  qed
  ultimately show ?thesis by (simp add: trace_inv_def)
qed

interpretation traced: l4fs_object "fs_srv_handlers (traced P)" trace_inv
    "\<lambda>c s. invoke (fs_srv_handlers (traced P)) c s \<noteq> None" for P
  by unfold_locales (auto intro: traced_srv_step)







text \<open>C9: over a file system that keeps the POSIX contract, the server answers every well formed request
  whose transfer fits the shared buffer (for \<open>rename\<close>: whose new name fits the path buffer; for \<open>dataspace\<close>: whose
  handle is an open file smaller than 2 GiB, if memory is granted) with the result of the method, and keeps its
  invariant.\<close>

theorem requests_answered:
  assumes "posix_env P contents" and "svr_wf s" and "fs_inv (obj s)"
    and "names_ok c" and "args_ok c" and "fs_pre contents P c (obj s)"
  shows "\<exists>r o'. invoke (fs_srv_handlers P) c (obj s) = Some (r, o') \<and> fs_inv o' \<and>
    dispatch (fs_srv_handlers P) (marshal c) s =
      Some (fst (answer c r), snd (answer c r), (named c s)\<lparr>obj := o'\<rparr>)"
  by (rule posix_env.fs_answers [OF assms])

lemma requests_answered_witness:
  "\<exists>r o'. invoke (fs_srv_handlers ref_posix) (C_dataspace 3) demo_obj = Some (r, o') \<and> fs_inv o'"
proof -
  have h: "args_ok (C_dataspace 3)" "fs_pre ref_contents ref_posix (C_dataspace 3) (obj demo_w)"
    "names_ok (C_dataspace 3)"
    by (simp_all add: demo_ok demo_contents ds_granted_def ds_memory_def ref_posix_def ref_ds_alloc_def)
  from requests_answered [OF ref.posix_env_axioms demo_ok(3) _ h(3,1,2)] demo_ok(2,4) show ?thesis
    by auto
qed

text \<open>C10: the copy loop of \<open>dataspace\<close>, over reads that may return fewer bytes than asked for (but at least one
  before the end of the file), ends for every open file smaller than 2 GiB. The C library hands its caller a
  dataspace that holds the bytes of the file, each at its offset, and zeros up to the end of the last page; the
  file stays unchanged. Slot, memory and attachment are not checked: when there is none, a file that is
  not empty is stored through a pointer that has not been set.\<close>

theorem dataspace_copies_file:
  assumes "posix_reads P contents" and "fs_ok w" and "fh_ok (fo_fh f)"
    and "contents (fs (obj w)) (fo_fh f) = Some d" and "length d < 2 ^ 31"
    and "ds_memory P (length d) (snd (snd (p_fstat P (fo_fh f) (fs (obj w))))) = (m, att, f2)"
  shows "(att \<longrightarrow> (\<exists>k f'. m = Some k \<and> length d \<le> k \<and>
      ff_data_space (fs_link P) True f w =
        Some (FileDs (d @ replicate (k - length d) NUL), w\<lparr>obj := (obj w)\<lparr>fs := f'\<rparr>\<rparr>) \<and>
      contents f' = contents (fs (obj w)))) \<and>
    (\<not> att \<longrightarrow> d \<noteq> [] \<longrightarrow> ff_data_space (fs_link P) True f w = None)"
proof (intro conjI impI)
  note ds = posix_reads.srv_dataspace_file [OF assms(1,4,5,6)]
  note call = ff_data_space_def l4fs_dataspace_dispatch [OF assms(3)]
  assume att
  from ds(1) [OF this] obtain k f' where "m = Some k" "length d \<le> k" "contents f' = contents (fs (obj w))"
    "srv_dataspace P (fo_fh f) (obj w) = Some (FileDs (d @ replicate (k - length d) NUL), 0, (obj w)\<lparr>fs := f'\<rparr>)"
    by blast
  then show "\<exists>k f'. m = Some k \<and> length d \<le> k \<and>
      ff_data_space (fs_link P) True f w =
        Some (FileDs (d @ replicate (k - length d) NUL), w\<lparr>obj := (obj w)\<lparr>fs := f'\<rparr>\<rparr>) \<and>
      contents f' = contents (fs (obj w))"
    by (intro exI [of _ k] exI [of _ f']) (simp add: call)
next
  note ds = posix_reads.srv_dataspace_file [OF assms(1,4,5,6)]
  assume "\<not> att" "d \<noteq> []"
  from ds(2) [OF this] show "ff_data_space (fs_link P) True f w = None"
    by (simp add: ff_data_space_def l4fs_dataspace_dispatch [OF assms(3)])
qed

text \<open>Reads that deliver three bytes at most.\<close>

definition short_posix :: "ref_fs posix" where
  "short_posix = ref_posix\<lparr>p_pread := (\<lambda>fd n. ref_pread fd (min n 3))\<rparr>"

lemma short_posix_reads: "posix_reads short_posix ref_contents"
proof unfold_locales
  fix f fd and x :: int and d :: "byte list" and n
  assume "ref_contents f fd = Some d" "0 \<le> x"
  then show "\<exists>k f'. p_pread short_posix fd n x f =
      (int (length (take k (drop (nat x) d))), take k (drop (nat x) d), f') \<and>
      k \<le> n \<and> (0 < n \<longrightarrow> nat x < length d \<longrightarrow> 0 < k) \<and> ref_contents f' = ref_contents f"
    by (intro exI [of _ "min n 3"] exI [of _ f]) (simp add: short_posix_def ref_pread_def Let_def)
next
  fix fd n x f r bs f'
  assume "p_pread short_posix fd n x f = (r, bs, f')"
  then show "length bs \<le> n"
    by (auto simp: short_posix_def ref_pread_def Let_def split: option.splits if_splits)
next
  fix f fd d
  assume "ref_contents f fd = Some d" "length d < 2 ^ 63"
  from ref.fstat_file [OF this] show "\<exists>st f'. p_fstat short_posix fd f = (0, Some st, f') \<and>
      uint (st_size st) = int (length d) \<and> ref_contents f' = ref_contents f"
    by (simp add: short_posix_def)
next
  fix n m and f f' :: ref_fs
  assume "p_ds_alloc short_posix n f = (m, f')"
  then have "p_ds_alloc ref_posix n f = (m, f')" by (simp add: short_posix_def)
  then show "ref_contents f' = ref_contents f \<and> (\<forall>k. m = Some k \<longrightarrow> n \<le> k)" by (rule ref.ds_alloc)
next
  fix m att and f f' :: ref_fs
  assume "p_ds_attach short_posix m f = (att, f')"
  then have "p_ds_attach ref_posix m f = (att, f')" by (simp add: short_posix_def)
  then show "ref_contents f' = ref_contents f \<and> (att \<longrightarrow> m \<noteq> None)" by (rule ref.ds_attach)
qed

lemma dataspace_copies_file_witness:
  "\<exists>f'. ff_data_space (fs_link short_posix) True \<lparr>fo_fh = 3, fo_pos = 0\<rparr> demo_w =
    Some (FileDs (''content'' @ replicate 4089 NUL), demo_w\<lparr>obj := (obj demo_w)\<lparr>fs := f'\<rparr>\<rparr>)"
proof -
  have c: "ref_contents (fs (obj demo_w)) (fo_fh \<lparr>fo_fh = 3, fo_pos = 0\<rparr>) = Some ''content''"
    by (simp add: demo_ok demo_contents)
  define g where "g = snd (snd (p_fstat short_posix 3 (fs (obj demo_w))))"
  have m: "ds_memory short_posix (length ''content'') (snd (snd (p_fstat short_posix (fo_fh \<lparr>fo_fh = 3, fo_pos = 0\<rparr>)
      (fs (obj demo_w))))) = (Some 4096, True, g)"
    by (simp add: ds_memory_def short_posix_def ref_posix_def ref_ds_alloc_def g_def)
  from dataspace_copies_file [OF short_posix_reads demo_ok(1) _ c _ m] show ?thesis by auto
qed

text \<open>The loop has no other exit than having counted the size of the file: if \<open>pread64\<close> delivers
  nothing (the file has become shorter since \<open>fstat\<close>), it never ends, for every non-empty size.\<close>

theorem dataspace_loop_diverges:
  assumes "0 < sz" and "\<And>fh n x f. p_pread P fh n x f = (0, [], f)"
  shows "ds_fill P fh sz 0 b f = None"
proof (rule ccontr)
  assume "ds_fill P fh sz 0 b f \<noteq> None"
  then obtain out where out: "ds_fill P fh sz 0 b f = Some out" by auto
  define Q :: "((((('a posix \<times> int) \<times> u32) \<times> u32) \<times> membuf) \<times> 'a) \<Rightarrow> (membuf \<times> 'a) option \<Rightarrow> bool"
    where "Q = (\<lambda>(((((Q, fh), s'), rd), b), f) out. Q = P \<longrightarrow> s' = sz \<longrightarrow> rd \<noteq> 0)"
  from out have "Q (((((P, fh), sz), 0), b), f) out"
    by (rule ds_fill.raw_induct [rotated])
      ((use assms in \<open>auto simp: Q_def mwrite_def split: if_splits\<close>), blast)
  then show False by (simp add: Q_def)
qed

definition eof_posix :: "unit posix" where
  "eof_posix = \<lparr>p_open = (\<lambda>_ _ _ f. (3, f)), p_mkdir = (\<lambda>_ _ f. (0, f)), p_rename = (\<lambda>_ _ f. (0, f)),
     p_unlink = (\<lambda>_ f. (0, f)), p_rmdir = (\<lambda>_ f. (0, f)), p_close = (\<lambda>_ f. (0, f)),
     p_pread = (\<lambda>_ _ _ f. (0, [], f)), p_pwrite = (\<lambda>_ _ _ f. (0, f)),
     p_fstat = (\<lambda>_ f. (0, Some \<lparr>st_mode = 0x8000, st_size = 8\<rparr>, f)),
     p_ds_alloc = (\<lambda>n f. (Some n, f)), p_ds_attach = (\<lambda>_ f. (True, f))\<rparr>"

lemma dataspace_loop_diverges_witness: "ds_fill eof_posix 3 8 0 (mzero 8) () = None"
  by (rule dataspace_loop_diverges) (simp_all add: eof_posix_def)


text \<open>Without the POSIX bound the transfer sizes are not checked by the server: a request for more
  than the shared buffer that the file system can serve (a read of that many bytes, any write) leaves
  the buffer; requests within the buffer never do.\<close>

theorem transfer_bounds:
  assumes "fs_inv s"
  shows "(srv_pwrite P fh n x s = None \<longleftrightarrow> Max_rw_buffer_size < n) \<and>
    (p_pread P fh n x (fs s) = (r, bs, f) \<longrightarrow>
      (srv_pread P fh n x s = None \<longleftrightarrow> Max_rw_buffer_size < length bs))"
  using assms by (auto simp: srv_pwrite_def srv_pread_def fs_inv_def case_prod_unfold
      bind_eq_None_conv Let_def)

lemma transfer_bounds_witness:
  "srv_pwrite ref_posix 3 1048577 0 demo_obj = None \<and> srv_pwrite ref_posix 3 7 0 demo_obj \<noteq> None"
  using transfer_bounds [OF demo_ok(2), of ref_posix 3 1048577 0]
    transfer_bounds [OF demo_ok(2), of ref_posix 3 7 0]
  by (simp add: Max_rw_buffer_size_val)

section \<open>The file server seen through the C library\<close>

text \<open>C3: \<open>preadv\<close> on an open file returns the number of bytes of the file from \<open>p\<close> on that fit the
  buffers, and the buffers hold these bytes one after the other; nothing else of them changes, and the
  files are unchanged.\<close>

theorem preadv_reads_file:
  assumes "posix_env P contents" and "fs_ok w" and "contents (fs (obj w)) (fo_fh f) = Some d"
    and "fh_ok (fo_fh f)" and "iov_ok (map msize iov) p"
  shows "\<exists>S iov' w'. ff_preadv (fs_link P) f iov p w =
      Some (int (length (take (sum_list (map msize iov)) (drop (nat p) d))), iov', w') \<and>
    concat S = take (sum_list (map msize iov)) (drop (nat p) d) \<and>
    length S = length iov \<and> length iov' = length iov \<and>
    (\<forall>i < length iov. received (iov ! i) (S ! i) (iov' ! i)) \<and>
    contents (fs (obj w')) = contents (fs (obj w)) \<and> fs_ok w'"
  using posix_env.fs_preadv [OF assms refl] concat_slices [of "map msize iov" "nat p" d]
  by (metis length_map length_slices)

lemma preadv_reads_file_witness:
  "\<exists>iov' w'. ff_preadv (fs_link ref_posix) \<lparr>fo_fh = 3, fo_pos = 0\<rparr> [mzero 2, mzero 9] 3 demo_w =
    Some (4, iov', w')"
proof -
  have c: "ref_contents (fs (obj demo_w)) (fo_fh \<lparr>fo_fh = 3, fo_pos = 0\<rparr>) = Some ''content''"
    by (simp add: demo_ok demo_contents)
  have "iov_ok (map msize [mzero 2, mzero 9]) 3"
    by (simp add: iov_ok_def mzero_def Max_rw_buffer_size_val)
  from preadv_reads_file [OF ref.posix_env_axioms demo_ok(1) c _ this] show ?thesis
    by (auto simp: mzero_def)
qed

text \<open>C4: after \<open>pwritev\<close> the file holds a prefix of the data at \<open>p\<close> and is unchanged elsewhere; if
  the result is not negative, it is the length of that prefix.\<close>

theorem pwritev_writes_prefix:
  assumes "posix_env P contents" and "fs_ok w" and "contents (fs (obj w)) (fo_fh f) = Some d"
    and "fh_ok (fo_fh f)" and "iov_ok (map length iov) p"
  shows "\<exists>r w' k. ff_pwritev (fs_link P) f iov p w = Some (r, w') \<and> fs_ok w' \<and>
    k \<le> length (concat iov) \<and> (r < 0 \<or> r = int k) \<and>
    contents (fs (obj w')) (fo_fh f) = Some (overwrite d (nat p) (take k (concat iov)))"
  by (rule posix_env.fs_pwritev [OF assms])

lemma pwritev_writes_prefix_witness:
  "\<exists>r w' k. ff_pwritev (fs_link ref_posix) \<lparr>fo_fh = 3, fo_pos = 0\<rparr> [''ab'', ''cd''] 1 demo_w = Some (r, w') \<and>
    fs_ok w' \<and> k \<le> length (concat [''ab'', ''cd'']) \<and> (r < 0 \<or> r = int k) \<and>
    ref_contents (fs (obj w')) (fo_fh \<lparr>fo_fh = 3, fo_pos = 0\<rparr>) =
      Some (overwrite ''content'' (nat 1) (take k (concat [''ab'', ''cd''])))"
proof -
  have c: "ref_contents (fs (obj demo_w)) (fo_fh \<lparr>fo_fh = 3, fo_pos = 0\<rparr>) = Some ''content''"
    by (simp add: demo_ok demo_contents)
  have "fh_ok (fo_fh \<lparr>fo_fh = 3, fo_pos = 0\<rparr>)" "iov_ok (map length [''ab'', ''cd'']) 1"
    by (simp_all add: iov_ok_def Max_rw_buffer_size_val)
  from pwritev_writes_prefix [OF ref.posix_env_axioms demo_ok(1) c this] show ?thesis .
qed

text \<open>C5: what a complete \<open>pwritev\<close> has stored is what \<open>preadv\<close> at the same place returns, however
  the two cut the data into buffers.\<close>

theorem pwritev_preadv_roundtrip:
  assumes "posix_env P contents" and "fs_ok w" and "contents (fs (obj w)) (fo_fh f) = Some d"
    and "fh_ok (fo_fh f)" and "iov_ok (map length src) p"
    and "ff_pwritev (fs_link P) f src p w = Some (int (length (concat src)), w')"
    and "iov_ok (map msize dst) p" and "sum_list (map msize dst) = length (concat src)"
  shows "\<exists>dst' w'' S. ff_preadv (fs_link P) f dst p w' = Some (int (length (concat src)), dst', w'') \<and>
    concat S = concat src \<and> length S = length dst \<and> length dst' = length dst \<and>
    (\<forall>i < length dst. received (dst ! i) (S ! i) (dst' ! i))"
  by (rule posix_env.fs_write_read [OF assms])

lemma ref_pwritev_one:
  "\<exists>w'. ff_pwritev (fs_link ref_posix) \<lparr>fo_fh = 3, fo_pos = 0\<rparr> [''ab''] 1 demo_w = Some (2, w')"
proof -
  have sz: "0 + length ''ab'' \<le> msize (rw_buf demo_obj)"
    by (simp add: demo_obj_def mzero_def Max_rw_buffer_size_val)
  obtain b where b: "mwrite (rw_buf demo_obj) 0 ''ab'' = Some b" using mwrite_total [OF sz] by blast
  have m: "mread b 0 2 = Some ''ab''" using mread_mwrite_same [OF b] by (simp add: numeral_2_eq_2)
  have p: "\<exists>f'. p_pwrite ref_posix 3 ''ab'' 1 demo_fs = (2, f')"
    by (simp add: ref_posix_def ref_pwrite_def demo_fs_def tmpDir_def ref_opened_def ref_lookup_def ref_is_dir_def open_flags)
  have [simp]: "off_ok 1" by (simp add: off_ok_def)
  have [simp]: "fs demo_obj = demo_fs" by (simp add: demo_obj_def)
  from m p m [unfolded numeral_2_eq_2] show ?thesis
    by (auto simp: ff_pwritev_def rw_store_def demo_ok b l4fs_pwrite_dispatch Max_rw_buffer_size_val
        srv_pwrite_def reply_code_def i32_id off64_id)
qed

lemma pwritev_preadv_roundtrip_witness:
  "\<exists>w' dst' w'' S. ff_pwritev (fs_link ref_posix) \<lparr>fo_fh = 3, fo_pos = 0\<rparr> [''ab''] 1 demo_w = Some (2, w') \<and>
    ff_preadv (fs_link ref_posix) \<lparr>fo_fh = 3, fo_pos = 0\<rparr> [mzero 1, mzero 1] 1 w' = Some (2, dst', w'') \<and>
    concat S = ''ab'' \<and> length dst' = 2"
proof -
  have c: "ref_contents (fs (obj demo_w)) (fo_fh \<lparr>fo_fh = 3, fo_pos = 0\<rparr>) = Some ''content''"
    by (simp add: demo_ok demo_contents)
  have h: "fh_ok (fo_fh \<lparr>fo_fh = 3, fo_pos = 0\<rparr>)" "iov_ok (map length [''ab'']) 1"
    "iov_ok (map msize [mzero 1, mzero 1]) 1"
    "sum_list (map msize [mzero 1, mzero 1]) = length (concat [''ab''])"
    by (simp_all add: iov_ok_def mzero_def Max_rw_buffer_size_val)
  obtain w' where w': "ff_pwritev (fs_link ref_posix) \<lparr>fo_fh = 3, fo_pos = 0\<rparr> [''ab''] 1 demo_w =
      Some (int (length (concat [''ab''])), w')"
    using ref_pwritev_one by auto
  from pwritev_preadv_roundtrip [OF ref.posix_env_axioms demo_ok(1) c h(1,2) w' h(3,4)] w'
  show ?thesis by (auto simp: numeral_2_eq_2)
qed


text \<open>C11: \<open>rename\<close> of the C library, with the new name passed through the shared buffer and both names
  translated by the server, is \<open>rename\<close> of the two names below \<open>/tmp/\<close> on the mounted file system,
  with its result, for all names that fit the name buffer.\<close>

theorem rename_end_to_end:
  assumes "fs_ok w" and "name_ok from1" and "name_ok to1"
  shows "\<exists>w'. fd_rename (fs_link P) from1 to1 w =
      Some (fst (p_rename P (tmpDir @ from1) (tmpDir @ to1) (fs (obj w))), w') \<and> fs_ok w' \<and>
    fs (obj w') = snd (p_rename P (tmpDir @ from1) (tmpDir @ to1) (fs (obj w)))"
  by (rule fd_rename_fs [OF assms])

lemma rename_end_to_end_witness:
  "\<exists>w'. fd_rename (fs_link ref_posix) ''f'' ''g'' demo_w = Some (0, w') \<and>
    rfiles (fs (obj w')) = [(tmpDir @ ''g'', ''content'')]"
proof -
  have n: "name_ok ''f''" "name_ok ''g''" by (simp_all add: name_ok_def)
  have r: "p_rename ref_posix (tmpDir @ ''f'') (tmpDir @ ''g'') demo_fs =
      (0, demo_fs\<lparr>rfiles := [(tmpDir @ ''g'', ''content'')]\<rparr>)"
    by (simp add: ref_posix_def ref_rename_def demo_fs_def drop_key_def)
  have "fs (obj demo_w) = demo_fs" by (simp add: demo_ok demo_obj_def)
  with rename_end_to_end [OF demo_ok(1) n, of ref_posix] r show ?thesis by auto
qed

text \<open>C19: a write through the shared buffer is two steps, the store and the call. When the first client's call
  follows its store, the file holds its bytes. When a second client stores its own data of the same length in
  between, the first client's call reports the same complete success, and its file holds the second client's bytes, which
  is not what it would have been.\<close>

lemma l4fs_pwrite_complete:
  assumes "posix_env P contents" and "fs_ok w" and "contents (fs (obj w)) fh = Some d"
    and "fh_ok fh" and "0 \<le> x" and "off_ok x" and "length bs \<le> Max_rw_buffer_size"
    and "mread (rw_buf (obj w)) 0 (length bs) = Some bs" and "fst (p_pwrite P fh bs x (fs (obj w))) = int (length bs)"
  shows "\<exists>v. l4fs_pwrite (lcall (fs_link P)) fh (length bs) x w = Some (0, length bs, v) \<and>
    contents (fs (obj v)) fh = Some (overwrite d (nat x) bs)"
proof -
  obtain f' where f': "p_pwrite P fh bs x (fs (obj w)) = (int (length bs), f')"
    using assms(9) by (cases "p_pwrite P fh bs x (fs (obj w))") simp
  then have "contents f' fh = Some (overwrite d (nat x) bs)"
    using posix_env.pwrite_file [OF assms(1,3,5) f'] by auto
  with f' assms(4,6,7,8) show ?thesis
    using unat_word_of_int_size [OF assms(7)] by (simp add: l4fs_pwrite_dispatch srv_pwrite_def reply_code_def)
qed

theorem shared_buffer_race:
  assumes "posix_env P contents" and "fs_ok w" and "contents (fs (obj w)) fh = Some d"
    and "fh_ok fh" and "0 \<le> x" and "off_ok x"
    and "length a = length b" and "length b \<le> Max_rw_buffer_size" and "a \<noteq> b"
    and "\<forall>bs \<in> {a, b}. fst (p_pwrite P fh bs x (fs (obj w))) = int (length bs)"
    and "rw_store (fs_link P) a w = Some w1" and "rw_store (fs_link P) b w1 = Some w2"
  shows "(\<exists>v. l4fs_pwrite (lcall (fs_link P)) fh (length a) x w1 = Some (0, length a, v) \<and>
      contents (fs (obj v)) fh = Some (overwrite d (nat x) a)) \<and>
    (\<exists>v. l4fs_pwrite (lcall (fs_link P)) fh (length a) x w2 = Some (0, length a, v) \<and>
      contents (fs (obj v)) fh = Some (overwrite d (nat x) b)) \<and>
    overwrite d (nat x) a \<noteq> overwrite d (nat x) b"
proof -
  have sz: "msize (rw_buf (obj w)) = Max_rw_buffer_size" using assms(2) by (simp add: fs_ok_def fs_inv_def)
  obtain b1 where b1: "mwrite (rw_buf (obj w)) 0 a = Some b1" "w1 = lput (fs_link P) b1 w"
    using assms(11) by (auto simp: rw_store_def)
  then have w1: "fs_ok w1" "fs (obj w1) = fs (obj w)"
    using posix_env.fs_put [OF assms(1,2), of b1] sz by (auto simp: mwrite_msize)
  then have sz1: "msize (rw_buf (obj w1)) = Max_rw_buffer_size" by (simp add: fs_ok_def fs_inv_def)
  moreover obtain b2 where b2: "mwrite (rw_buf (obj w1)) 0 b = Some b2" "w2 = lput (fs_link P) b2 w1"
    using assms(12) by (auto simp: rw_store_def)
  ultimately have w2: "fs_ok w2" "fs (obj w2) = fs (obj w)"
    using posix_env.fs_put [OF assms(1) w1(1), of b2] w1(2) by (auto simp: mwrite_msize)
  have r: "mread (rw_buf (obj w1)) 0 (length a) = Some a" "mread (rw_buf (obj w2)) 0 (length b) = Some b"
    using mread_mwrite_same [OF b1(1)] mread_mwrite_same [OF b2(1)] b1(2) b2(2) by simp_all
  have c: "contents (fs (obj w1)) fh = Some d" "contents (fs (obj w2)) fh = Some d"
    "fst (p_pwrite P fh a x (fs (obj w1))) = int (length a)" "fst (p_pwrite P fh b x (fs (obj w2))) = int (length b)"
    using assms(3,10) w1(2) w2(2) by simp_all
  have la: "length a \<le> Max_rw_buffer_size" using assms(7,8) by simp
  note p = l4fs_pwrite_complete [OF assms(1) w1(1) c(1) assms(4-6) la r(1) c(3)]
    l4fs_pwrite_complete [OF assms(1) w2(1) c(2) assms(4-6,8) r(2) c(4), folded assms(7)]
  have "overwrite d (nat x) a \<noteq> overwrite d (nat x) b"
  proof
    assume "overwrite d (nat x) a = overwrite d (nat x) b"
    from arg_cong [OF this, of "\<lambda>y. take (length a) (drop (nat x) y)"] assms(7,9) show False
      by (metis take_drop_overwrite)
  qed
  with p show ?thesis by blast
qed

lemma shared_buffer_race_witness:
  "\<exists>w1 w2 v. rw_store (fs_link ref_posix) ''AAAA'' demo_w = Some w1 \<and>
    rw_store (fs_link ref_posix) ''BBBB'' w1 = Some w2 \<and>
    l4fs_pwrite (lcall (fs_link ref_posix)) 3 4 0 w2 = Some (0, 4, v) \<and>
    ref_contents (fs (obj v)) 3 = Some ''BBBBent''"
proof -
  have c: "ref_contents (fs (obj demo_w)) 3 = Some ''content''" by (simp add: demo_ok demo_contents)
  have "\<exists>w1. rw_store (fs_link ref_posix) ''AAAA'' demo_w = Some w1 \<and>
      msize (rw_buf (obj w1)) = Max_rw_buffer_size"
    using mwrite_total [of 0 "''AAAA''" "rw_buf demo_obj"]
    by (auto simp: rw_store_def demo_ok Max_rw_buffer_size_val demo_obj_def mzero_def mwrite_msize)
  then obtain w1 where w1: "rw_store (fs_link ref_posix) ''AAAA'' demo_w = Some w1"
    "msize (rw_buf (obj w1)) = Max_rw_buffer_size" by blast
  then have "0 + length ''BBBB'' \<le> msize (rw_buf (obj w1))" by (simp add: Max_rw_buffer_size_val)
  then obtain w2 where w2: "rw_store (fs_link ref_posix) ''BBBB'' w1 = Some w2"
    using mwrite_total by (fastforce simp: rw_store_def)
  have h: "(0 :: int) \<le> 0" "off_ok 0" "length ''AAAA'' = length ''BBBB''"
    "length ''BBBB'' \<le> Max_rw_buffer_size" "''AAAA'' \<noteq> ''BBBB''"
    by (simp_all add: off_ok_def Max_rw_buffer_size_val)
  have full: "\<forall>bs \<in> {''AAAA'', ''BBBB''}. fst (p_pwrite ref_posix 3 bs 0 (fs (obj demo_w))) = int (length bs)"
    by (simp add: demo_ok demo_obj_def demo_fs_def ref_posix_def ref_pwrite_def ref_opened_def ref_lookup_def
        ref_is_dir_def tmpDir_def open_flags)
  have l4: "length ''AAAA'' = 4" and o: "overwrite ''content'' (nat 0) ''BBBB'' = ''BBBBent''"
    by (simp_all add: overwrite_def)
  from shared_buffer_race [OF ref.posix_env_axioms demo_ok(1) c fh_ok_small h full w1(1) w2, unfolded l4 o]
    w1(1) w2
  show ?thesis by blast
qed

text \<open>\<open>close\<close> of a file object releases the handle of the server exactly once: the first call is the
  remote call and forgets the handle; every later one, the destructor's included, is answered with
  \<open>-EBADF\<close> and sends nothing.\<close>

theorem close_once:
  assumes "fb_close L f w = Some (r, f', w')"
  shows "fb_close L f' w'' = Some (- EBADF, f', w'') \<and>
    (if 0 \<le> fo_fh f then l4fs_close (lcall L) (fo_fh f) w = Some (r, w') else w' = w)"
  using assms by (auto simp: fb_close_def split: bind_splits if_splits)

lemma close_once_witness:
  "\<exists>r f' w'. fb_close (fs_link ref_posix) \<lparr>fo_fh = 3, fo_pos = 0\<rparr> demo_w = Some (r, f', w') \<and>
    fb_close (fs_link ref_posix) f' w' = Some (- 9, f', w')"
proof -
  obtain r f' w' where c: "fb_close (fs_link ref_posix) \<lparr>fo_fh = 3, fo_pos = 0\<rparr> demo_w = Some (r, f', w')"
    by (simp add: fb_close_def l4fs_close_dispatch srv_close_def case_prod_unfold Let_def)
  with close_once [OF c, of w'] show ?thesis by auto
qed

text \<open>The kind of the object \<open>get_entry\<close> creates is decided by the mode its caller passed, not by what
  the name denotes on the server: the server's \<open>open\<close> leaves the mode as it was. The handle is the
  one the file system returned for the name below \<open>/tmp/\<close>, and an error (always -1, whatever went
  wrong) creates nothing.\<close>

theorem get_entry_by_mode:
  assumes "fs_ok w" and "name_ok n"
    and "p_open P (tmpDir @ n) (if n = [] then flags OR O_DIRECTORY else flags) mode (fs (obj w)) = (r, f')"
  shows "\<exists>w'. fd_get_entry (fs_link P) True n flags mode w =
      Some (if i32 r < 0 then (i32 r, None, w')
        else (0, Some (if S_ISDIR mode then L4fs_dir else L4fs_file, \<lparr>fo_fh = i32 r, fo_pos = 0\<rparr>), w')) \<and>
    fs (obj w') = f'"
proof -
  let ?fl = "if n = [] then flags OR O_DIRECTORY else flags"
  have wf: "svr_wf w" and inv: "fs_inv (obj w)" using assms(1) by (simp_all add: fs_ok_def)
  obtain ap where "srv_open P n ?fl mode (obj w) = Some (r, mode, (obj w)\<lparr>actualPath := ap, fs := f'\<rparr>)"
    using srv_open_path [OF inv assms(2), of P ?fl mode] assms(3) by auto
  then show ?thesis
    by (auto simp: fd_get_entry_def l4fs_open_dispatch [OF wf assms(2)] Let_def)
qed

lemma get_entry_by_mode_witness:
  "\<exists>w'. fd_get_entry (fs_link ref_posix) True ''f'' 0 0 demo_w =
    Some (0, Some (L4fs_file, \<lparr>fo_fh = 4, fo_pos = 0\<rparr>), w')"
proof -
  have n: "name_ok ''f''" by (simp add: name_ok_def)
  have o: "\<exists>f'. p_open ref_posix (tmpDir @ ''f'') (if ''f'' = [] then 0 OR O_DIRECTORY else 0) 0
      (fs (obj demo_w)) = (4, f')"
    by (simp add: demo_ok demo_obj_def demo_fs_def ref_posix_def ref_open_def ref_room_def ref_is_dir_def
        ref_lookup_def fd_free_def tmpDir_def open_flags)
  have k: "\<not> S_ISDIR 0" by (simp add: S_ISDIR_def)
  have i: "i32 4 = 4" by (simp add: i32_id)
  from o get_entry_by_mode [OF demo_ok(1) n, of ref_posix 0 0] show ?thesis
    by (fastforce simp: k i)
qed

end
