(* ===== verification/Fs_Tests.thy ===== *)
theory Fs_Tests
  imports Prelude
begin

text \<open>
  The two test programs of the file server (fstest/server/src/main.cc, fstest2/server/src/main.cc),
  which the configuration starts side by side.

  A program is the list of its parts between two calls of \<open>sleep\<close>; a part is a function on the
  state of the process and of the world. The calls of the C library are the parameter \<open>C\<close>. A part
  has no result (\<open>None\<close>) if it does not end, or if a call of the library has none. Of what the
  programs print, the contents of files are kept. What stands behind the \<open>return 0\<close> in the first
  program is never executed; it is the subject of theory \<open>Fs_Listing\<close>.
\<close>

section \<open>The C library\<close>

record 'w clib =
  c_mount :: "byte list \<Rightarrow> byte list \<Rightarrow> byte list \<Rightarrow> 'w \<Rightarrow> (int \<times> 'w) option"
  c_open :: "byte list \<Rightarrow> u32 \<Rightarrow> u32 \<Rightarrow> 'w \<Rightarrow> (int \<times> 'w) option"
  c_close :: "int \<Rightarrow> 'w \<Rightarrow> (int \<times> 'w) option"
  c_read :: "int \<Rightarrow> nat \<Rightarrow> 'w \<Rightarrow> (int \<times> byte list \<times> 'w) option"
    \<comment> \<open>result, bytes stored into the buffer, new state\<close>
  c_write :: "int \<Rightarrow> byte list \<Rightarrow> 'w \<Rightarrow> (int \<times> 'w) option"
  c_errno :: "'w \<Rightarrow> int"

section \<open>Processes\<close>

datatype test_exit = Exit int | Assertion_failed

text \<open>The variables \<open>fd\<close> and \<open>rbuf\<close> of \<open>main\<close>, what has been printed, and how the process has ended.\<close>

record tproc =
  tp_fd :: int
  tp_rbuf :: membuf
  tp_out :: "byte list"
  tp_exit :: "test_exit option"

type_synonym 'w part = "tproc \<Rightarrow> 'w \<Rightarrow> (tproc \<times> 'w) option"

definition tproc0 :: "(nat \<Rightarrow> byte) \<Rightarrow> tproc" where
  "tproc0 junk = \<lparr>tp_fd = 0, tp_rbuf = \<lparr>msize = 256, mcell = junk\<rparr>, tp_out = [], tp_exit = None\<rparr>"

abbreviation stop :: "test_exit \<Rightarrow> tproc \<Rightarrow> tproc" where
  "stop e p \<equiv> p\<lparr>tp_exit := Some e\<rparr>"

fun run_parts :: "'w part list \<Rightarrow> 'w part" where
  "run_parts [] p w = Some (p, w)"
| "run_parts (f # fs) p w =
     (if tp_exit p \<noteq> None then Some (p, w) else do { (p, w) \<leftarrow> f p w; run_parts fs p w })"

section \<open>Shared pieces\<close>

definition mytestfile :: "byte list" where "mytestfile = ''/hellofs/mytestfile''"

definition S_IRWXU :: u32 where "S_IRWXU = 0x1C0"

definition newline :: "byte list" where "newline = [CHR 0x0A]"

text \<open>\<open>mount\<close> and what follows it, up to the message that it is done.\<close>

definition do_mount :: "'w clib \<Rightarrow> 'w part" where
  "do_mount C p w = do {
     (res, w) \<leftarrow> c_mount C ''/'' ''hellofs'' ''l4fs'' w;
     Some (if res \<noteq> 0 then stop (Exit 1) p
           else if c_errno C w \<noteq> 0 then stop Assertion_failed p else p, w)
   }"

text \<open>\<open>create_file\<close>: -1 is not the value the test behind \<open>open\<close> looks for.\<close>

definition create_file :: "'w clib \<Rightarrow> byte list \<Rightarrow> 'w \<Rightarrow> (int \<times> 'w) option" where
  "create_file C filename w = do {
     (fd, w) \<leftarrow> c_open C filename (O_RDWR OR O_CREAT OR O_EXCL) S_IRWXU w;
     if fd = 0 then Some (1, w) else c_close C fd w
   }"

text \<open>The \<open>while\<close> loop that prints a file: \<open>rbuf\<close> is terminated at its end only.\<close>

partial_function (option) print_file :: "'w clib \<Rightarrow> tproc \<Rightarrow> 'w \<Rightarrow> (tproc \<times> 'w) option" where
  "print_file C p w = do {
     (r, bs, w) \<leftarrow> c_read C (tp_fd p) 255 w;
     rbuf \<leftarrow> mwrite (tp_rbuf p) 0 bs;
     if r > 0 then do {
       rbuf \<leftarrow> mwrite rbuf 255 [NUL];
       str \<leftarrow> cstr_from rbuf 0;
       print_file C (p\<lparr>tp_rbuf := rbuf, tp_out := tp_out p @ str\<rparr>) w
     }
     else Some (p\<lparr>tp_rbuf := rbuf\<rparr>, w)
   }"

text \<open>Open, print, close, and the assertion.\<close>

definition show_file :: "'w clib \<Rightarrow> u32 \<Rightarrow> 'w part" where
  "show_file C flags p w = do {
     (fd, w) \<leftarrow> c_open C mytestfile flags 0 w;
     (p, w) \<leftarrow> print_file C (p\<lparr>tp_fd := fd\<rparr>) w;
     (_, w) \<leftarrow> c_close C (tp_fd p) w;
     let p = p\<lparr>tp_out := tp_out p @ newline\<rparr>;
     Some (if c_errno C w \<noteq> 0 then stop Assertion_failed p else p, w)
   }"

text \<open>\<open>write\<close> with the terminator, and \<open>close\<close>.\<close>

definition write_text :: "'w clib \<Rightarrow> byte list \<Rightarrow> 'w part" where
  "write_text C str p w = do {
     (s, w) \<leftarrow> c_write C (tp_fd p) (str @ [NUL]) w;
     if s < 0 then Some (stop (Exit 1) p, w)
     else do { (_, w) \<leftarrow> c_close C (tp_fd p) w; Some (p, w) }
   }"

definition open_trunc :: "'w clib \<Rightarrow> 'w part" where
  "open_trunc C p w = do {
     (fd, w) \<leftarrow> c_open C mytestfile (O_RDWR OR O_TRUNC) 0 w;
     Some (p\<lparr>tp_fd := fd\<rparr>, w)
   }"

section \<open>The programs\<close>

definition hello_text :: "byte list" where "hello_text = ''HELLO HELLO HELLO HELLO'' @ newline"

definition foobar_text :: "byte list" where "foobar_text = ''FOOBAR FOOBAR'' @ newline"

text \<open>The first part of \<open>fstest\<close>.\<close>

definition fstest_create :: "'w clib \<Rightarrow> 'w part" where
  "fstest_create C p w = do {
     (p, w) \<leftarrow> do_mount C p w;
     if tp_exit p \<noteq> None then Some (p, w)
     else do {
       (res, w) \<leftarrow> create_file C mytestfile w;
       Some (if res \<noteq> 0 then stop (Exit 1) p else p, w)
     }
   }"

text \<open>\<open>fstest\<close>: mount and create; open; write; read; read again; return.\<close>

definition fstest :: "'w clib \<Rightarrow> (nat \<times> 'w part) list" where
  "fstest C =
     [(1, fstest_create C),
      (4, \<lambda>p w. do {
         (p, w) \<leftarrow> open_trunc C p w;
         Some (if tp_fd p = 0 then stop (Exit 1) p else p, w)
       }),
      (4, write_text C hello_text),
      (4, show_file C O_RDONLY),
      (4, show_file C O_RDONLY),
      (4, \<lambda>p w. Some (stop (Exit 0) p, w))]"

text \<open>\<open>fstest2\<close>: mount; read; write; read and return.\<close>

definition fstest2 :: "'w clib \<Rightarrow> (nat \<times> 'w part) list" where
  "fstest2 C =
     [(1, do_mount C),
      (10, show_file C (O_RDWR OR O_TRUNC)),
      (4, \<lambda>p w. do {
         (p, w) \<leftarrow> open_trunc C p w;
         write_text C foobar_text p w
       }),
      (4, \<lambda>p w. do {
         (p, w) \<leftarrow> show_file C O_RDONLY p w;
         Some (if tp_exit p \<noteq> None then p else stop (Exit 0) p, w)
       })]"

text \<open>A program alone: the seconds slept before each part do not matter.\<close>

definition run_test :: "(nat \<times> 'w part) list \<Rightarrow> (nat \<Rightarrow> byte) \<Rightarrow> 'w \<Rightarrow> (tproc \<times> 'w) option" where
  "run_test prog junk w = run_parts (map snd prog) (tproc0 junk) w"

section \<open>Two programs side by side\<close>

text \<open>
  Each part starts when the sleep before it is over; the calls themselves take no time, and of two
  parts due at the same moment the first program's comes first. The schedule says whose turn it is.
\<close>

fun wake_ups :: "nat \<Rightarrow> (nat \<times> 'w part) list \<Rightarrow> nat list" where
  "wake_ups t [] = []"
| "wake_ups t ((s, f) # prog) = (t + s) # wake_ups (t + s) prog"

fun merge_times :: "nat list \<Rightarrow> nat list \<Rightarrow> bool list" where
  "merge_times [] ys = map (\<lambda>_. False) ys"
| "merge_times xs [] = map (\<lambda>_. True) xs"
| "merge_times (x # xs) (y # ys) =
     (if x \<le> y then True # merge_times xs (y # ys) else False # merge_times (x # xs) ys)"

fun run_pair ::
  "bool list \<Rightarrow> 'w part list \<Rightarrow> 'w part list \<Rightarrow> tproc \<times> tproc \<times> 'w \<Rightarrow> (tproc \<times> tproc \<times> 'w) option" where
  "run_pair [] fs gs s = Some s"
| "run_pair (True # sch) (f # fs) gs (p, q, w) =
     (if tp_exit p \<noteq> None then run_pair sch fs gs (p, q, w)
      else do { (p, w) \<leftarrow> f p w; run_pair sch fs gs (p, q, w) })"
| "run_pair (False # sch) fs (g # gs) (p, q, w) =
     (if tp_exit q \<noteq> None then run_pair sch fs gs (p, q, w)
      else do { (q, w) \<leftarrow> g q w; run_pair sch fs gs (p, q, w) })"
| "run_pair (_ # sch) fs gs s = run_pair sch fs gs s"

definition run_both ::
  "(nat \<times> 'w part) list \<Rightarrow> (nat \<times> 'w part) list \<Rightarrow> (nat \<Rightarrow> byte) \<Rightarrow> (nat \<Rightarrow> byte) \<Rightarrow> 'w \<Rightarrow>
     (tproc \<times> tproc \<times> 'w) option" where
  "run_both prog1 prog2 junk1 junk2 w =
     run_pair (merge_times (wake_ups 0 prog1) (wake_ups 0 prog2)) (map snd prog1) (map snd prog2)
       (tproc0 junk1, tproc0 junk2, w)"

lemma schedule:
  "merge_times (wake_ups 0 (fstest C)) (wake_ups 0 (fstest2 C')) =
    [True, False, True, True, False, True, False, True, False, True]"
  by (simp add: fstest_def fstest2_def)

lemma texts_ok [simp]:
  "NUL \<notin> set hello_text" "length hello_text = 24" "NUL \<notin> set foobar_text" "length foobar_text = 14"
  by (simp_all add: hello_text_def foobar_text_def newline_def)

lemma tproc0_sel [simp]:
  "tp_exit (tproc0 junk) = None" "tp_out (tproc0 junk) = []" "msize (tp_rbuf (tproc0 junk)) = 256"
  by (simp_all add: tproc0_def)

section \<open>What the loop prints\<close>

text \<open>The buffer after a block has been read and the last byte has been set.\<close>

definition block :: "membuf \<Rightarrow> byte list \<Rightarrow> membuf" where
  "block b bs = (over b bs)\<lparr>mcell := (mcell (over b bs))(255 := NUL)\<rparr>"

lemma block_sel [simp]:
  "msize (block b bs) = msize b"
  "mcell (block b bs) i = (if i = 255 then NUL else if i < length bs then bs ! i else mcell b i)"
  by (simp_all add: block_def)

lemma mwrite_block:
  "msize b = 256 \<Longrightarrow> mwrite (over b bs) 255 [NUL] = Some (block b bs)"
  by (simp add: mwrite_def block_def fun_upd_def less_Suc_eq_le le_antisym cong: if_cong)
    (auto simp: fun_eq_iff)

lemma cstr_from_block: "msize b = 256 \<Longrightarrow> \<exists>s. cstr_from (block b bs) 0 = Some s"
  using cstr_from_total [of "block b bs" 255 0] by auto

text \<open>What is printed of a file with content \<open>d\<close>, from the contents of \<open>rbuf\<close> on.\<close>

function printed :: "membuf \<Rightarrow> byte list \<Rightarrow> byte list" where
  "printed b d =
     (if d = [] then []
      else let b = block b (take 255 d) in
        (case cstr_from b 0 of None \<Rightarrow> [] | Some s \<Rightarrow> s) @ printed b (drop 255 d))"
  by pat_completeness auto
termination by (relation "measure (\<lambda>(b, d). length d)") auto

declare printed.simps [simp del]

lemma printed_Nil [simp]: "printed b [] = []"
  by (subst printed.simps) simp

lemma printed_text:
  assumes "NUL \<notin> set s" and "length s < 255" and "msize b = 256"
  shows "printed b (s @ [NUL]) = s"
proof -
  have "cstr_from (block b (s @ [NUL])) 0 = Some s"
    using assms by (auto simp: cstr_from_iff nth_append)
  moreover have "take 255 (s @ [NUL]) = s @ [NUL]" "drop 255 (s @ [NUL]) = []"
    using assms by simp_all
  ultimately show ?thesis
    by (subst printed.simps) (simp add: printed.simps [of _ "[]"])
qed

text \<open>A longer file: the last block is followed by what the buffer still holds of the one before.\<close>

lemma printed_stale:
  assumes d: "NUL \<notin> set d" "255 < length d" "length d < 510" and b: "msize b = 256"
  shows "printed b d = d @ drop (length d - 255) (take 255 d)"
proof -
  let ?b = "block b (take 255 d)"
  have l: "length (take 255 d) = 255" using d by simp
  have n: "NUL \<notin> set (take 255 d)" "NUL \<notin> set (drop 255 d)"
    using d(1) by (auto dest: in_set_takeD in_set_dropD)
  have first: "cstr_from ?b 0 = Some (take 255 d)"
    using b l n by (auto simp: cstr_from_iff)
  let ?r = "drop 255 d @ drop (length d - 255) (take 255 d)"
  have lr: "length ?r = 255" using d by simp
  have nr: "NUL \<notin> set ?r" using n by (auto dest: in_set_dropD)
  have "mcell (block ?b (drop 255 d)) i = ?r ! i" if "i < 255" for i
  proof (cases "i < length d - 255")
    case True
    with that show ?thesis by (simp add: nth_append)
  next
    case False
    then have "drop (length d - 255) (take 255 d) ! (i - (length d - 255)) = d ! i"
      using that d by simp
    with False that l show ?thesis by (simp add: nth_append)
  qed
  with b lr nr have second: "cstr_from (block ?b (drop 255 d)) 0 = Some ?r"
    by (simp add: cstr_from_iff)
  have "take 255 (drop 255 d) = drop 255 d" "drop 255 (drop 255 d) = []" using d by simp_all
  moreover have "d \<noteq> []" "drop 255 d \<noteq> []" using d by auto
  moreover have "printed b d = take 255 d @ printed ?b (drop 255 d)"
    using \<open>d \<noteq> []\<close> first by (subst printed.simps) simp
  moreover have "printed ?b (drop 255 d) = ?r"
    using calculation(1-4) second by (subst printed.simps) (simp add: printed.simps [of _ "[]"])
  ultimately show ?thesis by (simp flip: append_assoc)
qed

section \<open>The contract of the C library\<close>

text \<open>
  What the programs use of the C library and the file system behind it: each call of process \<open>i\<close> is
  the corresponding change of the abstract state \<open>vw w\<close>, in which files have contents and a
  process has a table of open files with their positions and flags. \<open>room\<close> is the number of files
  that can still be opened, \<open>creatable\<close> says where a file can be created, \<open>path_ok\<close> which paths the
  file system serves.
\<close>

record lib_view =
  lv_files :: "byte list \<Rightarrow> byte list option"
  lv_fdt :: "nat \<Rightarrow> int \<Rightarrow> (byte list \<times> nat \<times> u32) option"
  lv_mounted :: "nat \<Rightarrow> bool"
  lv_errno :: "nat \<Rightarrow> int"

definition fdt_upd :: "nat \<Rightarrow> int \<Rightarrow> (byte list \<times> nat \<times> u32) option \<Rightarrow> lib_view \<Rightarrow> lib_view" where
  "fdt_upd i fd e v = v\<lparr>lv_fdt := (lv_fdt v)(i := (lv_fdt v i)(fd := e))\<rparr>"

definition file_upd :: "byte list \<Rightarrow> byte list \<Rightarrow> lib_view \<Rightarrow> lib_view" where
  "file_upd p d v = v\<lparr>lv_files := (lv_files v)(p \<mapsto> d)\<rparr>"

definition errno_upd :: "nat \<Rightarrow> int \<Rightarrow> lib_view \<Rightarrow> lib_view" where
  "errno_upd i e v = v\<lparr>lv_errno := (lv_errno v)(i := e)\<rparr>"

definition mount_upd :: "nat \<Rightarrow> lib_view \<Rightarrow> lib_view" where
  "mount_upd i v = v\<lparr>lv_mounted := (lv_mounted v)(i := True)\<rparr>"

lemmas view_upds = fdt_upd_def file_upd_def errno_upd_def mount_upd_def

lemma fdt_upd_undo [simp]: "lv_fdt v i fd = None \<Longrightarrow> fdt_upd i fd None v = v"
  by (simp add: fdt_upd_def fun_upd_idem)

lemma view_upd_sel [simp]:
  "lv_files (fdt_upd i fd e v) = lv_files v" "lv_files (file_upd p d v) = (lv_files v)(p \<mapsto> d)"
  "lv_files (mount_upd i v) = lv_files v" "lv_files (errno_upd i n v) = lv_files v"
  "lv_mounted (fdt_upd i fd e v) = lv_mounted v" "lv_mounted (file_upd p d v) = lv_mounted v"
  "lv_mounted (mount_upd i v) = (lv_mounted v)(i := True)" "lv_mounted (errno_upd i n v) = lv_mounted v"
  "lv_errno (fdt_upd i fd e v) = lv_errno v" "lv_errno (file_upd p d v) = lv_errno v"
  "lv_errno (mount_upd i v) = lv_errno v" "lv_errno (errno_upd i n v) = (lv_errno v)(i := n)"
  "lv_fdt (fdt_upd i fd e v) = (lv_fdt v)(i := (lv_fdt v i)(fd := e))" "lv_fdt (file_upd p d v) = lv_fdt v"
  "lv_fdt (mount_upd i v) = lv_fdt v" "lv_fdt (errno_upd i n v) = lv_fdt v"
  by (simp_all add: view_upds)

lemma view_upd_order [simp]:
  "file_upd p d (fdt_upd i fd e v) = fdt_upd i fd e (file_upd p d v)"
  "file_upd p d (file_upd p d' v) = file_upd p d v"
  "fdt_upd i fd e (fdt_upd i fd e' v) = fdt_upd i fd e v"
  by (simp_all add: view_upds)

lemma test_flags [simp]:
  "O_RDONLY AND O_DIRECTORY = 0" "O_RDONLY AND O_CREAT = 0" "O_RDONLY AND O_TRUNC = 0"
  "(O_RDWR OR O_TRUNC) AND O_DIRECTORY = 0" "(O_RDWR OR O_TRUNC) AND O_CREAT = 0"
  "(O_RDWR OR O_TRUNC) AND O_TRUNC \<noteq> 0" "(O_RDWR OR O_TRUNC) AND O_RDWR \<noteq> 0"
  "(O_RDWR OR O_CREAT OR O_EXCL) AND O_DIRECTORY = 0" "(O_RDWR OR O_CREAT OR O_EXCL) AND O_CREAT \<noteq> 0"
  "(O_RDWR OR O_CREAT OR O_EXCL) AND O_EXCL \<noteq> 0" "O_TRUNC \<noteq> 0"
  by (simp_all add: open_flags)

text \<open>What holds between the parts: \<open>g\<close> are the files at the start, \<open>d\<close> is the test file's content.\<close>

definition running ::
  "('w \<Rightarrow> bool) \<Rightarrow> ('w \<Rightarrow> lib_view) \<Rightarrow> ('w \<Rightarrow> int) \<Rightarrow> nat set \<Rightarrow> (byte list \<Rightarrow> byte list option) \<Rightarrow>
     byte list \<Rightarrow> 'w \<Rightarrow> bool" where
  "running ok vw room I g d w \<longleftrightarrow> ok w \<and> 0 < room w \<and> lv_files (vw w) = g(mytestfile \<mapsto> d) \<and>
     (\<forall>i \<in> I. lv_mounted (vw w) i \<and> lv_errno (vw w) i = 0)"

locale c_library =
  fixes C :: "nat \<Rightarrow> 'w clib" and ok :: "'w \<Rightarrow> bool" and vw :: "'w \<Rightarrow> lib_view"
    and creatable :: "'w \<Rightarrow> byte list \<Rightarrow> bool" and room :: "'w \<Rightarrow> int" and path_ok :: "byte list \<Rightarrow> bool"
  assumes errno: "ok w \<Longrightarrow> c_errno (C i) w = lv_errno (vw w) i"
    and mount: "ok w \<Longrightarrow> 0 < room w \<Longrightarrow>
      \<exists>w'. c_mount (C i) ''/'' ''hellofs'' ''l4fs'' w = Some (0, w') \<and> ok w' \<and>
        vw w' = mount_upd i (vw w) \<and> creatable w' = creatable w \<and> room w - 1 \<le> room w'"
    and open_existing: "ok w \<Longrightarrow> 0 < room w \<Longrightarrow> lv_mounted (vw w) i \<Longrightarrow> path_ok p \<Longrightarrow>
      lv_files (vw w) p = Some d \<Longrightarrow> fl AND O_DIRECTORY = 0 \<Longrightarrow> fl AND O_CREAT = 0 \<or> fl AND O_EXCL = 0 \<Longrightarrow>
      \<exists>fd w'. c_open (C i) p fl m w = Some (fd, w') \<and> 0 < fd \<and> lv_fdt (vw w) i fd = None \<and> ok w' \<and>
        vw w' = fdt_upd i fd (Some (p, 0, fl))
          (if fl AND O_TRUNC = 0 then vw w else file_upd p [] (vw w)) \<and> room w - 1 \<le> room w'"
    and open_new: "ok w \<Longrightarrow> 0 < room w \<Longrightarrow> lv_mounted (vw w) i \<Longrightarrow> path_ok p \<Longrightarrow>
      creatable w p \<Longrightarrow> fl AND O_DIRECTORY = 0 \<Longrightarrow> fl AND O_CREAT \<noteq> 0 \<Longrightarrow>
      \<exists>fd w'. c_open (C i) p fl m w = Some (fd, w') \<and> 0 < fd \<and> lv_fdt (vw w) i fd = None \<and> ok w' \<and>
        vw w' = fdt_upd i fd (Some (p, 0, fl)) (file_upd p [] (vw w)) \<and> room w - 1 \<le> room w'"
    and open_exclusive: "ok w \<Longrightarrow> 0 < room w \<Longrightarrow> lv_mounted (vw w) i \<Longrightarrow> path_ok p \<Longrightarrow>
      lv_files (vw w) p = Some d \<Longrightarrow> fl AND O_DIRECTORY = 0 \<Longrightarrow> fl AND O_CREAT \<noteq> 0 \<Longrightarrow> fl AND O_EXCL \<noteq> 0 \<Longrightarrow>
      \<exists>e w'. c_open (C i) p fl m w = Some (-1, w') \<and> e \<noteq> 0 \<and> ok w' \<and>
        vw w' = errno_upd i e (vw w) \<and> room w \<le> room w'"
    and close_file: "ok w \<Longrightarrow> lv_fdt (vw w) i fd = Some x \<Longrightarrow>
      \<exists>w'. c_close (C i) fd w = Some (0, w') \<and> ok w' \<and> vw w' = fdt_upd i fd None (vw w) \<and>
        room w + 1 \<le> room w'"
    and close_bad: "ok w \<Longrightarrow> fd < 0 \<Longrightarrow>
      \<exists>e w'. c_close (C i) fd w = Some (-1, w') \<and> e \<noteq> 0 \<and> ok w' \<and> vw w' = errno_upd i e (vw w) \<and>
        room w \<le> room w'"
    and read_file: "ok w \<Longrightarrow> lv_fdt (vw w) i fd = Some (p, pos, fl) \<Longrightarrow> lv_files (vw w) p = Some d \<Longrightarrow>
      n \<le> 4096 \<Longrightarrow> length d < 2 ^ 31 \<Longrightarrow> pos \<le> length d \<Longrightarrow> bs = take n (drop pos d) \<Longrightarrow>
      \<exists>w'. c_read (C i) fd n w = Some (int (length bs), bs, w') \<and> ok w' \<and>
        vw w' = fdt_upd i fd (Some (p, pos + length bs, fl)) (vw w) \<and> room w \<le> room w'"
    and write_file: "ok w \<Longrightarrow> lv_fdt (vw w) i fd = Some (p, pos, fl) \<Longrightarrow> fl AND O_RDWR \<noteq> 0 \<Longrightarrow>
      lv_files (vw w) p = Some d \<Longrightarrow> length bs \<le> 4096 \<Longrightarrow> length d < 2 ^ 31 \<Longrightarrow> pos \<le> length d \<Longrightarrow>
      \<exists>w'. c_write (C i) fd bs w = Some (int (length bs), w') \<and> ok w' \<and>
        vw w' = fdt_upd i fd (Some (p, pos + length bs, fl)) (file_upd p (overwrite d pos bs) (vw w)) \<and>
        room w \<le> room w'"
begin

text \<open>The loop, on a file that is open for reading.\<close>

lemma print_file_reads:
  assumes "ok w" and "lv_fdt (vw w) i (tp_fd p) = Some (path, pos, fl)"
    and "lv_files (vw w) path = Some d" and "pos \<le> length d" and "length d < 2 ^ 31"
    and "msize (tp_rbuf p) = 256"
  shows "\<exists>b w'. print_file (C i) p w =
      Some (p\<lparr>tp_rbuf := b, tp_out := tp_out p @ printed (tp_rbuf p) (drop pos d)\<rparr>, w') \<and>
    msize b = 256 \<and> ok w' \<and> room w \<le> room w' \<and>
    vw w' = fdt_upd i (tp_fd p) (Some (path, length d, fl)) (vw w)"
  using assms
proof (induction "length d - pos" arbitrary: p w pos rule: less_induct)
  case less
  let ?bs = "take 255 (drop pos d)" and ?fd = "tp_fd p"
  obtain w1 where w1: "c_read (C i) ?fd 255 w = Some (int (length ?bs), ?bs, w1)" "ok w1"
    "vw w1 = fdt_upd i ?fd (Some (path, pos + length ?bs, fl)) (vw w)" "room w \<le> room w1"
    using read_file [OF less.prems(1-3) _ less.prems(5,4), of 255 ?bs] by auto
  have l: "length ?bs \<le> msize (tp_rbuf p)" using less.prems(6) by simp
  show ?case
  proof (cases "pos = length d")
    case True
    then have "?bs = []" by simp
    with w1 mwrite_over [OF l] True show ?thesis
      by (intro exI [of _ "tp_rbuf p"] exI [of _ w1])
        (auto simp: print_file.simps printed.simps [of _ "[]"] over_def less.prems(6) simp del: take_eq_Nil)
  next
    case False
    then have pos: "pos < length d" using less.prems(4) by simp
    let ?b = "block (tp_rbuf p) ?bs"
    obtain str where str: "cstr_from ?b 0 = Some str" using cstr_from_block less.prems(6) by blast
    let ?p = "p\<lparr>tp_rbuf := ?b, tp_out := tp_out p @ str\<rparr>" and ?pos = "pos + length ?bs"
    have step: "print_file (C i) p w = print_file (C i) ?p w1"
      using w1(1) mwrite_over [OF l] mwrite_block [OF less.prems(6)] str pos
      by (subst print_file.simps) simp
    have "printed (tp_rbuf p) (drop pos d) = str @ printed ?b (drop 255 (drop pos d))"
      using pos str by (subst printed.simps) simp
    moreover have "drop 255 (drop pos d) = drop ?pos d" by (cases "length d - pos \<le> 255") (auto simp: add.commute)
    ultimately have out: "printed (tp_rbuf p) (drop pos d) = str @ printed ?b (drop ?pos d)" by simp
    have fd: "lv_fdt (vw w1) i (tp_fd ?p) = Some (path, ?pos, fl)"
      and fs: "lv_files (vw w1) path = Some d"
      using w1(3) less.prems(3) by (simp_all add: view_upds)
    have "length d - ?pos < length d - pos" "?pos \<le> length d" "msize (tp_rbuf ?p) = 256"
      using pos less.prems(6) by auto
    from less.hyps [OF this(1) w1(2) fd fs this(2) less.prems(5) this(3)] obtain b w' where
      "print_file (C i) ?p w1 =
        Some (?p\<lparr>tp_rbuf := b, tp_out := tp_out ?p @ printed (tp_rbuf ?p) (drop ?pos d)\<rparr>, w')"
      "msize b = 256" "ok w'" "room w1 \<le> room w'"
      "vw w' = fdt_upd i (tp_fd ?p) (Some (path, length d, fl)) (vw w1)"
      by blast
    with step out w1(3,4) show ?thesis
      by (intro exI [of _ b] exI [of _ w']) (auto simp: view_upds)
  qed
qed

text \<open>The parts of the programs.\<close>

lemma do_mount_ok:
  assumes "ok w" and "0 < room w" and "lv_errno (vw w) i = 0"
  shows "\<exists>w'. do_mount (C i) p w = Some (p, w') \<and> ok w' \<and> vw w' = mount_upd i (vw w) \<and>
    creatable w' = creatable w \<and> room w - 1 \<le> room w'"
  using mount [OF assms(1,2), of i] assms(3) by (auto simp: do_mount_def errno)

lemma create_file_new:
  assumes "ok w" and "0 < room w" and "lv_mounted (vw w) i" and "path_ok path" and "creatable w path"
  shows "\<exists>w'. create_file (C i) path w = Some (0, w') \<and> ok w' \<and> vw w' = file_upd path [] (vw w) \<and>
    room w \<le> room w'"
proof -
  obtain fd w1 where w1: "c_open (C i) path (O_RDWR OR O_CREAT OR O_EXCL) S_IRWXU w = Some (fd, w1)"
    "0 < fd" "lv_fdt (vw w) i fd = None" "ok w1" "room w - 1 \<le> room w1"
    "vw w1 = fdt_upd i fd (Some (path, 0, O_RDWR OR O_CREAT OR O_EXCL)) (file_upd path [] (vw w))"
    using open_new [OF assms, of "O_RDWR OR O_CREAT OR O_EXCL" S_IRWXU] by auto
  then have "lv_fdt (vw w1) i fd = Some (path, 0, O_RDWR OR O_CREAT OR O_EXCL)" by simp
  from close_file [OF w1(4) this] w1 show ?thesis by (auto simp: create_file_def)
qed

lemma create_file_exists:
  assumes "ok w" and "0 < room w" and "lv_mounted (vw w) i" and "path_ok path"
    and "lv_files (vw w) path = Some d"
  shows "\<exists>w'. create_file (C i) path w = Some (-1, w') \<and> ok w' \<and> lv_files (vw w') = lv_files (vw w)"
proof -
  obtain e w1 where w1: "c_open (C i) path (O_RDWR OR O_CREAT OR O_EXCL) S_IRWXU w = Some (-1, w1)"
    "ok w1" "vw w1 = errno_upd i e (vw w)"
    using open_exclusive [OF assms, of "O_RDWR OR O_CREAT OR O_EXCL" S_IRWXU] by auto
  with close_bad [OF w1(2), of "-1" i] show ?thesis by (auto simp: create_file_def)
qed

lemma open_trunc_ok:
  assumes "ok w" and "0 < room w" and "lv_mounted (vw w) i" and "path_ok mytestfile"
    and "lv_files (vw w) mytestfile = Some d"
  shows "\<exists>fd w'. open_trunc (C i) p w = Some (p\<lparr>tp_fd := fd\<rparr>, w') \<and> 0 < fd \<and>
    lv_fdt (vw w) i fd = None \<and> ok w' \<and> room w - 1 \<le> room w' \<and>
    vw w' = fdt_upd i fd (Some (mytestfile, 0, O_RDWR OR O_TRUNC)) (file_upd mytestfile [] (vw w))"
proof -
  have "(O_RDWR OR O_TRUNC) AND O_CREAT = 0 \<or> (O_RDWR OR O_TRUNC) AND O_EXCL = 0" by simp
  from open_existing [OF assms test_flags(4) this, of 0] obtain fd w' where
    "c_open (C i) mytestfile (O_RDWR OR O_TRUNC) 0 w = Some (fd, w')" "0 < fd" "ok w'"
    "lv_fdt (vw w) i fd = None" "room w - 1 \<le> room w'"
    "vw w' = fdt_upd i fd (Some (mytestfile, 0, O_RDWR OR O_TRUNC)) (file_upd mytestfile [] (vw w))"
    by auto
  then show ?thesis
    by (intro exI [of _ fd] exI [of _ w']) (simp add: open_trunc_def)
qed

lemma write_text_ok:
  assumes "ok w" and "lv_fdt (vw w) i (tp_fd p) = Some (path, 0, O_RDWR OR O_TRUNC)"
    and "lv_files (vw w) path = Some []" and "length str < 4096"
  shows "\<exists>w'. write_text (C i) str p w = Some (p, w') \<and> ok w' \<and> room w + 1 \<le> room w' \<and>
    vw w' = fdt_upd i (tp_fd p) None (file_upd path (str @ [NUL]) (vw w))"
proof -
  have "length (str @ [NUL]) \<le> 4096" "length ([] :: byte list) < 2 ^ 31" "0 \<le> length ([] :: byte list)"
    using assms(4) by simp_all
  from write_file [OF assms(1,2) test_flags(7) assms(3) this]
  obtain w1 where w1: "c_write (C i) (tp_fd p) (str @ [NUL]) w = Some (int (length (str @ [NUL])), w1)"
    "ok w1" "room w \<le> room w1"
    "vw w1 = fdt_upd i (tp_fd p) (Some (path, 0 + length (str @ [NUL]), O_RDWR OR O_TRUNC))
      (file_upd path (overwrite [] 0 (str @ [NUL])) (vw w))"
    by blast
  then have "lv_fdt (vw w1) i (tp_fd p) = Some (path, 0 + length (str @ [NUL]), O_RDWR OR O_TRUNC)"
    by simp
  from close_file [OF w1(2) this] w1 show ?thesis by (auto simp: write_text_def overwrite_def)
qed

lemma show_file_ok:
  assumes "ok w" and "0 < room w" and "lv_mounted (vw w) i" and "path_ok mytestfile"
    and "lv_files (vw w) mytestfile = Some d" and "lv_errno (vw w) i = 0" and "length d < 2 ^ 31"
    and "msize (tp_rbuf p) = 256" and "fl = O_RDONLY \<and> d' = d \<or> fl = O_RDWR OR O_TRUNC \<and> d' = []"
  shows "\<exists>b fd w'. show_file (C i) fl p w =
      Some (p\<lparr>tp_fd := fd, tp_rbuf := b, tp_out := tp_out p @ printed (tp_rbuf p) d' @ newline\<rparr>, w') \<and>
    msize b = 256 \<and> ok w' \<and> room w \<le> room w' \<and>
    vw w' = (if fl = O_RDONLY then vw w else file_upd mytestfile [] (vw w))"
proof -
  have fl: "fl AND O_DIRECTORY = 0" "fl AND O_CREAT = 0" using assms(9) by auto
  obtain fd w1 where w1: "c_open (C i) mytestfile fl 0 w = Some (fd, w1)" "0 < fd"
    "lv_fdt (vw w) i fd = None" "ok w1" "room w - 1 \<le> room w1"
    "vw w1 = fdt_upd i fd (Some (mytestfile, 0, fl))
      (if fl AND O_TRUNC = 0 then vw w else file_upd mytestfile [] (vw w))"
    using open_existing [OF assms(1-5) fl(1)] fl(2) by blast
  let ?p = "p\<lparr>tp_fd := fd\<rparr>"
  have d': "lv_files (vw w1) mytestfile = Some d'" "length d' < 2 ^ 31"
    using w1(6) assms(5,7,9) by auto
  have fd: "lv_fdt (vw w1) i (tp_fd ?p) = Some (mytestfile, 0, fl)" using w1(6) by simp
  have b: "msize (tp_rbuf ?p) = 256" using assms(8) by simp
  from print_file_reads [OF w1(4) fd d'(1) _ d'(2) b] obtain b w2 where
    w2: "print_file (C i) ?p w1 =
      Some (?p\<lparr>tp_rbuf := b, tp_out := tp_out ?p @ printed (tp_rbuf ?p) (drop 0 d')\<rparr>, w2)"
    "msize b = 256" "ok w2" "room w1 \<le> room w2"
    "vw w2 = fdt_upd i (tp_fd ?p) (Some (mytestfile, length d', fl)) (vw w1)"
    by blast
  then have "lv_fdt (vw w2) i fd = Some (mytestfile, length d', fl)" by simp
  from close_file [OF w2(3) this] obtain w3 where
    w3: "c_close (C i) fd w2 = Some (0, w3)" "ok w3" "vw w3 = fdt_upd i fd None (vw w2)"
      "room w2 + 1 \<le> room w3" by blast
  have ne: "O_RDWR OR O_TRUNC \<noteq> O_RDONLY" by (simp add: open_flags)
  have abs3: "vw w3 = (if fl = O_RDONLY then vw w else file_upd mytestfile [] (vw w))"
    using w3(3) w2(5) w1(3,6) assms(9) ne by auto
  then have "c_errno (C i) w3 = 0" using errno [OF w3(2), of i] assms(6) by (simp split: if_splits)
  with w1 w2 w3 abs3 show ?thesis
    by (intro exI [of _ b] exI [of _ fd] exI [of _ w3]) (auto simp: show_file_def)
qed

text \<open>The first part of \<open>fstest\<close>: the test file must not exist.\<close>

lemma fstest_first:
  assumes "ok w" and "1 < room w" and "path_ok mytestfile" and "creatable w mytestfile"
    and "lv_errno (vw w) i = 0" and "tp_exit p = None"
  shows "\<exists>w'. fstest_create (C i) p w = Some (p, w') \<and> ok w' \<and> room w - 1 \<le> room w' \<and>
    vw w' = file_upd mytestfile [] (mount_upd i (vw w))"
proof -
  obtain w1 where w1: "do_mount (C i) p w = Some (p, w1)" "ok w1" "vw w1 = mount_upd i (vw w)"
    "creatable w1 = creatable w" "room w - 1 \<le> room w1"
    using do_mount_ok [of w i p] assms by auto
  have "0 < room w1" "lv_mounted (vw w1) i" "creatable w1 mytestfile" using w1 assms by simp_all
  from create_file_new [OF w1(2) this(1,2) assms(3) this(3)] w1 assms(6) show ?thesis
    by (auto simp: fstest_create_def)
qed

text \<open>
  From then on the test file exists. The parts keep the rest of what they need: their processes
  have mounted the file system and seen no error.
\<close>

lemma write_part:
  assumes "running ok vw room I g d w" and "i \<in> I" and "path_ok mytestfile" and "tp_exit p = None"
    and "length str < 4096"
  shows "\<exists>fd w1 w2. 0 < fd \<and> open_trunc (C i) p w = Some (p\<lparr>tp_fd := fd\<rparr>, w1) \<and>
    write_text (C i) str (p\<lparr>tp_fd := fd\<rparr>) w1 = Some (p\<lparr>tp_fd := fd\<rparr>, w2) \<and>
    running ok vw room I g (str @ [NUL]) w2"
proof -
  have pre: "ok w" "0 < room w" "lv_mounted (vw w) i" "lv_files (vw w) mytestfile = Some d"
    using assms(1,2) by (auto simp: running_def)
  obtain fd w1 where w1: "open_trunc (C i) p w = Some (p\<lparr>tp_fd := fd\<rparr>, w1)" "0 < fd"
    "lv_fdt (vw w) i fd = None" "ok w1" "room w - 1 \<le> room w1"
    "vw w1 = fdt_upd i fd (Some (mytestfile, 0, O_RDWR OR O_TRUNC)) (file_upd mytestfile [] (vw w))"
    using open_trunc_ok [OF pre(1-3) assms(3) pre(4), of p] by blast
  have "lv_fdt (vw w1) i (tp_fd (p\<lparr>tp_fd := fd\<rparr>)) = Some (mytestfile, 0, O_RDWR OR O_TRUNC)"
    "lv_files (vw w1) mytestfile = Some []" using w1(6) by simp_all
  from write_text_ok [OF w1(4) this assms(5)] obtain w2 where
    w2: "write_text (C i) str (p\<lparr>tp_fd := fd\<rparr>) w1 = Some (p\<lparr>tp_fd := fd\<rparr>, w2)" "ok w2"
    "room w1 + 1 \<le> room w2"
    "vw w2 = fdt_upd i (tp_fd (p\<lparr>tp_fd := fd\<rparr>)) None (file_upd mytestfile (str @ [NUL]) (vw w1))"
    by blast
  from w2(4) have "vw w2 = file_upd mytestfile (str @ [NUL]) (vw w)" using w1(3,6) by simp
  with assms(1) w1 w2 have "running ok vw room I g (str @ [NUL]) w2" by (auto simp: running_def)
  with w1 w2 show ?thesis by blast
qed

text \<open>Reading a file in one of the two ways; the terminator written with a text ends what is printed.\<close>

lemma show_part:
  assumes "running ok vw room I g d w" and "i \<in> I" and "path_ok mytestfile"
    and "length d < 2 ^ 31" and "msize (tp_rbuf p) = 256"
    and "fl = O_RDONLY \<and> d' = d \<or> fl = O_RDWR OR O_TRUNC \<and> d' = []"
  shows "\<exists>b fd w'. show_file (C i) fl p w =
      Some (p\<lparr>tp_fd := fd, tp_rbuf := b, tp_out := tp_out p @ printed (tp_rbuf p) d' @ newline\<rparr>, w') \<and>
    msize b = 256 \<and> running ok vw room I g d' w'"
proof -
  have pre: "ok w" "0 < room w" "lv_mounted (vw w) i" "lv_files (vw w) mytestfile = Some d"
    "lv_errno (vw w) i = 0" using assms(1,2) by (auto simp: running_def)
  have "O_RDWR OR O_TRUNC \<noteq> O_RDONLY" by (simp add: open_flags)
  with show_file_ok [OF pre(1-3) assms(3) pre(4,5) assms(4-6)] assms(1,6) show ?thesis
    by (fastforce simp: running_def)
qed

lemma show_text:
  assumes "running ok vw room I g (str @ [NUL]) w" and "i \<in> I" and "path_ok mytestfile"
    and "NUL \<notin> set str" and "length str < 255"
    and "msize (tp_rbuf p) = 256"
  shows "\<exists>b fd w'. show_file (C i) O_RDONLY p w =
      Some (p\<lparr>tp_fd := fd, tp_rbuf := b, tp_out := tp_out p @ str @ newline\<rparr>, w') \<and>
    msize b = 256 \<and> running ok vw room I g (str @ [NUL]) w'"
  using show_part [OF assms(1-3), of p O_RDONLY "str @ [NUL]"] printed_text [OF assms(4-6)] assms(5,6)
  by simp

lemma show_empty:
  assumes "running ok vw room I g [] w" and "i \<in> I" and "path_ok mytestfile"
    and "msize (tp_rbuf p) = 256"
  shows "\<exists>b fd w'. show_file (C i) O_RDONLY p w =
      Some (p\<lparr>tp_fd := fd, tp_rbuf := b, tp_out := tp_out p @ newline\<rparr>, w') \<and>
    msize b = 256 \<and> running ok vw room I g [] w'"
  using show_part [OF assms(1-3), of p O_RDONLY "[]"] assms(4) by simp

lemma show_truncated:
  assumes "running ok vw room I g d w" and "i \<in> I" and "path_ok mytestfile" and "length d < 2 ^ 31"
    and "msize (tp_rbuf p) = 256"
  shows "\<exists>b fd w'. show_file (C i) (O_RDWR OR O_TRUNC) p w =
      Some (p\<lparr>tp_fd := fd, tp_rbuf := b, tp_out := tp_out p @ newline\<rparr>, w') \<and>
    msize b = 256 \<and> running ok vw room I g [] w'"
  using show_part [OF assms(1-4), of p "O_RDWR OR O_TRUNC" "[]"] assms(5) by simp

text \<open>The first program alone.\<close>

lemma fstest_alone:
  assumes "ok w" and "1 < room w" and "path_ok mytestfile" and "creatable w mytestfile"
    and "lv_errno (vw w) i = 0"
  shows "\<exists>p w'. run_test (fstest (C i)) junk w = Some (p, w') \<and> tp_exit p = Some (Exit 0) \<and>
    tp_out p = hello_text @ newline @ hello_text @ newline \<and> ok w' \<and>
    lv_files (vw w') = (lv_files (vw w))(mytestfile \<mapsto> hello_text @ [NUL])"
proof -
  let ?p = "tproc0 junk" and ?run = "running ok vw room {i} (lv_files (vw w))"
  obtain w1 where w1: "fstest_create (C i) ?p w = Some (?p, w1)" "ok w1" "room w - 1 \<le> room w1"
    "vw w1 = file_upd mytestfile [] (mount_upd i (vw w))"
    using fstest_first [OF assms, of ?p] by auto
  have run: "?run [] w1" using w1 assms by (simp add: running_def)
  obtain fd w2 w3 where w3: "0 < fd" "open_trunc (C i) ?p w1 = Some (?p\<lparr>tp_fd := fd\<rparr>, w2)"
    "write_text (C i) hello_text (?p\<lparr>tp_fd := fd\<rparr>) w2 = Some (?p\<lparr>tp_fd := fd\<rparr>, w3)"
    "?run (hello_text @ [NUL]) w3"
    using write_part [OF run _ assms(3), of i ?p hello_text] by auto
  let ?p3 = "?p\<lparr>tp_fd := fd\<rparr>"
  obtain b4 fd4 w4 where w4: "show_file (C i) O_RDONLY ?p3 w3 =
      Some (?p3\<lparr>tp_fd := fd4, tp_rbuf := b4, tp_out := tp_out ?p3 @ hello_text @ newline\<rparr>, w4)"
    "msize b4 = 256" "?run (hello_text @ [NUL]) w4"
    using show_text [OF w3(4) _ assms(3), of i ?p3] by auto
  let ?p4 = "?p3\<lparr>tp_fd := fd4, tp_rbuf := b4, tp_out := tp_out ?p3 @ hello_text @ newline\<rparr>"
  obtain b5 fd5 w5 where w5: "show_file (C i) O_RDONLY ?p4 w4 =
      Some (?p4\<lparr>tp_fd := fd5, tp_rbuf := b5, tp_out := tp_out ?p4 @ hello_text @ newline\<rparr>, w5)"
    "?run (hello_text @ [NUL]) w5"
    using show_text [OF w4(3) _ assms(3), of i ?p4] w4(2) by auto
  then show ?thesis
    using w1(1) w3(1-3) w4(1) by (auto simp: run_test_def fstest_def running_def)
qed

lemma fstest_file_exists:
  assumes "ok w" and "1 < room w" and "path_ok mytestfile" and "lv_errno (vw w) i = 0"
    and "lv_files (vw w) mytestfile = Some d"
  shows "\<exists>p w'. run_test (fstest (C i)) junk w = Some (p, w') \<and> tp_exit p = Some (Exit 1) \<and>
    tp_out p = [] \<and> ok w' \<and> lv_files (vw w') = lv_files (vw w)"
proof -
  let ?p = "tproc0 junk"
  obtain w1 where w1: "do_mount (C i) ?p w = Some (?p, w1)" "ok w1" "vw w1 = mount_upd i (vw w)"
    "room w - 1 \<le> room w1"
    using do_mount_ok [of w i ?p] assms by auto
  have "0 < room w1" "lv_mounted (vw w1) i" "lv_files (vw w1) mytestfile = Some d"
    using w1 assms by simp_all
  from create_file_exists [OF w1(2) this(1,2) assms(3) this(3)] w1 show ?thesis
    by (auto simp: run_test_def fstest_def fstest_create_def)
qed

text \<open>
  Both programs, as the configuration starts them: the second one truncates the file before the
  first one has read it back, and writes to it before the first one reads it again.
\<close>

lemma both_tests:
  assumes "ok w" and "2 < room w" and "path_ok mytestfile" and "creatable w mytestfile"
    and "lv_errno (vw w) i = 0" and "lv_errno (vw w) j = 0"
  shows "\<exists>p q w'. run_both (fstest (C i)) (fstest2 (C j)) junk1 junk2 w = Some (p, q, w') \<and>
    tp_exit p = Some (Exit 0) \<and> tp_out p = newline @ foobar_text @ newline \<and>
    tp_exit q = Some (Exit 0) \<and> tp_out q = newline @ foobar_text @ newline \<and> ok w' \<and>
    lv_files (vw w') = (lv_files (vw w))(mytestfile \<mapsto> foobar_text @ [NUL])"
proof -
  let ?p = "tproc0 junk1" and ?q = "tproc0 junk2"
    and ?run = "running ok vw room {i, j} (lv_files (vw w))"
  have room: "1 < room w" using assms(2) by simp
  obtain w1 where w1: "fstest_create (C i) ?p w = Some (?p, w1)" "ok w1" "room w - 1 \<le> room w1"
    "vw w1 = file_upd mytestfile [] (mount_upd i (vw w))"
    using fstest_first [OF assms(1) room assms(3,4,5), of ?p] by auto
  obtain w2 where w2: "do_mount (C j) ?q w1 = Some (?q, w2)" "?run [] w2"
    using do_mount_ok [of w1 j ?q] w1 assms by (auto simp: running_def)
  obtain fd w3 w4 where w4: "0 < fd" "open_trunc (C i) ?p w2 = Some (?p\<lparr>tp_fd := fd\<rparr>, w3)"
    "write_text (C i) hello_text (?p\<lparr>tp_fd := fd\<rparr>) w3 = Some (?p\<lparr>tp_fd := fd\<rparr>, w4)"
    "?run (hello_text @ [NUL]) w4"
    using write_part [OF w2(2) _ assms(3), of i ?p hello_text] by auto
  let ?p4 = "?p\<lparr>tp_fd := fd\<rparr>"
  obtain b5 fd5 w5 where w5: "show_file (C j) (O_RDWR OR O_TRUNC) ?q w4 =
      Some (?q\<lparr>tp_fd := fd5, tp_rbuf := b5, tp_out := tp_out ?q @ newline\<rparr>, w5)"
    "msize b5 = 256" "?run [] w5"
    using show_truncated [OF w4(4) _ assms(3), of j ?q] by auto
  let ?q5 = "?q\<lparr>tp_fd := fd5, tp_rbuf := b5, tp_out := tp_out ?q @ newline\<rparr>"
  obtain b6 fd6 w6 where w6: "show_file (C i) O_RDONLY ?p4 w5 =
      Some (?p4\<lparr>tp_fd := fd6, tp_rbuf := b6, tp_out := tp_out ?p4 @ newline\<rparr>, w6)"
    "msize b6 = 256" "?run [] w6"
    using show_empty [OF w5(3) _ assms(3), of i ?p4] by auto
  let ?p6 = "?p4\<lparr>tp_fd := fd6, tp_rbuf := b6, tp_out := tp_out ?p4 @ newline\<rparr>"
  obtain fd7 w7 w8 where w8: "open_trunc (C j) ?q5 w6 = Some (?q5\<lparr>tp_fd := fd7\<rparr>, w7)"
    "write_text (C j) foobar_text (?q5\<lparr>tp_fd := fd7\<rparr>) w7 = Some (?q5\<lparr>tp_fd := fd7\<rparr>, w8)"
    "?run (foobar_text @ [NUL]) w8"
    using write_part [OF w6(3) _ assms(3), of j ?q5 foobar_text] by auto
  let ?q8 = "?q5\<lparr>tp_fd := fd7\<rparr>"
  obtain b9 fd9 w9 where w9: "show_file (C i) O_RDONLY ?p6 w8 =
      Some (?p6\<lparr>tp_fd := fd9, tp_rbuf := b9, tp_out := tp_out ?p6 @ foobar_text @ newline\<rparr>, w9)"
    "?run (foobar_text @ [NUL]) w9"
    using show_text [OF w8(3) _ assms(3), of i ?p6] w6(2) by auto
  obtain b10 fd10 w10 where w10: "show_file (C j) O_RDONLY ?q8 w9 =
      Some (?q8\<lparr>tp_fd := fd10, tp_rbuf := b10, tp_out := tp_out ?q8 @ foobar_text @ newline\<rparr>, w10)"
    "?run (foobar_text @ [NUL]) w10"
    using show_text [OF w9(2) _ assms(3), of j ?q8] w5(2) by auto
  then show ?thesis
    using w1(1) w2(1) w4(1-3) w5(1) w6(1) w8(1,2) w9(1) unfolding run_both_def schedule
    by (auto simp: fstest_def fstest2_def running_def)
qed

end

end
