(* ===== verification/Ref_Clib.thy ===== *)
theory Ref_Clib
  imports Libc_Backend Ref_Posix Fs_Tests
begin

text \<open>
  An executable instance of the parameter \<open>C\<close> of the test programs: the calls of the C library on
  top of the backend \<open>Libc_Backend\<close>. Each process has its own table of open files and its own
  \<open>errno\<close>; the link to the server is shared. Over the file server and any file system of
  \<open>posix_paths\<close> it keeps the contract \<open>c_library\<close>.
\<close>

section \<open>The calls\<close>

record vfs =
  v_mount :: "(byte list \<times> fobj) option"
  v_fds :: "(int \<times> fobj) list"
  v_errno :: int

definition vfs0 :: vfs where "vfs0 = \<lparr>v_mount = None, v_fds = [], v_errno = 0\<rparr>"

type_synonym 'w lworld = "(nat \<Rightarrow> vfs) \<times> 'w"

definition lib_fail :: "nat \<Rightarrow> int \<Rightarrow> (nat \<Rightarrow> vfs) \<Rightarrow> (nat \<Rightarrow> vfs)" where
  "lib_fail i e vs = vs(i := (vs i)\<lparr>v_errno := e\<rparr>)"

text \<open>The part of a path below the mount point, which is empty for the mount point itself.\<close>

definition lib_name :: "vfs \<Rightarrow> byte list \<Rightarrow> byte list option" where
  "lib_name v path =
     (case v_mount v of
        None \<Rightarrow> None
      | Some (target, _) \<Rightarrow>
          let mp = ''/'' @ target @ ''/'' in
          if path = ''/'' @ target then Some []
          else if take (length mp) path = mp then Some (drop (length mp) path) else None)"

definition lib_mount ::
  "'w link \<Rightarrow> nat \<Rightarrow> byte list \<Rightarrow> byte list \<Rightarrow> byte list \<Rightarrow> 'w lworld \<Rightarrow> (int \<times> 'w lworld) option" where
  "lib_mount L i source target fstype = (\<lambda>(vs, w).
     if fstype \<noteq> ''l4fs'' then Some (-1, lib_fail i 19 vs, w)
     else do {
       (r, dir, w) \<leftarrow> fs_mount L 0 0 0 True source w;
       Some (case dir of
           None \<Rightarrow> (-1, lib_fail i (- r) vs, w)
         | Some d \<Rightarrow> (0, vs(i := (vs i)\<lparr>v_mount := Some (target, d)\<rparr>), w))
     })"

definition lib_open ::
  "'w link \<Rightarrow> nat \<Rightarrow> byte list \<Rightarrow> u32 \<Rightarrow> u32 \<Rightarrow> 'w lworld \<Rightarrow> (int \<times> 'w lworld) option" where
  "lib_open L i path fl m = (\<lambda>(vs, w).
     case lib_name (vs i) path of
       None \<Rightarrow> Some (-1, lib_fail i L4_ENOENT vs, w)
     | Some name \<Rightarrow> do {
         (r, entry, w) \<leftarrow> fd_get_entry L True name fl m w;
         Some (case entry of
             None \<Rightarrow> (-1, lib_fail i (- r) vs, w)
           | Some (_, f) \<Rightarrow>
               (let fd = fd_free (map fst (v_fds (vs i))) in
                (fd, vs(i := (vs i)\<lparr>v_fds := (fd, f) # v_fds (vs i)\<rparr>), w)))
       })"

definition lib_close :: "'w link \<Rightarrow> nat \<Rightarrow> int \<Rightarrow> 'w lworld \<Rightarrow> (int \<times> 'w lworld) option" where
  "lib_close L i fd = (\<lambda>(vs, w).
     case map_of (v_fds (vs i)) fd of
       None \<Rightarrow> Some (-1, lib_fail i EBADF vs, w)
     | Some f \<Rightarrow> do {
         (r, _, w) \<leftarrow> fb_close L f w;
         let vs = vs(i := (vs i)\<lparr>v_fds := drop_key fd (v_fds (vs i))\<rparr>);
         Some (if r < 0 then (-1, lib_fail i (- r) vs, w) else (0, vs, w))
       })"

text \<open>\<open>read\<close> and \<open>write\<close> at the position of the file, which they advance.\<close>

definition lib_read :: "'w link \<Rightarrow> nat \<Rightarrow> int \<Rightarrow> nat \<Rightarrow> 'w lworld \<Rightarrow> (int \<times> byte list \<times> 'w lworld) option" where
  "lib_read L i fd n = (\<lambda>(vs, w).
     case map_of (v_fds (vs i)) fd of
       None \<Rightarrow> Some (-1, [], lib_fail i EBADF vs, w)
     | Some f \<Rightarrow> do {
         (r, iov, w) \<leftarrow> ff_preadv L f [mzero n] (fo_pos f) w;
         if r < 0 then Some (-1, [], lib_fail i (- r) vs, w)
         else do {
           bs \<leftarrow> mread (hd iov) 0 (nat r);
           Some (r, bs, vs(i := (vs i)\<lparr>v_fds := (fd, f\<lparr>fo_pos := fo_pos f + r\<rparr>) # drop_key fd (v_fds (vs i))\<rparr>), w)
         }
       })"

definition lib_write :: "'w link \<Rightarrow> nat \<Rightarrow> int \<Rightarrow> byte list \<Rightarrow> 'w lworld \<Rightarrow> (int \<times> 'w lworld) option" where
  "lib_write L i fd bs = (\<lambda>(vs, w).
     case map_of (v_fds (vs i)) fd of
       None \<Rightarrow> Some (-1, lib_fail i EBADF vs, w)
     | Some f \<Rightarrow> do {
         (r, w) \<leftarrow> ff_pwritev L f [bs] (fo_pos f) w;
         Some (if r < 0 then (-1, lib_fail i (- r) vs, w)
               else (r, vs(i := (vs i)\<lparr>v_fds := (fd, f\<lparr>fo_pos := fo_pos f + r\<rparr>) # drop_key fd (v_fds (vs i))\<rparr>), w))
       })"

definition backend_lib :: "'w link \<Rightarrow> nat \<Rightarrow> 'w lworld clib" where
  "backend_lib L i =
     \<lparr>c_mount = lib_mount L i, c_open = lib_open L i, c_close = lib_close L i, c_read = lib_read L i,
      c_write = lib_write L i, c_errno = (\<lambda>(vs, w). v_errno (vs i))\<rparr>"

section \<open>The abstract state\<close>

definition mount_dir :: "byte list" where "mount_dir = ''/hellofs/''"

definition lib_path_ok :: "byte list \<Rightarrow> bool" where
  "lib_path_ok path \<longleftrightarrow> take (length mount_dir) path = mount_dir \<and>
     drop (length mount_dir) path \<noteq> [] \<and> name_ok (drop (length mount_dir) path)"

text \<open>The path on the server of a path of a client, and back.\<close>

definition to_srv :: "byte list \<Rightarrow> byte list" where
  "to_srv path = tmpDir @ drop (length mount_dir) path"

definition to_lib :: "byte list \<Rightarrow> byte list" where
  "to_lib path = mount_dir @ drop (length tmpDir) path"

lemma to_lib_to_srv [simp]: "lib_path_ok path \<Longrightarrow> to_lib (to_srv path) = path"
  unfolding to_lib_def to_srv_def lib_path_ok_def by (metis append_eq_conv_conj append_take_drop_id)

lemma to_srv_inj: "lib_path_ok p \<Longrightarrow> lib_path_ok q \<Longrightarrow> to_srv p = to_srv q \<Longrightarrow> p = q"
  by (metis to_lib_to_srv)

definition lib_vw ::
  "('f \<Rightarrow> byte list \<Rightarrow> byte list option) \<Rightarrow> ('f \<Rightarrow> int \<Rightarrow> (byte list \<times> u32) option) \<Rightarrow>
     'f fs_srv svr lworld \<Rightarrow> lib_view" where
  "lib_vw lookup opened = (\<lambda>(vs, w).
     \<lparr>lv_files = (\<lambda>p. if lib_path_ok p then lookup (fs (obj w)) (to_srv p) else None),
      lv_fdt = (\<lambda>i fd. do {
        f \<leftarrow> map_of (v_fds (vs i)) fd;
        (p, fl) \<leftarrow> opened (fs (obj w)) (fo_fh f);
        Some (to_lib p, nat (fo_pos f), fl)
      }),
      lv_mounted = (\<lambda>i. v_mount (vs i) \<noteq> None),
      lv_errno = (\<lambda>i. v_errno (vs i))\<rparr>)"

text \<open>
  Every open file of a client is open on the server under a handle of its own, and a file system is
  mounted at \<open>/hellofs\<close> only.
\<close>

definition lib_ok :: "('f \<Rightarrow> int \<Rightarrow> (byte list \<times> u32) option) \<Rightarrow> 'f fs_srv svr lworld \<Rightarrow> bool" where
  "lib_ok opened = (\<lambda>(vs, w). fs_ok w \<and>
     (\<forall>i fd f. map_of (v_fds (vs i)) fd = Some f \<longrightarrow>
        0 < fd \<and> 0 \<le> fo_fh f \<and> fo_fh f < 2 ^ 31 \<and> 0 \<le> fo_pos f \<and>
        (\<exists>p fl. lib_path_ok p \<and> opened (fs (obj w)) (fo_fh f) = Some (to_srv p, fl))) \<and>
     (\<forall>i fd f j fd' f'. map_of (v_fds (vs i)) fd = Some f \<longrightarrow> map_of (v_fds (vs j)) fd' = Some f' \<longrightarrow>
        fo_fh f = fo_fh f' \<longrightarrow> i = j \<and> fd = fd') \<and>
     (\<forall>i t d. v_mount (vs i) = Some (t, d) \<longrightarrow> t = ''hellofs''))"

definition lib_creatable :: "('f \<Rightarrow> byte list \<Rightarrow> bool) \<Rightarrow> 'f fs_srv svr lworld \<Rightarrow> byte list \<Rightarrow> bool" where
  "lib_creatable creat = (\<lambda>(vs, w) p. lib_path_ok p \<and> creat (fs (obj w)) (to_srv p))"

definition lib_room :: "('f \<Rightarrow> int) \<Rightarrow> 'f fs_srv svr lworld \<Rightarrow> int" where
  "lib_room room = (\<lambda>(vs, w). room (fs (obj w)))"

section \<open>The contract\<close>

lemma lib_vw_sel [simp]:
  "lv_files (lib_vw lookup opened (vs, w)) p = (if lib_path_ok p then lookup (fs (obj w)) (to_srv p) else None)"
  "lv_mounted (lib_vw lookup opened (vs, w)) i = (v_mount (vs i) \<noteq> None)"
  "lv_errno (lib_vw lookup opened (vs, w)) i = v_errno (vs i)"
  by (simp_all add: lib_vw_def)

lemma lib_okD:
  assumes "lib_ok opened (vs, w)" and "map_of (v_fds (vs i)) fd = Some f"
  shows "fs_ok w" "0 < fd" "0 \<le> fo_fh f" "fo_fh f < 2 ^ 31" "0 \<le> fo_pos f"
    "\<exists>p fl. lib_path_ok p \<and> opened (fs (obj w)) (fo_fh f) = Some (to_srv p, fl)"
  using assms by (auto simp: lib_ok_def)

lemma lib_ok_inj:
  assumes "lib_ok opened (vs, w)" and "map_of (v_fds (vs i)) fd = Some f"
    and "map_of (v_fds (vs j)) fd' = Some f'" and "fo_fh f = fo_fh f'"
  shows "i = j \<and> fd = fd'"
  using assms by (auto simp: lib_ok_def)

text \<open>An entry of the table of open files, and the file it names.\<close>

lemma lib_fdt_Some:
  assumes "lib_ok opened (vs, w)" and "lv_fdt (lib_vw lookup opened (vs, w)) i fd = Some (p, pos, fl)"
  shows "\<exists>f. map_of (v_fds (vs i)) fd = Some f \<and> lib_path_ok p \<and> pos = nat (fo_pos f) \<and>
    opened (fs (obj w)) (fo_fh f) = Some (to_srv p, fl)"
  using assms(2) lib_okD [OF assms(1)]
  by (fastforce simp: lib_vw_def bind_eq_Some_conv)

lemma lib_ok_mount: "lib_ok opened (vs, w) \<Longrightarrow> v_mount (vs i) = Some (t, d) \<Longrightarrow> t = ''hellofs''"
  unfolding lib_ok_def prod.case by blast

lemma lib_name_mounted:
  assumes "lib_ok opened (vs, w)" and "v_mount (vs i) \<noteq> None" and "lib_path_ok p"
  shows "lib_name (vs i) p = Some (drop (length mount_dir) p)"
proof -
  obtain d where d: "v_mount (vs i) = Some (''hellofs'', d)"
    using assms(2) lib_ok_mount [OF assms(1)] by auto
  have m: "''/'' @ ''hellofs'' @ ''/'' = mount_dir" by (simp add: mount_dir_def)
  have "p \<noteq> ''/'' @ ''hellofs''" using assms(3) by (auto simp: lib_path_ok_def mount_dir_def)
  with assms(3) show ?thesis
    unfolding lib_name_def d option.case prod.case Let_def m by (simp add: lib_path_ok_def)
qed

text \<open>A new entry, whose handle was not in use.\<close>

lemma lib_add_entry:
  assumes ok: "lib_ok opened (vs, w)" and w': "fs_ok w'"
    and new: "opened (fs (obj w)) fh = None" "0 \<le> fh" "fh < 2 ^ 31" "lib_path_ok p"
    and op: "opened (fs (obj w')) = (opened (fs (obj w)))(fh \<mapsto> (to_srv p, fl))"
    and fd: "fd = fd_free (map fst (v_fds (vs i)))"
    and vs': "vs' = vs(i := (vs i)\<lparr>v_fds := (fd, \<lparr>fo_fh = fh, fo_pos = 0\<rparr>) # v_fds (vs i)\<rparr>)"
  shows "lib_ok opened (vs', w')"
    and "lv_fdt (lib_vw lookup opened (vs', w')) =
      (let t = lv_fdt (lib_vw lookup opened (vs, w)) in t(i := (t i)(fd \<mapsto> (p, 0, fl))))"
    and "lv_fdt (lib_vw lookup opened (vs, w)) i fd = None"
proof -
  have old: "fo_fh f \<noteq> fh" if "map_of (v_fds (vs j)) fd' = Some f" for j fd' f
    using lib_okD(6) [OF ok that] new(1) by auto
  have free: "map_of (v_fds (vs i)) fd = None" unfolding fd by (rule fd_free_unused)
  have pos: "0 < fd" using fd_free [of "map fst (v_fds (vs i))"] fd by simp
  have m: "map_of (v_fds (vs' j)) k = (if j = i \<and> k = fd then Some \<lparr>fo_fh = fh, fo_pos = 0\<rparr>
      else map_of (v_fds (vs j)) k)" for j k
    using vs' by auto
  show "lv_fdt (lib_vw lookup opened (vs, w)) i fd = None"
    using free by (simp add: lib_vw_def)
  show "lib_ok opened (vs', w')"
    unfolding lib_ok_def prod.case
  proof (intro conjI allI impI)
    fix j k f assume f: "map_of (v_fds (vs' j)) k = Some f"
    show "0 < k" "0 \<le> fo_fh f" "fo_fh f < 2 ^ 31" "0 \<le> fo_pos f"
      "\<exists>p fl. lib_path_ok p \<and> opened (fs (obj w')) (fo_fh f) = Some (to_srv p, fl)"
      using f new pos old [of j k f] lib_okD [OF ok, of j k f] op by (auto simp: m split: if_splits)
  next
    fix j k f j' k' f'
    assume "map_of (v_fds (vs' j)) k = Some f" "map_of (v_fds (vs' j')) k' = Some f'" "fo_fh f = fo_fh f'"
    then show "j = j'" "k = k'"
      using old [of j k f] old [of j' k' f'] lib_ok_inj [OF ok, of j k f j' k' f']
      by (auto simp: m split: if_splits)
  next
    fix j t d assume "v_mount (vs' j) = Some (t, d)"
    then have "v_mount (vs j) = Some (t, d)" using vs' by (auto split: if_splits)
    then show "t = ''hellofs''" by (rule lib_ok_mount [OF ok])
  qed (rule w')
  have "lv_fdt (lib_vw lookup opened (vs', w')) j k =
      (let t = lv_fdt (lib_vw lookup opened (vs, w)) in t(i := (t i)(fd \<mapsto> (p, 0, fl)))) j k" for j k
    using old [of j k] new(4) op
    by (cases "map_of (v_fds (vs j)) k") (auto simp: lib_vw_def m Let_def)
  then show "lv_fdt (lib_vw lookup opened (vs', w')) =
      (let t = lv_fdt (lib_vw lookup opened (vs, w)) in t(i := (t i)(fd \<mapsto> (p, 0, fl))))"
    by blast
qed

text \<open>An entry that goes away together with its handle.\<close>

lemma lib_drop_entry:
  assumes ok: "lib_ok opened (vs, w)" and w': "fs_ok w'" and f: "map_of (v_fds (vs i)) fd = Some f"
    and op: "opened (fs (obj w')) = (opened (fs (obj w)))(fo_fh f := None)"
    and vs': "vs' = vs(i := (vs i)\<lparr>v_fds := drop_key fd (v_fds (vs i))\<rparr>)"
  shows "lib_ok opened (vs', w')"
    and "lv_fdt (lib_vw lookup opened (vs', w')) =
      (let t = lv_fdt (lib_vw lookup opened (vs, w)) in t(i := (t i)(fd := None)))"
proof -
  have m: "map_of (v_fds (vs' j)) k = (if j = i \<and> k = fd then None else map_of (v_fds (vs j)) k)" for j k
    using vs' by (auto simp: map_of_drop_key)
  have other: "fo_fh g \<noteq> fo_fh f" if "map_of (v_fds (vs' j)) k = Some g" for j k g
    using that lib_ok_inj [OF ok f, of j k g] by (auto simp: m split: if_splits)
  show "lib_ok opened (vs', w')"
    unfolding lib_ok_def prod.case
  proof (intro conjI allI impI)
    fix j k g assume g: "map_of (v_fds (vs' j)) k = Some g"
    then have g': "map_of (v_fds (vs j)) k = Some g" by (simp add: m split: if_splits)
    show "0 < k" "0 \<le> fo_fh g" "fo_fh g < 2 ^ 31" "0 \<le> fo_pos g"
      "\<exists>p fl. lib_path_ok p \<and> opened (fs (obj w')) (fo_fh g) = Some (to_srv p, fl)"
      using lib_okD [OF ok g'] other [OF g] op by auto
  next
    fix j k g j' k' g'
    assume "map_of (v_fds (vs' j)) k = Some g" "map_of (v_fds (vs' j')) k' = Some g'" "fo_fh g = fo_fh g'"
    then show "j = j'" "k = k'"
      using lib_ok_inj [OF ok, of j k g j' k' g'] by (auto simp: m split: if_splits)
  next
    fix j t d assume "v_mount (vs' j) = Some (t, d)"
    then have "v_mount (vs j) = Some (t, d)" using vs' by (auto split: if_splits)
    then show "t = ''hellofs''" by (rule lib_ok_mount [OF ok])
  qed (rule w')
  have "lv_fdt (lib_vw lookup opened (vs', w')) j k =
      (let t = lv_fdt (lib_vw lookup opened (vs, w)) in t(i := (t i)(fd := None))) j k" for j k
    using other [of j k] op
    by (cases "map_of (v_fds (vs' j)) k") (auto simp: lib_vw_def m Let_def split: if_splits)
  then show "lv_fdt (lib_vw lookup opened (vs', w')) =
      (let t = lv_fdt (lib_vw lookup opened (vs, w)) in t(i := (t i)(fd := None)))" by blast
qed

text \<open>An entry whose position advances; no handle is opened or closed.\<close>

lemma lib_move_entry:
  assumes ok: "lib_ok opened (vs, w)" and w': "fs_ok w'" and f: "map_of (v_fds (vs i)) fd = Some f"
    and op: "opened (fs (obj w')) = opened (fs (obj w))"
      "opened (fs (obj w)) (fo_fh f) = Some (to_srv p, fl)" "lib_path_ok p"
    and vs': "vs' = vs(i := (vs i)\<lparr>v_fds := (fd, f\<lparr>fo_pos := fo_pos f + int n\<rparr>) # drop_key fd (v_fds (vs i))\<rparr>)"
  shows "lib_ok opened (vs', w')"
    and "lv_fdt (lib_vw lookup opened (vs', w')) =
      (let t = lv_fdt (lib_vw lookup opened (vs, w)) in t(i := (t i)(fd \<mapsto> (p, nat (fo_pos f) + n, fl))))"
proof -
  have m: "map_of (v_fds (vs' j)) k = (if j = i \<and> k = fd then Some (f\<lparr>fo_pos := fo_pos f + int n\<rparr>)
      else map_of (v_fds (vs j)) k)" for j k
    using vs' by (auto simp: map_of_drop_key)
  have old: "\<exists>g'. map_of (v_fds (vs j)) k = Some g' \<and> fo_fh g' = fo_fh g \<and> fo_pos g' \<le> fo_pos g"
    if "map_of (v_fds (vs' j)) k = Some g" for j k g
    using that f by (auto simp: m split: if_splits)
  show "lib_ok opened (vs', w')"
    unfolding lib_ok_def prod.case
  proof (intro conjI allI impI)
    fix j k g assume "map_of (v_fds (vs' j)) k = Some g"
    from old [OF this] obtain g' where g': "map_of (v_fds (vs j)) k = Some g'" "fo_fh g' = fo_fh g"
      "fo_pos g' \<le> fo_pos g" by blast
    show "0 < k" "0 \<le> fo_fh g" "fo_fh g < 2 ^ 31" "0 \<le> fo_pos g"
      "\<exists>p fl. lib_path_ok p \<and> opened (fs (obj w')) (fo_fh g) = Some (to_srv p, fl)"
      using lib_okD [OF ok g'(1)] g'(2,3) op(1) by auto
  next
    fix j k g j' k' g'
    assume "map_of (v_fds (vs' j)) k = Some g" "map_of (v_fds (vs' j')) k' = Some g'" "fo_fh g = fo_fh g'"
    then show "j = j'" "k = k'"
      using old [of j k g] old [of j' k' g'] lib_ok_inj [OF ok, of j k _ j' k'] by fastforce+
  next
    fix j t d assume "v_mount (vs' j) = Some (t, d)"
    then have "v_mount (vs j) = Some (t, d)" using vs' by (auto split: if_splits)
    then show "t = ''hellofs''" by (rule lib_ok_mount [OF ok])
  qed (rule w')
  have pos: "nat (fo_pos f + int n) = nat (fo_pos f) + n" using lib_okD(5) [OF ok f] by simp
  have "lv_fdt (lib_vw lookup opened (vs', w')) j k =
      (let t = lv_fdt (lib_vw lookup opened (vs, w)) in
        t(i := (t i)(fd \<mapsto> (p, nat (fo_pos f) + n, fl)))) j k" for j k
    using op pos by (auto simp: lib_vw_def m Let_def)
  then show "lv_fdt (lib_vw lookup opened (vs', w')) =
      (let t = lv_fdt (lib_vw lookup opened (vs, w)) in t(i := (t i)(fd \<mapsto> (p, nat (fo_pos f) + n, fl))))"
    by blast
qed

text \<open>A call that fails.\<close>

lemma lib_fail_entry:
  assumes ok: "lib_ok opened (vs, w)" and w': "fs_ok w'" and op: "opened (fs (obj w')) = opened (fs (obj w))"
  shows "lib_ok opened (lib_fail i e vs, w')"
    and "lv_fdt (lib_vw lookup opened (lib_fail i e vs, w')) = lv_fdt (lib_vw lookup opened (vs, w))"
    and "lv_mounted (lib_vw lookup opened (lib_fail i e vs, w')) = lv_mounted (lib_vw lookup opened (vs, w))"
    and "lv_errno (lib_vw lookup opened (lib_fail i e vs, w')) =
      (lv_errno (lib_vw lookup opened (vs, w)))(i := e)"
proof -
  have m: "v_fds (lib_fail i e vs j) = v_fds (vs j)" "v_mount (lib_fail i e vs j) = v_mount (vs j)" for j
    by (simp_all add: lib_fail_def)
  show "lib_ok opened (lib_fail i e vs, w')"
    using ok w' unfolding lib_ok_def prod.case m op by blast
  show "lv_fdt (lib_vw lookup opened (lib_fail i e vs, w')) = lv_fdt (lib_vw lookup opened (vs, w))"
    "lv_mounted (lib_vw lookup opened (lib_fail i e vs, w')) = lv_mounted (lib_vw lookup opened (vs, w))"
    by (simp_all add: lib_vw_def m op)
  show "lv_errno (lib_vw lookup opened (lib_fail i e vs, w')) =
      (lv_errno (lib_vw lookup opened (vs, w)))(i := e)"
    by (auto simp: lib_vw_def lib_fail_def)
qed

text \<open>Two views are equal when their parts are.\<close>

lemma view_eqI:
  assumes "lv_files v = lv_files v'" and "lv_fdt v = lv_fdt v'" and "lv_mounted v = lv_mounted v'"
    and "lv_errno v = lv_errno v'"
  shows "(v :: lib_view) = v'"
  using assms by (cases v; cases v') simp

lemma files_upd:
  assumes "lookup (fs (obj w')) = (lookup (fs (obj w)))(to_srv p \<mapsto> d)" and "lib_path_ok p"
  shows "lv_files (lib_vw lookup opened (vs', w')) = (lv_files (lib_vw lookup opened (vs, w)))(p \<mapsto> d)"
  using assms to_srv_inj by (auto simp: fun_eq_iff)

lemma files_same:
  "lookup (fs (obj w')) = lookup (fs (obj w)) \<Longrightarrow>
    lv_files (lib_vw lookup opened (vs', w')) = lv_files (lib_vw lookup opened (vs, w))"
  by (auto simp: fun_eq_iff)

lemma view_rest:
  "(\<And>j. v_mount (vs' j) = v_mount (vs j)) \<Longrightarrow>
    lv_mounted (lib_vw lookup opened (vs', w')) = lv_mounted (lib_vw lookup opened (vs, w))"
  "(\<And>j. v_errno (vs' j) = v_errno (vs j)) \<Longrightarrow>
    lv_errno (lib_vw lookup opened (vs', w')) = lv_errno (lib_vw lookup opened (vs, w))"
  by (simp_all add: fun_eq_iff)

lemma backend_lib_sel [simp]:
  "c_mount (backend_lib L i) = lib_mount L i" "c_open (backend_lib L i) = lib_open L i"
  "c_close (backend_lib L i) = lib_close L i" "c_read (backend_lib L i) = lib_read L i"
  "c_write (backend_lib L i) = lib_write L i" "c_errno (backend_lib L i) (vs, w) = v_errno (vs i)"
  by (simp_all add: backend_lib_def)

lemma lib_path_name:
  assumes "lib_path_ok p"
  shows "name_ok (drop (length mount_dir) p)" "drop (length mount_dir) p \<noteq> []"
    "tmpDir @ drop (length mount_dir) p = to_srv p"
  using assms by (auto simp: lib_path_ok_def to_srv_def)

context posix_paths
begin

lemma lib_open_success:
  assumes ok: "lib_ok opened (vs, w)" and m: "v_mount (vs i) \<noteq> None" and p: "lib_path_ok p"
    and op: "p_open P (to_srv p) fl m (fs (obj w)) = (fh, f')" "0 \<le> fh" "fh < 2 ^ 31"
      "opened (fs (obj w)) fh = None" "opened f' = (opened (fs (obj w)))(fh \<mapsto> (to_srv p, fl))"
      "room f' = room (fs (obj w)) - 1"
    and files: "lv_files v = (\<lambda>q. if lib_path_ok q then lookup f' (to_srv q) else None)"
      "v = (if b then file_upd p [] (lib_vw lookup opened (vs, w)) else lib_vw lookup opened (vs, w))"
  shows "\<exists>fd s'. lib_open (fs_link P) i p fl m (vs, w) = Some (fd, s') \<and> 0 < fd \<and>
    lv_fdt (lib_vw lookup opened (vs, w)) i fd = None \<and> lib_ok opened s' \<and>
    lib_vw lookup opened s' = fdt_upd i fd (Some (p, 0, fl)) v \<and>
    lib_room room (vs, w) - 1 \<le> lib_room room s'"
proof -
  let ?n = "drop (length mount_dir) p" and ?fd = "fd_free (map fst (v_fds (vs i)))"
  note n = lib_path_name [OF p]
  have w: "fs_ok w" using ok by (simp add: lib_ok_def)
  have i32: "i32 fh = fh" using fh_ok_nonneg [OF op(2,3)] by (simp add: fh_ok_def)
  have open1: "p_open P (tmpDir @ ?n) (if ?n = [] then fl OR O_DIRECTORY else fl) m (fs (obj w)) = (fh, f')"
    using op(1) n by simp
  obtain k w' where e: "fd_get_entry (fs_link P) True ?n fl m w = Some (0, Some (k, \<lparr>fo_fh = fh, fo_pos = 0\<rparr>), w')"
    "fs_ok w'" "fs (obj w') = f'"
    using fd_get_entry_fs [OF w n(1) open1] i32 op(2) by auto
  let ?vs = "vs(i := (vs i)\<lparr>v_fds := (?fd, \<lparr>fo_fh = fh, fo_pos = 0\<rparr>) # v_fds (vs i)\<rparr>)"
  have op': "opened (fs (obj w')) = (opened (fs (obj w)))(fh \<mapsto> (to_srv p, fl))" using e(3) op(5) by simp
  note add = lib_add_entry [OF ok e(2) op(4,2,3) p op' refl [of ?fd] refl [of ?vs]]
  have "lib_open (fs_link P) i p fl m (vs, w) = Some (?fd, ?vs, w')"
    using e(1) lib_name_mounted [OF ok m p] by (simp add: lib_open_def Let_def)
  moreover have "lib_vw lookup opened (?vs, w') = fdt_upd i ?fd (Some (p, 0, fl)) v"
  proof (rule view_eqI)
    show "lv_files (lib_vw lookup opened (?vs, w')) = lv_files (fdt_upd i ?fd (Some (p, 0, fl)) v)"
      using files(1) e(3) by (auto simp: fun_eq_iff)
    show "lv_fdt (lib_vw lookup opened (?vs, w')) = lv_fdt (fdt_upd i ?fd (Some (p, 0, fl)) v)"
      using add(2) [of lookup] files(2) by (simp add: Let_def)
    show "lv_mounted (lib_vw lookup opened (?vs, w')) = lv_mounted (fdt_upd i ?fd (Some (p, 0, fl)) v)"
      "lv_errno (lib_vw lookup opened (?vs, w')) = lv_errno (fdt_upd i ?fd (Some (p, 0, fl)) v)"
      using files(2) by (auto simp: fun_eq_iff)
  qed
  moreover have "0 < ?fd" using fd_free [of "map fst (v_fds (vs i))"] by simp
  ultimately show ?thesis using add(1) add(3) [of lookup] e(3) op(6) by (simp add: lib_room_def)
qed

text \<open>The laws of \<open>c_library\<close>, one by one.\<close>

lemma lib_law_mount:
  assumes ok: "lib_ok opened (vs, w)" and room: "0 < lib_room room (vs, w)"
  shows "\<exists>s'. lib_mount (fs_link P) i ''/'' ''hellofs'' ''l4fs'' (vs, w) = Some (0, s') \<and>
    lib_ok opened s' \<and> lib_vw lookup opened s' = mount_upd i (lib_vw lookup opened (vs, w)) \<and>
    lib_creatable creatable s' = lib_creatable creatable (vs, w) \<and>
    lib_room room (vs, w) - 1 \<le> lib_room room s'"
proof -
  have w: "fs_ok w" using ok by (simp add: lib_ok_def)
  have n: "name_ok ''/''" by (simp add: name_ok_def)
  from open_root [of "fs (obj w)"] room obtain fh f' where
    op: "p_open P (tmpDir @ ''/'') O_DIRECTORY 0 (fs (obj w)) = (fh, f')" "0 \<le> fh" "fh < 2 ^ 31"
      "opened (fs (obj w)) fh = None" "opened f' = (opened (fs (obj w)))(fh \<mapsto> (tmpDir @ ''/'', O_DIRECTORY))"
      "room f' = room (fs (obj w)) - 1" "lookup f' = lookup (fs (obj w))"
      "creatable f' = creatable (fs (obj w))"
    by (auto simp: lib_room_def)
  from fs_mount_fs [OF w n op(1-3)] obtain w' where
    w': "fs_mount (fs_link P) 0 0 0 True ''/'' w = Some (0, Some \<lparr>fo_fh = fh, fo_pos = 0\<rparr>, w')"
      "fs_ok w'" "fs (obj w') = f'" by blast
  define vs' where "vs' = vs(i := (vs i)\<lparr>v_mount := Some (''hellofs'', \<lparr>fo_fh = fh, fo_pos = 0\<rparr>)\<rparr>)"
  have m: "v_fds (vs' j) = v_fds (vs j)" "v_errno (vs' j) = v_errno (vs j)" for j
    by (simp_all add: vs'_def)
  have old: "opened (fs (obj w')) (fo_fh f) = opened (fs (obj w)) (fo_fh f)"
    if "map_of (v_fds (vs j)) k = Some f" for j k f
    using lib_okD(6) [OF ok that] op(4,5) w'(3) by auto
  have "lib_ok opened (vs', w')"
    unfolding lib_ok_def prod.case m
  proof (intro conjI allI impI)
    fix j k f assume f: "map_of (v_fds (vs j)) k = Some f"
    show "0 < k" "0 \<le> fo_fh f" "fo_fh f < 2 ^ 31" "0 \<le> fo_pos f"
      "\<exists>p fl. lib_path_ok p \<and> opened (fs (obj w')) (fo_fh f) = Some (to_srv p, fl)"
      using lib_okD [OF ok f] old [OF f] by simp_all
  next
    fix j k f j' k' f'
    assume "map_of (v_fds (vs j)) k = Some f" "map_of (v_fds (vs j')) k' = Some f'" "fo_fh f = fo_fh f'"
    then show "j = j'" "k = k'" using lib_ok_inj [OF ok] by blast+
  next
    fix j t d assume "v_mount (vs' j) = Some (t, d)"
    then show "t = ''hellofs''" using lib_ok_mount [OF ok] by (auto simp: vs'_def split: if_splits)
  qed (rule w')
  moreover have "lib_vw lookup opened (vs', w') = mount_upd i (lib_vw lookup opened (vs, w))"
  proof (rule view_eqI)
    have "lv_fdt (lib_vw lookup opened (vs', w')) j k = lv_fdt (lib_vw lookup opened (vs, w)) j k" for j k
      using old [of j k] by (cases "map_of (v_fds (vs j)) k") (simp_all add: lib_vw_def m)
    then show "lv_fdt (lib_vw lookup opened (vs', w')) = lv_fdt (mount_upd i (lib_vw lookup opened (vs, w)))"
      by (simp add: fun_eq_iff)
  qed (auto simp: fun_eq_iff w'(3) op(7) vs'_def)
  moreover have "lib_mount (fs_link P) i ''/'' ''hellofs'' ''l4fs'' (vs, w) = Some (0, vs', w')"
    using w'(1) by (simp add: lib_mount_def vs'_def)
  ultimately show ?thesis
    using w'(3) op(6,8) by (auto simp: lib_creatable_def lib_room_def fun_eq_iff)
qed

lemma lib_law_close:
  assumes ok: "lib_ok opened (vs, w)" and fd: "lv_fdt (lib_vw lookup opened (vs, w)) i fd = Some x"
  shows "\<exists>s'. lib_close (fs_link P) i fd (vs, w) = Some (0, s') \<and> lib_ok opened s' \<and>
    lib_vw lookup opened s' = fdt_upd i fd None (lib_vw lookup opened (vs, w)) \<and>
    lib_room room (vs, w) + 1 \<le> lib_room room s'"
proof -
  obtain p pos fl where "x = (p, pos, fl)" by (cases x) auto
  with lib_fdt_Some [OF ok] fd obtain f where
    f: "map_of (v_fds (vs i)) fd = Some f" "opened (fs (obj w)) (fo_fh f) = Some (to_srv p, fl)" by blast
  obtain f' where f': "p_close P (fo_fh f) (fs (obj w)) = (0, f')"
    "opened f' = (opened (fs (obj w)))(fo_fh f := None)" "room (fs (obj w)) + 1 \<le> room f'"
    "lookup f' = lookup (fs (obj w))"
    using close_file [OF f(2)] by blast
  from fb_close_fs [OF lib_okD(1,3,4) [OF ok f(1)] f'(1)] obtain w' where
    w': "fb_close (fs_link P) f w = Some (0, f\<lparr>fo_fh := -1\<rparr>, w')" "fs_ok w'" "fs (obj w') = f'"
    by blast
  let ?vs = "vs(i := (vs i)\<lparr>v_fds := drop_key fd (v_fds (vs i))\<rparr>)"
  have op: "opened (fs (obj w')) = (opened (fs (obj w)))(fo_fh f := None)" using f'(2) w'(3) by simp
  note drop = lib_drop_entry [OF ok w'(2) f(1) op refl [of ?vs]]
  have "lib_vw lookup opened (?vs, w') = fdt_upd i fd None (lib_vw lookup opened (vs, w))"
    by (rule view_eqI) (use drop(2) [of lookup] f'(4) w'(3) in \<open>auto simp: fun_eq_iff Let_def\<close>)
  with drop(1) f(1) w' f'(3) show ?thesis by (auto simp: lib_close_def lib_room_def)
qed

lemma lib_law_bad_fd:
  assumes ok: "lib_ok opened (vs, w)" and fd: "fd < 0"
  shows "\<exists>e s'. lib_close (fs_link P) i fd (vs, w) = Some (-1, s') \<and> e \<noteq> 0 \<and> lib_ok opened s' \<and>
    lib_vw lookup opened s' = errno_upd i e (lib_vw lookup opened (vs, w)) \<and>
    lib_room room (vs, w) \<le> lib_room room s'"
proof -
  have "map_of (v_fds (vs i)) fd = None"
    using lib_okD(2) [OF ok, of i fd] fd by (cases "map_of (v_fds (vs i)) fd") auto
  moreover have w: "fs_ok w" using ok by (simp add: lib_ok_def)
  note fail = lib_fail_entry [OF ok w refl]
  moreover have "lib_vw lookup opened (lib_fail i 9 vs, w) = errno_upd i 9 (lib_vw lookup opened (vs, w))"
    by (rule view_eqI) (use fail(2-4) [of lookup i 9] in \<open>simp_all add: files_same\<close>)
  ultimately show ?thesis using fail(1) [of i 9]
    by (intro exI [of _ "9 :: int"] exI [of _ "(lib_fail i 9 vs, w)"]) (simp add: lib_close_def lib_room_def)
qed

lemma lib_law_open_existing:
  assumes ok: "lib_ok opened (vs, w)" and room: "0 < lib_room room (vs, w)"
    and m: "lv_mounted (lib_vw lookup opened (vs, w)) i" and p: "lib_path_ok p"
    and d: "lv_files (lib_vw lookup opened (vs, w)) p = Some d"
    and fl: "fl AND O_DIRECTORY = 0" "fl AND O_CREAT = 0 \<or> fl AND O_EXCL = 0"
  shows "\<exists>fd s'. lib_open (fs_link P) i p fl m (vs, w) = Some (fd, s') \<and> 0 < fd \<and>
    lv_fdt (lib_vw lookup opened (vs, w)) i fd = None \<and> lib_ok opened s' \<and>
    lib_vw lookup opened s' = fdt_upd i fd (Some (p, 0, fl))
      (if fl AND O_TRUNC = 0 then lib_vw lookup opened (vs, w)
       else file_upd p [] (lib_vw lookup opened (vs, w))) \<and>
    lib_room room (vs, w) - 1 \<le> lib_room room s'"
proof -
  let ?b = "fl AND O_TRUNC \<noteq> 0"
  have r: "0 < room (fs (obj w))" and d': "lookup (fs (obj w)) (to_srv p) = Some d"
    and m': "v_mount (vs i) \<noteq> None"
    using room d p m by (simp_all add: lib_room_def)
  from open_existing [OF r d' fl, of m] obtain fh f' where
    op: "p_open P (to_srv p) fl m (fs (obj w)) = (fh, f')" "0 \<le> fh" "fh < 2 ^ 31"
      "opened (fs (obj w)) fh = None" "opened f' = (opened (fs (obj w)))(fh \<mapsto> (to_srv p, fl))"
      "room f' = room (fs (obj w)) - 1"
      "lookup f' = (if ?b then (lookup (fs (obj w)))(to_srv p \<mapsto> []) else lookup (fs (obj w)))"
    by auto
  let ?v = "if ?b then file_upd p [] (lib_vw lookup opened (vs, w)) else lib_vw lookup opened (vs, w)"
  have "lv_files ?v = (\<lambda>q. if lib_path_ok q then lookup f' (to_srv q) else None)"
    using op(7) p to_srv_inj by (auto simp: fun_eq_iff)
  from lib_open_success [OF ok m' p op(1-6) this refl] show ?thesis by (simp split: if_splits)
qed

lemma lib_law_open_new:
  assumes ok: "lib_ok opened (vs, w)" and room: "0 < lib_room room (vs, w)"
    and m: "lv_mounted (lib_vw lookup opened (vs, w)) i" and p: "lib_path_ok p"
    and c: "lib_creatable creatable (vs, w) p" and fl: "fl AND O_DIRECTORY = 0" "fl AND O_CREAT \<noteq> 0"
  shows "\<exists>fd s'. lib_open (fs_link P) i p fl m (vs, w) = Some (fd, s') \<and> 0 < fd \<and>
    lv_fdt (lib_vw lookup opened (vs, w)) i fd = None \<and> lib_ok opened s' \<and>
    lib_vw lookup opened s' = fdt_upd i fd (Some (p, 0, fl)) (file_upd p [] (lib_vw lookup opened (vs, w))) \<and>
    lib_room room (vs, w) - 1 \<le> lib_room room s'"
proof -
  have r: "0 < room (fs (obj w))" and c': "creatable (fs (obj w)) (to_srv p)"
    and m': "v_mount (vs i) \<noteq> None"
    using room c m by (simp_all add: lib_room_def lib_creatable_def)
  from open_new [OF r c' fl, of m] obtain fh f' where
    op: "p_open P (to_srv p) fl m (fs (obj w)) = (fh, f')" "0 \<le> fh" "fh < 2 ^ 31"
      "opened (fs (obj w)) fh = None" "opened f' = (opened (fs (obj w)))(fh \<mapsto> (to_srv p, fl))"
      "room f' = room (fs (obj w)) - 1" "lookup f' = (lookup (fs (obj w)))(to_srv p \<mapsto> [])"
    by auto
  let ?v = "if True then file_upd p [] (lib_vw lookup opened (vs, w)) else lib_vw lookup opened (vs, w)"
  have "lv_files ?v = (\<lambda>q. if lib_path_ok q then lookup f' (to_srv q) else None)"
    using op(7) p to_srv_inj by (auto simp: fun_eq_iff)
  from lib_open_success [OF ok m' p op(1-6) this refl] show ?thesis by simp
qed

lemma lib_law_open_exclusive:
  assumes ok: "lib_ok opened (vs, w)" and room: "0 < lib_room room (vs, w)"
    and m: "lv_mounted (lib_vw lookup opened (vs, w)) i" and p: "lib_path_ok p"
    and d: "lv_files (lib_vw lookup opened (vs, w)) p = Some d"
    and fl: "fl AND O_DIRECTORY = 0" "fl AND O_CREAT \<noteq> 0" "fl AND O_EXCL \<noteq> 0"
  shows "\<exists>e s'. lib_open (fs_link P) i p fl m (vs, w) = Some (-1, s') \<and> e \<noteq> 0 \<and> lib_ok opened s' \<and>
    lib_vw lookup opened s' = errno_upd i e (lib_vw lookup opened (vs, w)) \<and>
    lib_room room (vs, w) \<le> lib_room room s'"
proof -
  note n = lib_path_name [OF p]
  let ?n = "drop (length mount_dir) p"
  have w: "fs_ok w" using ok by (simp add: lib_ok_def)
  have r: "0 < room (fs (obj w))" and d': "lookup (fs (obj w)) (to_srv p) = Some d"
    and m': "v_mount (vs i) \<noteq> None"
    using room d p m by (simp_all add: lib_room_def)
  from open_exclusive [OF r d' fl, of m] obtain f' where
    op: "p_open P (to_srv p) fl m (fs (obj w)) = (-1, f')" "opened f' = opened (fs (obj w))"
      "room f' = room (fs (obj w))" "lookup f' = lookup (fs (obj w))" by blast
  have open1: "p_open P (tmpDir @ ?n) (if ?n = [] then fl OR O_DIRECTORY else fl) m (fs (obj w)) = (-1, f')"
    using op(1) n by simp
  have "i32 (-1) = -1" by (intro i32_id) simp_all
  with fd_get_entry_fs [OF w n(1) open1] obtain w' where
    e: "fd_get_entry (fs_link P) True ?n fl m w = Some (-1, None, w')" "fs_ok w'" "fs (obj w') = f'"
    by auto
  have "opened (fs (obj w')) = opened (fs (obj w))" using e(3) op(2) by simp
  note fail = lib_fail_entry [OF ok e(2) this]
  have "lookup (fs (obj w')) = lookup (fs (obj w))" using e(3) op(4) by simp
  note same = files_same [of lookup w' w, OF this]
  have "lib_vw lookup opened (lib_fail i 1 vs, w') = errno_upd i 1 (lib_vw lookup opened (vs, w))"
    by (rule view_eqI) (use fail(2-4) [of lookup i 1] in \<open>simp_all add: same\<close>)
  moreover have "lib_open (fs_link P) i p fl m (vs, w) = Some (-1, lib_fail i 1 vs, w')"
    using e(1) lib_name_mounted [OF ok m' p] by (simp add: lib_open_def)
  ultimately show ?thesis using fail(1) [of i 1] e(3) op(3)
    by (intro exI [of _ "1 :: int"] exI [of _ "(lib_fail i 1 vs, w')"]) (simp add: lib_room_def)
qed

lemma lib_law_read:
  assumes ok: "lib_ok opened (vs, w)" and fd: "lv_fdt (lib_vw lookup opened (vs, w)) i fd = Some (p, pos, fl)"
    and d: "lv_files (lib_vw lookup opened (vs, w)) p = Some d" and n: "n \<le> 4096" "length d < 2 ^ 31"
    and pos: "pos \<le> length d" and bs: "bs = take n (drop pos d)"
  shows "\<exists>s'. lib_read (fs_link P) i fd n (vs, w) = Some (int (length bs), bs, s') \<and> lib_ok opened s' \<and>
    lib_vw lookup opened s' = fdt_upd i fd (Some (p, pos + length bs, fl)) (lib_vw lookup opened (vs, w)) \<and>
    lib_room room (vs, w) \<le> lib_room room s'"
proof -
  from lib_fdt_Some [OF ok fd] obtain f where f: "map_of (v_fds (vs i)) fd = Some f" "lib_path_ok p"
    "pos = nat (fo_pos f)" "opened (fs (obj w)) (fo_fh f) = Some (to_srv p, fl)" by blast
  note k = lib_okD [OF ok f(1)]
  have "Option.bind (opened (fs (obj w)) (fo_fh f)) (\<lambda>(p, fl). lookup (fs (obj w)) p) = Some d"
    using f(2,4) d by simp
  from pread_file [OF this k(5), of n] obtain f' where
    rd: "p_pread P (fo_fh f) n (fo_pos f) (fs (obj w)) = (int (length bs), bs, f')"
    using bs f(3) by auto
  note frame = pread_frame [OF rd]
  have "length bs \<le> 4096" using n(1) bs by simp
  then have x: "fo_pos f + int (length bs) < 2 ^ 63" using n(2) pos f(3) k(5) by simp
  have "n \<le> Max_rw_buffer_size" "length bs \<le> n" using n(1) bs by (simp_all add: Max_rw_buffer_size_val)
  from ff_preadv_fs [OF k(1,3,4,5) x this rd] obtain b w' where
    w': "ff_preadv (fs_link P) f [mzero n] (fo_pos f) w = Some (int (length bs), [b], w')"
      "mread b 0 (length bs) = Some bs" "fs_ok w'" "fs (obj w') = f'" by blast
  let ?vs = "vs(i := (vs i)\<lparr>v_fds := (fd, f\<lparr>fo_pos := fo_pos f + int (length bs)\<rparr>) # drop_key fd (v_fds (vs i))\<rparr>)"
  have "opened (fs (obj w')) = opened (fs (obj w))" using w'(4) frame by simp
  note mv = lib_move_entry [OF ok w'(3) f(1) this f(4,2) refl [of ?vs]]
  have "lookup (fs (obj w')) = lookup (fs (obj w))" using w'(4) frame by simp
  note same = files_same [of lookup w' w, OF this]
  have "lib_vw lookup opened (?vs, w') =
      fdt_upd i fd (Some (p, pos + length bs, fl)) (lib_vw lookup opened (vs, w))"
    by (rule view_eqI) (use mv(2) [of lookup] f(3) in \<open>auto simp: same Let_def intro!: view_rest\<close>)
  moreover have "lib_read (fs_link P) i fd n (vs, w) = Some (int (length bs), bs, ?vs, w')"
    using f(1) w'(1,2) by (simp add: lib_read_def)
  ultimately show ?thesis using mv(1) w'(4) frame by (auto simp: lib_room_def)
qed

lemma lib_law_write:
  assumes ok: "lib_ok opened (vs, w)" and fd: "lv_fdt (lib_vw lookup opened (vs, w)) i fd = Some (p, pos, fl)"
    and fl: "fl AND O_RDWR \<noteq> 0" and d: "lv_files (lib_vw lookup opened (vs, w)) p = Some d"
    and n: "length bs \<le> 4096" "length d < 2 ^ 31" and pos: "pos \<le> length d"
  shows "\<exists>s'. lib_write (fs_link P) i fd bs (vs, w) = Some (int (length bs), s') \<and> lib_ok opened s' \<and>
    lib_vw lookup opened s' = fdt_upd i fd (Some (p, pos + length bs, fl))
      (file_upd p (overwrite d pos bs) (lib_vw lookup opened (vs, w))) \<and>
    lib_room room (vs, w) \<le> lib_room room s'"
proof -
  from lib_fdt_Some [OF ok fd] obtain f where f: "map_of (v_fds (vs i)) fd = Some f" "lib_path_ok p"
    "pos = nat (fo_pos f)" "opened (fs (obj w)) (fo_fh f) = Some (to_srv p, fl)" by blast
  note k = lib_okD [OF ok f(1)]
  have "lookup (fs (obj w)) (to_srv p) = Some d" using f(2) d by simp
  from pwrite_all [OF f(4) fl this k(5), of bs] obtain f' where
    wr: "p_pwrite P (fo_fh f) bs (fo_pos f) (fs (obj w)) = (int (length bs), f')"
      "opened f' = opened (fs (obj w))" "room f' = room (fs (obj w))"
      "lookup f' = (lookup (fs (obj w)))(to_srv p \<mapsto> overwrite d pos bs)"
    using f(3) by blast
  have x: "fo_pos f + int (length bs) < 2 ^ 63" using n pos f(3) k(5) by simp
  have "length bs \<le> Max_rw_buffer_size" using n(1) by (simp add: Max_rw_buffer_size_val)
  from ff_pwritev_fs [OF k(1,3,4,5) x this wr(1)] obtain w' where
    w': "ff_pwritev (fs_link P) f [bs] (fo_pos f) w = Some (int (length bs), w')" "fs_ok w'"
      "fs (obj w') = f'" by blast
  let ?vs = "vs(i := (vs i)\<lparr>v_fds := (fd, f\<lparr>fo_pos := fo_pos f + int (length bs)\<rparr>) # drop_key fd (v_fds (vs i))\<rparr>)"
  have "opened (fs (obj w')) = opened (fs (obj w))" using w'(3) wr(2) by simp
  note mv = lib_move_entry [OF ok w'(2) f(1) this f(4,2) refl [of ?vs]]
  have "lookup (fs (obj w')) = (lookup (fs (obj w)))(to_srv p \<mapsto> overwrite d pos bs)"
    using w'(3) wr(4) by simp
  note upd = files_upd [of lookup w' w, OF this f(2)]
  have "lib_vw lookup opened (?vs, w') = fdt_upd i fd (Some (p, pos + length bs, fl))
      (file_upd p (overwrite d pos bs) (lib_vw lookup opened (vs, w)))"
    by (rule view_eqI) (use mv(2) [of lookup, folded f(3)] in \<open>auto simp: upd Let_def intro!: view_rest\<close>)
  moreover have "lib_write (fs_link P) i fd bs (vs, w) = Some (int (length bs), ?vs, w')"
    using f(1) w'(1) by (simp add: lib_write_def)
  ultimately show ?thesis using mv(1) w'(3) wr(3) by (auto simp: lib_room_def)
qed

lemmas lib_laws =
  lib_law_mount [where vs = "fst s" and w = "snd s" for s, unfolded prod.collapse]
  lib_law_open_existing [where vs = "fst s" and w = "snd s" for s, unfolded prod.collapse]
  lib_law_open_new [where vs = "fst s" and w = "snd s" for s, unfolded prod.collapse]
  lib_law_open_exclusive [where vs = "fst s" and w = "snd s" for s, unfolded prod.collapse]
  lib_law_close [where vs = "fst s" and w = "snd s" for s, unfolded prod.collapse]
  lib_law_bad_fd [where vs = "fst s" and w = "snd s" for s, unfolded prod.collapse]
  lib_law_read [where vs = "fst s" and w = "snd s" for s, unfolded prod.collapse]
  lib_law_write [where vs = "fst s" and w = "snd s" for s, unfolded prod.collapse]

end

sublocale posix_paths \<subseteq> lib: c_library "backend_lib (fs_link P)" "lib_ok opened" "lib_vw lookup opened"
    "lib_creatable creatable" "lib_room room" lib_path_ok
proof (unfold_locales, unfold backend_lib_sel)
  fix s i
  show "c_errno (backend_lib (fs_link P) i) s = lv_errno (lib_vw lookup opened s) i"
    by (cases s) simp
qed (erule (7) lib_laws | erule (6) lib_laws | erule (1) lib_laws | rule lib_laws; assumption)+

context posix_paths
begin

lemmas fstest_alone = lib.fstest_alone
lemmas fstest_file_exists = lib.fstest_file_exists
lemmas both_tests = lib.both_tests
lemmas print_file_reads = lib.print_file_reads

end

end
