(* ===== verification/Test_Properties.thy ===== *)
theory Test_Properties
  imports Ref_Clib Fs_Properties
begin

text \<open>
  The properties of the test programs: what they print and leave behind when they run through the
  C library, the backend, the stubs and the dispatcher on the file server, over any file system that
  keeps the laws of \<open>posix_paths\<close>.
\<close>

text \<open>The processes have just started, and so has the server.\<close>

definition lib_start :: "'f fs_srv \<Rightarrow> 'f fs_srv svr lworld" where
  "lib_start o1 = (\<lambda>_. vfs0, svr_start o1)"

lemma lib_start_ok:
  assumes "fs_srv_new junk True f = Some o1"
  shows "lib_ok opened (lib_start o1)" "lib_room room (lib_start o1) = room f"
    "lv_errno (lib_vw lookup opened (lib_start o1)) i = 0"
    "lib_creatable creat (lib_start o1) p \<longleftrightarrow> lib_path_ok p \<and> creat f (to_srv p)"
    "lv_files (lib_vw lookup opened (lib_start o1)) p = (if lib_path_ok p then lookup f (to_srv p) else None)"
  using fs_srv_new_inv [OF assms]
  by (simp_all add: lib_start_def lib_ok_def lib_room_def lib_creatable_def vfs0_def fs_ok_def
      svr_start_def [of o1])
    (simp_all add: svr_wf_def mzero_def)

lemma test_path [simp]: "lib_path_ok mytestfile" "to_srv mytestfile = ''/tmp/mytestfile''"
  by (simp_all add: lib_path_ok_def mytestfile_def mount_dir_def to_srv_def tmpDir_def name_ok_def)

lemma lib_path_of_name:
  assumes "name_ok n" and "n \<noteq> []"
  shows "lib_path_ok (mount_dir @ n)" "to_srv (mount_dir @ n) = tmpDir @ n"
    "mount_dir @ n = mytestfile \<longleftrightarrow> n = ''mytestfile''"
  using assms by (simp_all add: lib_path_ok_def to_srv_def mount_dir_def mytestfile_def)

text \<open>From the view of a client to the files of the server.\<close>

lemma server_files:
  assumes "lv_files (lib_vw lookup opened (vs, w)) = (lv_files (lib_vw lookup opened s))(mytestfile := d)"
    and "\<And>p. lv_files (lib_vw lookup opened s) p = (if lib_path_ok p then lookup f (to_srv p) else None)"
    and "name_ok n" and "n \<noteq> []"
  shows "lookup (fs (obj w)) (tmpDir @ n) = (if n = ''mytestfile'' then d else lookup f (tmpDir @ n))"
  using fun_cong [OF assms(1), of "mount_dir @ n"] assms(2) lib_path_of_name [OF assms(3,4)]
  by (simp split: if_splits)

text \<open>C12: \<open>fstest\<close>, run alone through the whole stack. If nothing is at \<open>/tmp/mytestfile\<close> it returns 0, has printed
  its text twice, and the file holds the text with its terminator; no other file has changed. If the
  file exists it returns 1, prints nothing and changes no file.\<close>

theorem fstest_end_to_end:
  assumes P: "posix_paths P lookup opened creatable room"
    and o1: "fs_srv_new junk True f = Some o1" and room: "1 < room f"
  shows "(creatable f ''/tmp/mytestfile'' \<longrightarrow>
      (\<exists>p vs w. run_test (fstest (backend_lib (fs_link P) i)) junk2 (lib_start o1) = Some (p, vs, w) \<and>
        tp_exit p = Some (Exit 0) \<and> tp_out p = hello_text @ newline @ hello_text @ newline \<and>
        (\<forall>n. name_ok n \<longrightarrow> n \<noteq> [] \<longrightarrow> lookup (fs (obj w)) (tmpDir @ n) =
          (if n = ''mytestfile'' then Some (hello_text @ [NUL]) else lookup f (tmpDir @ n))))) \<and>
    (lookup f ''/tmp/mytestfile'' \<noteq> None \<longrightarrow>
      (\<exists>p vs w. run_test (fstest (backend_lib (fs_link P) i)) junk2 (lib_start o1) = Some (p, vs, w) \<and>
        tp_exit p = Some (Exit 1) \<and> tp_out p = [] \<and>
        (\<forall>n. name_ok n \<longrightarrow> n \<noteq> [] \<longrightarrow> lookup (fs (obj w)) (tmpDir @ n) = lookup f (tmpDir @ n))))"
proof (intro conjI impI)
  note start = lib_start_ok [OF o1]
  have room': "1 < lib_room room (lib_start o1)" using room start(2) by simp
  {
    assume "creatable f ''/tmp/mytestfile''"
    then have c: "lib_creatable creatable (lib_start o1) mytestfile" using start(4) by simp
    from posix_paths.fstest_alone [OF P start(1) room' test_path(1) c start(3)] obtain p vs w where
      r: "run_test (fstest (backend_lib (fs_link P) i)) junk2 (lib_start o1) = Some (p, vs, w)"
        "tp_exit p = Some (Exit 0)" "tp_out p = hello_text @ newline @ hello_text @ newline"
        "lv_files (lib_vw lookup opened (vs, w)) =
          (lv_files (lib_vw lookup opened (lib_start o1)))(mytestfile \<mapsto> hello_text @ [NUL])"
      by fastforce
    with server_files [OF r(4) start(5)]
    show "\<exists>p vs w. run_test (fstest (backend_lib (fs_link P) i)) junk2 (lib_start o1) = Some (p, vs, w) \<and>
        tp_exit p = Some (Exit 0) \<and> tp_out p = hello_text @ newline @ hello_text @ newline \<and>
        (\<forall>n. name_ok n \<longrightarrow> n \<noteq> [] \<longrightarrow> lookup (fs (obj w)) (tmpDir @ n) =
          (if n = ''mytestfile'' then Some (hello_text @ [NUL]) else lookup f (tmpDir @ n)))"
      by blast
  next
    assume "lookup f ''/tmp/mytestfile'' \<noteq> None"
    then obtain d where d: "lookup f ''/tmp/mytestfile'' = Some d" by blast
    then have "lv_files (lib_vw lookup opened (lib_start o1)) mytestfile = Some d" using start(5) by simp
    from posix_paths.fstest_file_exists [OF P start(1) room' test_path(1) start(3) this]
    obtain p vs w where
      r: "run_test (fstest (backend_lib (fs_link P) i)) junk2 (lib_start o1) = Some (p, vs, w)"
        "tp_exit p = Some (Exit 1)" "tp_out p = []"
        "lv_files (lib_vw lookup opened (vs, w)) = lv_files (lib_vw lookup opened (lib_start o1))"
      by fastforce
    have "lv_files (lib_vw lookup opened (vs, w)) =
        (lv_files (lib_vw lookup opened (lib_start o1)))(mytestfile := Some d)"
      using r(4) start(5) d by (simp add: fun_upd_idem)
    from server_files [OF this start(5)] d
    have "\<forall>n. name_ok n \<longrightarrow> n \<noteq> [] \<longrightarrow> lookup (fs (obj w)) (tmpDir @ n) = lookup f (tmpDir @ n)"
      by (auto simp: tmpDir_def)
    with r(1-3)
    show "\<exists>p vs w. run_test (fstest (backend_lib (fs_link P) i)) junk2 (lib_start o1) = Some (p, vs, w) \<and>
        tp_exit p = Some (Exit 1) \<and> tp_out p = [] \<and>
        (\<forall>n. name_ok n \<longrightarrow> n \<noteq> [] \<longrightarrow> lookup (fs (obj w)) (tmpDir @ n) = lookup f (tmpDir @ n))"
      by blast
  }
qed

lemma fstest_end_to_end_witness:
  "\<exists>o1 p vs w. fs_srv_new (\<lambda>_. NUL) True ref_empty = Some o1 \<and>
    run_test (fstest (backend_lib (fs_link ref_posix) 0)) (\<lambda>_. CHR ''x'') (lib_start o1) = Some (p, vs, w) \<and>
    tp_exit p = Some (Exit 0) \<and> tp_out p = hello_text @ newline @ hello_text @ newline"
proof -
  obtain o1 where o1: "fs_srv_new (\<lambda>_. NUL) True ref_empty = Some o1"
    using fs_srv_new_total [of "\<lambda>_. NUL" True ref_empty] by blast
  have "1 < ref_room ref_empty" by (simp add: ref_room_def ref_empty_def)
  moreover have "ref_creatable ref_empty ''/tmp/mytestfile''"
    by (simp add: ref_creatable_def ref_empty_def ref_lookup_def ref_is_dir_def tmpDir_def)
  ultimately show ?thesis
    using fstest_end_to_end [OF ref_paths.posix_paths_axioms o1, of 0 "\<lambda>_. CHR ''x''"] o1 by blast
qed

text \<open>C13: \<open>fstest\<close> and \<open>fstest2\<close> started together, as the configuration does it, on a server without the test file:
  both return 0, but the text of \<open>fstest\<close> is never read back. Where it reads its file it finds it
  truncated by \<open>fstest2\<close>, and the next time the text of \<open>fstest2\<close> is there.\<close>

theorem tests_interfere:
  assumes P: "posix_paths P lookup opened creatable room"
    and o1: "fs_srv_new junk True f = Some o1" and room: "2 < room f"
    and c: "creatable f ''/tmp/mytestfile''"
  shows "\<exists>p q vs w. run_both (fstest (backend_lib (fs_link P) i)) (fstest2 (backend_lib (fs_link P) j))
      junk1 junk2 (lib_start o1) = Some (p, q, vs, w) \<and>
    tp_exit p = Some (Exit 0) \<and> tp_out p = newline @ foobar_text @ newline \<and>
    tp_exit q = Some (Exit 0) \<and> tp_out q = newline @ foobar_text @ newline \<and>
    (\<forall>n. name_ok n \<longrightarrow> n \<noteq> [] \<longrightarrow> lookup (fs (obj w)) (tmpDir @ n) =
      (if n = ''mytestfile'' then Some (foobar_text @ [NUL]) else lookup f (tmpDir @ n)))"
proof -
  note start = lib_start_ok [OF o1]
  have room': "2 < lib_room room (lib_start o1)" using room start(2) by simp
  have c': "lib_creatable creatable (lib_start o1) mytestfile" using c start(4) by simp
  from posix_paths.both_tests [OF P start(1) room' test_path(1) c' start(3,3)] obtain p q vs w where
    r: "run_both (fstest (backend_lib (fs_link P) i)) (fstest2 (backend_lib (fs_link P) j))
        junk1 junk2 (lib_start o1) = Some (p, q, vs, w)"
      "tp_exit p = Some (Exit 0)" "tp_out p = newline @ foobar_text @ newline"
      "tp_exit q = Some (Exit 0)" "tp_out q = newline @ foobar_text @ newline"
      "lv_files (lib_vw lookup opened (vs, w)) =
        (lv_files (lib_vw lookup opened (lib_start o1)))(mytestfile \<mapsto> foobar_text @ [NUL])"
    by fastforce
  with server_files [OF r(6) start(5)] show ?thesis by blast
qed

lemma tests_interfere_witness:
  "\<exists>o1 p q vs w. fs_srv_new (\<lambda>_. NUL) True ref_empty = Some o1 \<and>
    run_both (fstest (backend_lib (fs_link ref_posix) 0)) (fstest2 (backend_lib (fs_link ref_posix) 1))
      (\<lambda>_. NUL) (\<lambda>_. CHR ''x'') (lib_start o1) = Some (p, q, vs, w) \<and>
    tp_out p = newline @ foobar_text @ newline"
proof -
  obtain o1 where o1: "fs_srv_new (\<lambda>_. NUL) True ref_empty = Some o1"
    using fs_srv_new_total [of "\<lambda>_. NUL" True ref_empty] by blast
  have "2 < ref_room ref_empty" by (simp add: ref_room_def ref_empty_def)
  moreover have "ref_creatable ref_empty ''/tmp/mytestfile''"
    by (simp add: ref_creatable_def ref_empty_def ref_lookup_def ref_is_dir_def tmpDir_def)
  ultimately show ?thesis
    using tests_interfere [OF ref_paths.posix_paths_axioms o1, of 0 1 "\<lambda>_. NUL" "\<lambda>_. CHR ''x''"] o1
    by blast
qed

text \<open>C14: the loop that prints a file ends, whatever the file holds, and prints the file block by block, each block up to
  its first terminator. A text of less than 255 bytes that was written with its terminator is
  printed as it is. Of a longer file without terminators the last block is followed by what the
  buffer still holds of the one before.\<close>

theorem print_file_shows:
  assumes P: "posix_paths P lookup opened creatable room" and ok: "lib_ok opened s"
    and fd: "lv_fdt (lib_vw lookup opened s) i (tp_fd p) = Some (path, pos, fl)"
    and d: "lv_files (lib_vw lookup opened s) path = Some d" "length d < 2 ^ 31" "pos \<le> length d"
    and b: "msize (tp_rbuf p) = 256"
  shows "\<exists>b' s'. print_file (backend_lib (fs_link P) i) p s =
      Some (p\<lparr>tp_rbuf := b', tp_out := tp_out p @ printed (tp_rbuf p) (drop pos d)\<rparr>, s') \<and>
    lv_files (lib_vw lookup opened s') = lv_files (lib_vw lookup opened s) \<and>
    (\<forall>str. d = str @ [NUL] \<longrightarrow> NUL \<notin> set str \<longrightarrow> length str < 255 \<longrightarrow> printed (tp_rbuf p) d = str) \<and>
    (NUL \<notin> set d \<longrightarrow> 255 < length d \<longrightarrow> length d < 510 \<longrightarrow>
      printed (tp_rbuf p) d = d @ drop (length d - 255) (take 255 d))"
proof -
  from posix_paths.print_file_reads [OF P ok fd d(1,3,2) b] obtain b' s' where
    "print_file (backend_lib (fs_link P) i) p s =
      Some (p\<lparr>tp_rbuf := b', tp_out := tp_out p @ printed (tp_rbuf p) (drop pos d)\<rparr>, s')"
    "lib_vw lookup opened s' = fdt_upd i (tp_fd p) (Some (path, length d, fl)) (lib_vw lookup opened s)"
    by blast
  then show ?thesis
    by (intro exI [of _ b'] exI [of _ s'] conjI allI impI)
      (simp_all add: printed_text b printed_stale [OF _ _ _ b])
qed

lemma print_file_shows_witness:
  "\<exists>b' s'. print_file (backend_lib (fs_link ref_posix) 0) ((tproc0 (\<lambda>_. NUL))\<lparr>tp_fd := 5\<rparr>)
      ((\<lambda>_. vfs0)(0 := vfs0\<lparr>v_fds := [(5, \<lparr>fo_fh = 3, fo_pos = 0\<rparr>)]\<rparr>), demo_w) =
    Some ((tproc0 (\<lambda>_. NUL))\<lparr>tp_fd := 5, tp_rbuf := b',
      tp_out := printed (tp_rbuf (tproc0 (\<lambda>_. NUL))) ''content''\<rparr>, s')"
proof -
  let ?s = "((\<lambda>_. vfs0)(0 := vfs0\<lparr>v_fds := [(5, \<lparr>fo_fh = 3, fo_pos = 0\<rparr>)]\<rparr>), demo_w)"
    and ?p = "(tproc0 (\<lambda>_. NUL))\<lparr>tp_fd := 5\<rparr>"
  have path: "lib_path_ok ''/hellofs/f''" "to_srv ''/hellofs/f'' = ''/tmp/f''" "to_lib ''/tmp/f'' = ''/hellofs/f''"
    by (simp_all add: lib_path_ok_def to_srv_def to_lib_def mount_dir_def name_ok_def tmpDir_def)
  have op: "ref_opened (fs (obj demo_w)) 3 = Some (''/tmp/f'', O_RDWR)"
    "ref_lookup (fs (obj demo_w)) ''/tmp/f'' = Some ''content''"
    by (simp_all add: demo_ok demo_obj_def demo_fs_def ref_opened_def ref_lookup_def ref_is_dir_def tmpDir_def)
  have m: "map_of (v_fds (((\<lambda>_. vfs0)(0 := vfs0\<lparr>v_fds := [(5, \<lparr>fo_fh = 3, fo_pos = 0\<rparr>)]\<rparr>)) j)) k =
      (if j = 0 \<and> k = 5 then Some \<lparr>fo_fh = 3, fo_pos = 0\<rparr> else None)" for j :: nat and k :: int
    by (simp add: vfs0_def)
  have nm: "v_mount (((\<lambda>_. vfs0)(0 := vfs0\<lparr>v_fds := [(5, \<lparr>fo_fh = 3, fo_pos = 0\<rparr>)]\<rparr>)) (j :: nat)) = None" for j
    by (simp add: vfs0_def)
  have ok: "lib_ok ref_opened ?s"
    unfolding lib_ok_def prod.case m nm using demo_ok(1) op path by (auto split: if_splits)
  have fd: "lv_fdt (lib_vw ref_lookup ref_opened ?s) 0 (tp_fd ?p) = Some (''/hellofs/f'', 0, O_RDWR)"
    using op path by (simp add: lib_vw_def)
  have d: "lv_files (lib_vw ref_lookup ref_opened ?s) ''/hellofs/f'' = Some ''content''"
    using op path by simp
  from print_file_shows [OF ref_paths.posix_paths_axioms ok fd d] show ?thesis by auto
qed

end
