(* ===== verification/Tcp_Socket.thy ===== *)
theory Tcp_Socket
  imports Prelude
begin

text \<open>
  The stream helpers of dom0-main (server/src/tcp_socket.cc): \<open>receiveData\<close>, \<open>sendData\<close> and the two
  functions for 32-bit integers.

  A socket is a script of what its \<open>read\<close> and \<open>write\<close> calls will do: the pieces in which the bytes
  of the peer arrive, ended by the end of the stream or an error, and how many bytes each \<open>write\<close>
  takes. Every sequence of results the two calls can give is such a script. The thread's \<open>errno\<close> is
  kept with the socket. The positions in the loops are bounded by the size of the buffer, so their
  32 bits suffice.
\<close>

section \<open>Sockets\<close>

datatype rx_event = Chunk "byte list" | Rx_error nat

datatype wr_event = Accept nat | Wr_error nat

record sock =
  sk_rx :: "rx_event list"
  sk_wr :: "wr_event list"
  sk_tx :: "byte list"
  sk_errno :: nat

text \<open>
  \<open>read(fd, buf, n)\<close>: result, bytes stored, new state. An empty script is the end of the stream; a
  read of no bytes returns 0 and takes nothing.
\<close>

fun sock_read :: "nat \<Rightarrow> sock \<Rightarrow> int \<times> byte list \<times> sock" where
  "sock_read n s =
     (if n = 0 then (0, [], s)
      else case sk_rx s of
        [] \<Rightarrow> (0, [], s)
      | Rx_error e # r \<Rightarrow> (-1, [], s\<lparr>sk_rx := r, sk_errno := e\<rparr>)
      | Chunk bs # r \<Rightarrow>
          (int (length (take n bs)), take n bs,
           s\<lparr>sk_rx := (if length bs \<le> n then r else Chunk (drop n bs) # r)\<rparr>))"

text \<open>\<open>write(fd, bs, length bs)\<close>; when the script is used up everything is taken.\<close>

fun sock_write :: "byte list \<Rightarrow> sock \<Rightarrow> int \<times> sock" where
  "sock_write bs s =
     (case sk_wr s of
        [] \<Rightarrow> (int (length bs), s\<lparr>sk_tx := sk_tx s @ bs\<rparr>)
      | Wr_error e # r \<Rightarrow> (-1, s\<lparr>sk_wr := r, sk_errno := e\<rparr>)
      | Accept k # r \<Rightarrow>
          (int (length (take k bs)), s\<lparr>sk_wr := r, sk_tx := sk_tx s @ take k bs\<rparr>))"

section \<open>The helpers\<close>

text \<open>The body of the \<open>do\<close> loop of \<open>receiveData\<close> and the loop itself.\<close>

function receive_loop :: "membuf \<Rightarrow> nat \<Rightarrow> nat \<Rightarrow> sock \<Rightarrow> (int \<times> membuf \<times> sock) option" where
  "receive_loop data position sz s =
     (case sock_read (sz - position) s of (result, bs, s) \<Rightarrow>
        if result < 1 then Some (- int (sk_errno s), data, s)
        else (case mwrite data position bs of
            None \<Rightarrow> None
          | Some data \<Rightarrow>
              if position + length bs < sz then receive_loop data (position + length bs) sz s
              else Some (int (position + length bs), data, s)))"
  by pat_completeness auto
termination
  by (relation "measure (\<lambda>(data, position, sz, s). sz - position)")
    (auto split: if_splits list.splits rx_event.splits intro!: diff_less_mono2)

declare receive_loop.simps [simp del]

definition receiveData :: "membuf \<Rightarrow> nat \<Rightarrow> sock \<Rightarrow> (int \<times> membuf \<times> sock) option" where
  "receiveData data sz s = receive_loop data 0 sz s"

text \<open>The reference parameter \<open>data\<close> is the four bytes of an \<open>int32_t\<close> object.\<close>

definition receiveInt32_t :: "u32 \<Rightarrow> sock \<Rightarrow> (int \<times> u32 \<times> sock) option" where
  "receiveInt32_t data s = do {
     d \<leftarrow> mwrite (mzero 4) 0 (enc32 data);
     (r, d, s) \<leftarrow> receiveData d 4 s;
     bs \<leftarrow> mread d 0 4;
     Some (r, dec32 bs, s)
   }"

function send_loop :: "byte list \<Rightarrow> nat \<Rightarrow> sock \<Rightarrow> int \<times> sock" where
  "send_loop data position s =
     (case sock_write (drop position data) s of (result, s) \<Rightarrow>
        if result < 1 then (- int (sk_errno s), s)
        else if position + nat result < length data then send_loop data (position + nat result) s
        else (int (position + nat result), s))"
  by pat_completeness auto
termination
  by (relation "measure (\<lambda>(data, position, s). length data - position)") auto

declare send_loop.simps [simp del]

text \<open>The \<open>size\<close> bytes at \<open>data\<close>.\<close>

definition sendData :: "byte list \<Rightarrow> sock \<Rightarrow> int \<times> sock" where
  "sendData data s = send_loop data 0 s"

definition sendInt32_t :: "u32 \<Rightarrow> sock \<Rightarrow> int \<times> sock" where
  "sendInt32_t data s = sendData (enc32 data) s"

section \<open>Receiving\<close>

text \<open>The bytes that will arrive before the stream ends or fails.\<close>

fun avail :: "rx_event list \<Rightarrow> byte list" where
  "avail [] = []"
| "avail (Rx_error e # r) = []"
| "avail (Chunk bs # r) = (if bs = [] then [] else bs @ avail r)"

abbreviation "pending s \<equiv> avail (sk_rx s)"

text \<open>A read returns a non-empty prefix of what is pending, if anything is, and takes it away.\<close>

lemma sock_read_cases:
  assumes "sock_read n s = (r, bs, s')"
  shows "(r < 1 \<and> bs = [] \<and> (n = 0 \<or> pending s = [])) \<or>
    (r = int (length bs) \<and> 0 < length bs \<and> length bs \<le> n \<and> pending s = bs @ pending s' \<and>
     sk_errno s' = sk_errno s)"
  using assms by (auto split: if_splits list.splits rx_event.splits)

lemma sock_read_frame:
  assumes "sock_read n s = (r, bs, s')"
  shows "sk_tx s' = sk_tx s \<and> sk_wr s' = sk_wr s"
  using assms by (auto split: if_splits list.splits rx_event.splits)

text \<open>If enough bytes are on their way, exactly the first ones are stored, however they are cut.\<close>

lemma receive_loop_full:
  assumes "position < sz" and "sz - position \<le> length (pending s)" and "sz \<le> msize data"
  shows "\<exists>data' s'. receive_loop data position sz s = Some (int sz, data', s') \<and>
    mwrite data position (take (sz - position) (pending s)) = Some data' \<and>
    pending s' = drop (sz - position) (pending s) \<and> sk_errno s' = sk_errno s \<and>
    sk_tx s' = sk_tx s \<and> sk_wr s' = sk_wr s"
  using assms
proof (induction data position sz s rule: receive_loop.induct)
  case (1 data position sz s)
  obtain r bs s1 where rd: "sock_read (sz - position) s = (r, bs, s1)" by (cases rule: prod_cases3)
  from sock_read_cases [OF rd] "1.prems" have bs: "r = int (length bs)" "0 < length bs"
    "length bs \<le> sz - position" "pending s = bs @ pending s1" "sk_errno s1 = sk_errno s"
    by auto
  note frame = sock_read_frame [OF rd]
  have "position + length bs \<le> msize data" using bs(3) "1.prems" by simp
  then obtain d1 where d1: "mwrite data position bs = Some d1" using mwrite_total by blast
  have unfold: "receive_loop data position sz s =
      (if position + length bs < sz then receive_loop d1 (position + length bs) sz s1
       else Some (int (position + length bs), d1, s1))"
    using bs(1,2) d1 by (subst receive_loop.simps) (simp add: rd del: sock_read.simps)
  show ?case
  proof (cases "position + length bs < sz")
    case True
    with bs "1.prems" d1 have prems: "sz - (position + length bs) \<le> length (pending s1)" "sz \<le> msize d1"
      by (auto simp: mwrite_msize)
    have nz: "\<not> r < 1" using bs(1,2) by simp
    from "1.IH" [OF rd [symmetric] refl nz d1 True True prems] obtain d2 s2 where
      d2: "receive_loop d1 (position + length bs) sz s1 = Some (int sz, d2, s2)"
      "mwrite d1 (position + length bs) (take (sz - (position + length bs)) (pending s1)) = Some d2"
      "pending s2 = drop (sz - (position + length bs)) (pending s1)"
      "sk_errno s2 = sk_errno s1" "sk_tx s2 = sk_tx s1" "sk_wr s2 = sk_wr s1"
      by blast
    have "take (sz - position) (pending s) = bs @ take (sz - (position + length bs)) (pending s1)"
      using bs(3,4) True by simp
    moreover have "mwrite data position (bs @ take (sz - (position + length bs)) (pending s1)) = Some d2"
      by (rule mwrite_append [OF d1 d2(2)])
    ultimately show ?thesis
      using unfold True d2 bs frame by auto
  next
    case False
    with bs(3) "1.prems"(1) have "position + length bs = sz" by simp
    with bs d1 False unfold frame show ?thesis by auto
  qed
qed

text \<open>If they are not, the result is that of a failure, and no byte behind the buffer is touched.\<close>

lemma receive_loop_short:
  assumes "length (pending s) < sz - position \<or> sz \<le> position" and "sz \<le> msize data"
  shows "\<exists>data' s'. receive_loop data position sz s = Some (- int (sk_errno s'), data', s') \<and>
    msize data' = msize data \<and> sk_tx s' = sk_tx s"
  using assms
proof (induction data position sz s rule: receive_loop.induct)
  case (1 data position sz s)
  obtain r bs s1 where rd: "sock_read (sz - position) s = (r, bs, s1)" by (cases rule: prod_cases3)
  note frame = sock_read_frame [OF rd]
  show ?case
  proof (cases "r < 1")
    case True
    with frame show ?thesis by (subst receive_loop.simps) (simp add: rd del: sock_read.simps)
  next
    case False
    with sock_read_cases [OF rd] have bs: "0 < length bs" "length bs \<le> sz - position"
      "pending s = bs @ pending s1" by auto
    with "1.prems" have "position + length bs \<le> msize data" by auto
    then obtain d1 where d1: "mwrite data position bs = Some d1" using mwrite_total by blast
    have lt: "position + length bs < sz" using bs "1.prems"(1) by auto
    have left: "length (pending s1) < sz - (position + length bs) \<or> sz \<le> position + length bs"
      using bs "1.prems"(1) by simp linarith
    have sz1: "sz \<le> msize d1" using "1.prems"(2) by (simp add: mwrite_msize [OF d1])
    from "1.IH" [OF rd [symmetric] refl False d1 lt left sz1] obtain d2 s2 where
      "receive_loop d1 (position + length bs) sz s1 = Some (- int (sk_errno s2), d2, s2)"
      "msize d2 = msize d1" "sk_tx s2 = sk_tx s1" by blast
    with False d1 lt frame show ?thesis
      by (subst receive_loop.simps) (auto simp: rd mwrite_msize simp del: sock_read.simps)
  qed
qed

text \<open>Receiving sends nothing.\<close>

lemma receive_loop_tx:
  "receive_loop data position sz s = Some (r, data', s') \<Longrightarrow> sk_tx s' = sk_tx s \<and> sk_wr s' = sk_wr s"
proof (induction data position sz s rule: receive_loop.induct)
  case (1 data position sz s)
  obtain k bs s1 where rd: "sock_read (sz - position) s = (k, bs, s1)" by (cases rule: prod_cases3)
  note frame = sock_read_frame [OF rd]
  show ?case
  proof (cases "k < 1 \<or> mwrite data position bs = None \<or> \<not> position + length bs < sz")
    case True
    with "1.prems" rd frame show ?thesis
      by (subst (asm) receive_loop.simps)
        (auto simp del: sock_read.simps mwrite_eq_None_iff split: option.splits if_splits)
  next
    case False
    then obtain d1 where d1: "mwrite data position bs = Some d1"
      by (cases "mwrite data position bs") simp_all
    from False have nk: "\<not> k < 1" and lt: "position + length bs < sz" by simp_all
    with "1.prems" rd d1 have "receive_loop d1 (position + length bs) sz s1 = Some (r, data', s')"
      by (subst (asm) receive_loop.simps) (simp del: sock_read.simps)
    from "1.IH" [OF rd [symmetric] refl nk d1 lt this] frame show ?thesis by simp
  qed
qed

lemma receiveInt32_t_tx:
  "receiveInt32_t m s = Some (r, m', s') \<Longrightarrow> sk_tx s' = sk_tx s \<and> sk_wr s' = sk_wr s"
  by (auto simp: receiveInt32_t_def receiveData_def dest: receive_loop_tx split: bind_splits)

lemma receiveData_full:
  assumes "0 < sz" and "sz \<le> length (pending s)" and "sz \<le> msize data"
  shows "\<exists>data' s'. receiveData data sz s = Some (int sz, data', s') \<and>
    mwrite data 0 (take sz (pending s)) = Some data' \<and> pending s' = drop sz (pending s) \<and>
    sk_errno s' = sk_errno s \<and> sk_tx s' = sk_tx s \<and> sk_wr s' = sk_wr s"
  using receive_loop_full [of 0 sz s data] assms by (simp add: receiveData_def)

lemma receiveData_short:
  assumes "length (pending s) < sz \<or> sz = 0" and "sz \<le> msize data"
  shows "\<exists>data' s'. receiveData data sz s = Some (- int (sk_errno s'), data', s') \<and>
    msize data' = msize data \<and> sk_tx s' = sk_tx s"
  using receive_loop_short [of s sz 0 data] assms by (auto simp: receiveData_def)

lemma receiveInt32_t_full:
  assumes "pending s = enc32 w @ rest"
  shows "\<exists>s'. receiveInt32_t m s = Some (4, w, s') \<and> pending s' = rest \<and>
    sk_errno s' = sk_errno s \<and> sk_tx s' = sk_tx s \<and> sk_wr s' = sk_wr s"
proof -
  obtain d where d: "mwrite (mzero 4) 0 (enc32 m) = Some d"
    using mwrite_total [of 0 "enc32 m" "mzero 4"] by (auto simp: mzero_def)
  then have "msize d = 4" by (simp add: mwrite_msize mzero_def)
  then obtain d' s' where r: "receiveData d 4 s = Some (4, d', s')"
    "mwrite d 0 (enc32 w) = Some d'" "pending s' = rest"
    "sk_errno s' = sk_errno s" "sk_tx s' = sk_tx s" "sk_wr s' = sk_wr s"
    using receiveData_full [of 4 s d] assms by auto
  from mread_mwrite_same [OF r(2)] d r show ?thesis
    by (auto simp: receiveInt32_t_def)
qed

lemma receiveInt32_t_eof:
  assumes "pending s = []"
  shows "\<exists>m' s'. receiveInt32_t m s = Some (- int (sk_errno s'), m', s') \<and> sk_tx s' = sk_tx s"
proof -
  obtain d where d: "mwrite (mzero 4) 0 (enc32 m) = Some d"
    using mwrite_total [of 0 "enc32 m" "mzero 4"] by (auto simp: mzero_def)
  then have sz: "msize d = 4" by (simp add: mwrite_msize mzero_def)
  then obtain d' s' where r: "receiveData d 4 s = Some (- int (sk_errno s'), d', s')" "msize d' = 4"
    "sk_tx s' = sk_tx s"
    using receiveData_short [of s 4 d] assms by auto
  then obtain bs where "mread d' 0 4 = Some bs" by (auto simp: mread_def)
  with d r show ?thesis by (auto simp: receiveInt32_t_def)
qed

text \<open>A peer that closes the connection after the bytes it has sent: no \<open>read\<close> fails, and \<open>errno\<close> stays.\<close>

definition closes :: "rx_event list \<Rightarrow> bool" where
  "closes es \<longleftrightarrow> (\<forall>e \<in> set es. \<exists>bs. e = Chunk bs \<and> bs \<noteq> [])"

lemma sock_read_closes:
  "sock_read n s = (r, bs, s') \<Longrightarrow> closes (sk_rx s) \<Longrightarrow>
    closes (sk_rx s') \<and> sk_errno s' = sk_errno s \<and> length (pending s') \<le> length (pending s)"
  by (auto simp: closes_def split: if_splits list.splits rx_event.splits)

lemma receive_loop_closes:
  "receive_loop data position sz s = Some (r, data', s') \<Longrightarrow> closes (sk_rx s) \<Longrightarrow>
    closes (sk_rx s') \<and> sk_errno s' = sk_errno s \<and> length (pending s') \<le> length (pending s)"
proof (induction data position sz s rule: receive_loop.induct)
  case (1 data position sz s)
  obtain k bs s1 where rd: "sock_read (sz - position) s = (k, bs, s1)" by (cases rule: prod_cases3)
  note one = sock_read_closes [OF rd "1.prems"(2)]
  show ?case
  proof (cases "k < 1 \<or> mwrite data position bs = None \<or> \<not> position + length bs < sz")
    case True
    with "1.prems"(1) rd one show ?thesis
      by (subst (asm) receive_loop.simps)
        (auto simp del: sock_read.simps mwrite_eq_None_iff split: option.splits if_splits)
  next
    case False
    then obtain d1 where d1: "mwrite data position bs = Some d1"
      by (cases "mwrite data position bs") simp_all
    from False have nk: "\<not> k < 1" and lt: "position + length bs < sz" by simp_all
    with "1.prems"(1) rd d1 have "receive_loop d1 (position + length bs) sz s1 = Some (r, data', s')"
      by (subst (asm) receive_loop.simps) (simp del: sock_read.simps)
    from "1.IH" [OF rd [symmetric] refl nk d1 lt this] one show ?thesis by simp
  qed
qed

lemma receiveData_closes:
  assumes "closes (sk_rx s)" and "length (pending s) < sz" and "sz \<le> msize data"
  shows "\<exists>data' s'. receiveData data sz s = Some (- int (sk_errno s), data', s') \<and> msize data' = msize data \<and>
    closes (sk_rx s') \<and> sk_errno s' = sk_errno s \<and> length (pending s') \<le> length (pending s)"
proof -
  obtain d' s' where r: "receiveData data sz s = Some (- int (sk_errno s'), d', s')" "msize d' = msize data"
    using receiveData_short [of s sz data] assms(2,3) by auto
  with receive_loop_closes [of data 0 sz s] assms(1) show ?thesis by (auto simp: receiveData_def)
qed

section \<open>Sending\<close>

definition wr_ok :: "wr_event list \<Rightarrow> bool" where
  "wr_ok ws \<longleftrightarrow> (\<forall>e \<in> set ws. \<exists>k. e = Accept k \<and> 0 < k)"

text \<open>If no \<open>write\<close> fails, all bytes are sent in order, however few each call takes.\<close>

lemma send_loop_full:
  assumes "position < length data" and "wr_ok (sk_wr s)"
  shows "\<exists>s'. send_loop data position s = (int (length data), s') \<and>
    sk_tx s' = sk_tx s @ drop position data \<and> wr_ok (sk_wr s') \<and> sk_rx s' = sk_rx s \<and>
    sk_errno s' = sk_errno s"
  using assms
proof (induction data position s rule: send_loop.induct)
  case (1 data position s)
  obtain r s1 where w: "sock_write (drop position data) s = (r, s1)" by fastforce
  with "1.prems" have r: "0 < r" "nat r \<le> length data - position"
    "sk_tx s1 = sk_tx s @ take (nat r) (drop position data)"
    "wr_ok (sk_wr s1)" "sk_rx s1 = sk_rx s" "sk_errno s1 = sk_errno s"
    by (auto simp: wr_ok_def min_def split: list.splits wr_event.splits if_splits)
  show ?case
  proof (cases "position + nat r < length data")
    case True
    have nz: "\<not> r < 1" using r(1) by simp
    from "1.IH" [OF w [symmetric] nz True True r(4)] obtain s2 where
      "send_loop data (position + nat r) s1 = (int (length data), s2)"
      "sk_tx s2 = sk_tx s1 @ drop (position + nat r) data" "wr_ok (sk_wr s2)" "sk_rx s2 = sk_rx s1"
      "sk_errno s2 = sk_errno s1"
      by blast
    moreover have "take (nat r) (drop position data) @ drop (position + nat r) data = drop position data"
      by (metis append_take_drop_id drop_drop add.commute)
    ultimately show ?thesis using w r True nz
      by (subst send_loop.simps) (simp del: sock_write.simps)
  next
    case False
    with w r "1.prems" show ?thesis
      by (subst send_loop.simps) (simp del: sock_write.simps)
  qed
qed

lemma sendData_full:
  assumes "data \<noteq> []" and "wr_ok (sk_wr s)"
  shows "\<exists>s'. sendData data s = (int (length data), s') \<and> sk_tx s' = sk_tx s @ data \<and>
    wr_ok (sk_wr s') \<and> sk_rx s' = sk_rx s \<and> sk_errno s' = sk_errno s"
  using send_loop_full [of 0 data s] assms by (simp add: sendData_def)

lemma sendInt32_t_full:
  assumes "wr_ok (sk_wr s)"
  shows "\<exists>s'. sendInt32_t w s = (4, s') \<and> sk_tx s' = sk_tx s @ enc32 w \<and> wr_ok (sk_wr s') \<and>
    sk_rx s' = sk_rx s \<and> sk_errno s' = sk_errno s"
proof -
  have "enc32 w \<noteq> []" using length_enc32 [of w] by fastforce
  from sendData_full [OF this assms] show ?thesis by (simp add: sendInt32_t_def)
qed

end
