(* ===== verification/Lua_Ipc.thy ===== *)
theory Lua_Ipc
  imports L4fs_Stub
begin

text \<open>
  The Lua interpreter behind an IPC gate: \<open>Ned_server\<close> with its \<open>dispatch\<close> (dom0-ned, server/src/lua.cc)
  and the client \<open>LuaIpcClient\<close> (dom0-main, server/src/lua_ipc_client.cc), which speak the protocol of
  ipc_protocol.h and communication_magic_numbers.h.

  The interpreter is a library: the calls made on it are the parameter \<open>A\<close>, a record of functions on
  its state. \<open>ios >> length\<close> reads the low byte of the word the client has sent as a \<open>size_t\<close>.
\<close>

section \<open>The protocol\<close>

definition LUA_OK :: u32 where "LUA_OK = 0x10A900D"

definition LUA_ERROR :: u32 where "LUA_ERROR = 0x10ABAD"

definition Protocol_LuaDom0 :: int where "Protocol_LuaDom0 = 0"

definition Opcode_executeLuaLine :: u32 where "Opcode_executeLuaLine = 0"

lemma LUA_codes: "LUA_OK \<noteq> LUA_ERROR"
  by (simp add: LUA_OK_def LUA_ERROR_def)

text \<open>A transport that also carries the protocol label of the message tag.\<close>

type_synonym 'w ltransport = "int \<Rightarrow> item list \<Rightarrow> 'w \<Rightarrow> (int \<times> item list \<times> 'w) option"

fun get8 :: "item list \<Rightarrow> (u8 \<times> item list) option" where
  "get8 (W32 w # m) = Some (ucast w, m)"
| "get8 _ = None"

text \<open>
  A message is carried in the 63 data words of the UTCB. Of a Lua request the opcode, the length and the count of the
  string take a word each, so its string has 240 bytes at most. \<open>trunc\<close> stands for the stream library: it is what
  arrives of a string that does not fit, at most a part of it.
\<close>

definition utcb_fits :: "byte list \<Rightarrow> bool" where
  "utcb_fits bs \<longleftrightarrow> 3 + (length bs + (sizeof_umword - 1)) div sizeof_umword \<le> L4_UTCB_GENERIC_DATA_SIZE"

definition sent_string :: "(byte list \<Rightarrow> byte list) \<Rightarrow> byte list \<Rightarrow> byte list" where
  "sent_string trunc bs = (if utcb_fits bs then bs else trunc bs)"

definition cuts_strings :: "(byte list \<Rightarrow> byte list) \<Rightarrow> bool" where
  "cuts_strings trunc \<longleftrightarrow> (\<forall>bs. \<not> utcb_fits bs \<longrightarrow> utcb_fits (trunc bs) \<and> (\<exists>k < length bs. trunc bs = take k bs))"

lemma utcb_fits_length: "utcb_fits bs \<longleftrightarrow> length bs \<le> 240"
  by (auto simp: utcb_fits_def)

lemma cuts_strings_take: "cuts_strings (take 240)"
  by (auto simp: cuts_strings_def utcb_fits_length intro!: exI [of _ 240])

section \<open>The server\<close>

record 'l lua_api =
  la_loadbuffer :: "byte list \<Rightarrow> 'l \<Rightarrow> int \<times> 'l"
  la_pcall :: "'l \<Rightarrow> int \<times> 'l"
  la_pop1 :: "'l \<Rightarrow> 'l"
  la_pop_all :: "'l \<Rightarrow> 'l"

record 'l ned_server =
  ns_buffer :: membuf
  ns_lua :: 'l

definition ned_server_new :: "'l \<Rightarrow> 'l ned_server" where
  "ned_server_new l = \<lparr>ns_buffer = mzero 256, ns_lua = l\<rparr>"

text \<open>Parse and run one chunk; what fails is reported on the console only.\<close>

definition run_chunk :: "'l lua_api \<Rightarrow> byte list \<Rightarrow> 'l \<Rightarrow> 'l" where
  "run_chunk A code l =
     (let (e, l) = la_loadbuffer A code l in
      if e \<noteq> 0 then la_pop1 A l
      else let (e, l) = la_pcall A l in
        if e \<noteq> 0 then la_pop1 A l else la_pop_all A l)"

fun get_buf :: "nat \<Rightarrow> membuf \<Rightarrow> item list \<Rightarrow> (nat \<times> membuf) option" where
  "get_buf cap b (Buf bs # m) = do {
     b \<leftarrow> mwrite b 0 (take cap bs);
     Some (length (take cap bs), b)
   }"
| "get_buf cap b _ = None"

definition ned_dispatch ::
  "'l lua_api \<Rightarrow> int \<Rightarrow> item list \<Rightarrow> 'l ned_server \<Rightarrow> (int \<times> item list \<times> 'l ned_server) option" where
  "ned_dispatch A label ios s =
     (if label \<noteq> Protocol_LuaDom0 then Some (- L4_EBADPROTO, [], s)
      else do {
        (opcode, ios) \<leftarrow> get32 ios;
        if opcode = Opcode_executeLuaLine then do {
          (length, ios) \<leftarrow> get8 ios;
          (sz, b) \<leftarrow> get_buf 256 (ns_buffer s) ios;
          cmd \<leftarrow> cstr_from b 0;
          if List.length cmd + 1 \<noteq> sz
          then Some (L4_EOK, [W32 LUA_ERROR], s\<lparr>ns_buffer := b\<rparr>)
          else Some (L4_EOK, [W32 LUA_OK],
                 s\<lparr>ns_buffer := b, ns_lua := run_chunk A cmd (ns_lua s)\<rparr>)
        }
        else Some (- L4_ENOSYS, [], s)
      })"

section \<open>The client\<close>

record lua_client =
  lc_valid :: bool

definition LuaIpcClient_new :: lua_client where "LuaIpcClient_new = \<lparr>lc_valid = False\<rparr>"

text \<open>\<open>init\<close>; \<open>cap\<close> says whether the environment has the named capability.\<close>

definition lua_client_init :: "bool \<Rightarrow> lua_client \<Rightarrow> bool \<times> lua_client" where
  "lua_client_init cap c = (cap, c\<lparr>lc_valid := cap\<rparr>)"

definition executeString_n :: "(byte list \<Rightarrow> byte list) \<Rightarrow> 'w ltransport \<Rightarrow> byte list \<Rightarrow> nat \<Rightarrow> 'w \<Rightarrow> (bool \<times> 'w) option" where
  "executeString_n trunc call cmd n w = do {
     (result, ios, w) \<leftarrow>
       call Protocol_LuaDom0 [W32 Opcode_executeLuaLine, W32 (of_nat n), Buf (sent_string trunc (cmd @ [NUL]))] w;
     if result \<noteq> 0 then Some (False, w)
     else do {
       (result, _) \<leftarrow> get32 ios;
       Some (result = LUA_OK, w)
     }
   }"

definition executeString :: "(byte list \<Rightarrow> byte list) \<Rightarrow> 'w ltransport \<Rightarrow> byte list \<Rightarrow> 'w \<Rightarrow> (bool \<times> 'w) option" where
  "executeString trunc call cmd w = executeString_n trunc call cmd (length cmd + 1) w"

section \<open>Properties\<close>

text \<open>The buffer ends with a NUL: it starts that way, and no message of a UTCB reaches its last byte.\<close>

definition ned_wf :: "'l ned_server \<Rightarrow> bool" where
  "ned_wf s \<longleftrightarrow> msize (ns_buffer s) = 256 \<and> mcell (ns_buffer s) 255 = NUL"

lemma ned_wf_new [simp]: "ned_wf (ned_server_new l)"
  by (simp add: ned_wf_def ned_server_new_def mzero_def)

lemma cstr_after_write:
  assumes "mwrite b 0 bs = Some b'" and "cstr_from b' 0 = Some s"
  shows "length s + 1 = length bs \<longleftrightarrow> (\<exists>cmd. bs = cmd @ [NUL] \<and> NUL \<notin> set cmd)"
    and "bs = cmd @ [NUL] \<Longrightarrow> NUL \<notin> set cmd \<Longrightarrow> s = cmd"
proof -
  have bytes: "i < length bs \<Longrightarrow> mcell b' i = bs ! i" for i
    using assms(1) by (auto simp: mwrite_eq_Some_iff)
  have s: "NUL \<notin> set s" "\<forall>i < length s. mcell b' i = s ! i" "mcell b' (length s) = NUL"
    using assms(2) by (simp_all add: cstr_from_iff)
  have *: "s = cmd" if "bs = cmd @ [NUL]" "NUL \<notin> set cmd" for cmd
  proof -
    have "cstr_from b' 0 = Some cmd"
      using that bytes assms(1) by (auto simp: cstr_from_iff nth_append mwrite_eq_Some_iff)
    with assms(2) show ?thesis by simp
  qed
  show "bs = cmd @ [NUL] \<Longrightarrow> NUL \<notin> set cmd \<Longrightarrow> s = cmd" by (rule *)
  show "length s + 1 = length bs \<longleftrightarrow> (\<exists>cmd. bs = cmd @ [NUL] \<and> NUL \<notin> set cmd)"
  proof
    assume l: "length s + 1 = length bs"
    have "bs ! i = (s @ [NUL]) ! i" if i: "i < length bs" for i
    proof (cases "i = length s")
      case True
      with bytes [OF i] s(3) show ?thesis by simp
    next
      case False
      with i l have "i < length s" by simp
      with bytes [OF i] s(2) show ?thesis by (simp add: nth_append)
    qed
    with l have "bs = s @ [NUL]" by (intro nth_equalityI) simp_all
    with s(1) show "\<exists>cmd. bs = cmd @ [NUL] \<and> NUL \<notin> set cmd" by blast
  next
    assume "\<exists>cmd. bs = cmd @ [NUL] \<and> NUL \<notin> set cmd"
    then obtain cmd where cmd: "bs = cmd @ [NUL]" "NUL \<notin> set cmd" by blast
    from * [OF cmd] cmd(1) show "length s + 1 = length bs" by simp
  qed
qed

text \<open>What \<open>dispatch\<close> does with a message that fits the UTCB, on every branch.\<close>

lemma ned_dispatch_exec:
  assumes "ned_wf s" and "length bs < 256"
  shows "\<exists>b. ned_dispatch A Protocol_LuaDom0 (W32 Opcode_executeLuaLine # W32 n # Buf bs # m) s =
      Some (if \<exists>cmd. bs = cmd @ [NUL] \<and> NUL \<notin> set cmd
        then (0, [W32 LUA_OK],
              s\<lparr>ns_buffer := b, ns_lua := run_chunk A (butlast bs) (ns_lua s)\<rparr>)
        else (0, [W32 LUA_ERROR], s\<lparr>ns_buffer := b\<rparr>)) \<and>
    ned_wf (s\<lparr>ns_buffer := b\<rparr>)"
proof -
  have tk: "take 256 bs = bs" using assms(2) by simp
  have "0 + length bs \<le> msize (ns_buffer s)" using assms by (simp add: ned_wf_def)
  then obtain b where b: "mwrite (ns_buffer s) 0 bs = Some b" using mwrite_total by blast
  have wf: "ned_wf (s\<lparr>ns_buffer := b\<rparr>)"
    using assms b by (auto simp: ned_wf_def mwrite_eq_Some_iff)
  then obtain c where c: "cstr_from b 0 = Some c"
    using cstr_from_total [of b 255 0] by (auto simp: ned_wf_def)
  show ?thesis
  proof (cases "\<exists>cmd. bs = cmd @ [NUL] \<and> NUL \<notin> set cmd")
    case True
    then obtain cmd where cmd: "bs = cmd @ [NUL]" "NUL \<notin> set cmd" by blast
    with cstr_after_write(2) [OF b c] have "c = cmd" by blast
    with cmd True b c wf tk show ?thesis
      by (intro exI [of _ b]) (simp add: ned_dispatch_def)
  next
    case False
    with cstr_after_write(1) [OF b c] have "length c + 1 \<noteq> length bs" by blast
    with b c tk have
      "ned_dispatch A Protocol_LuaDom0 (W32 Opcode_executeLuaLine # W32 n # Buf bs # m) s =
        Some (0, [W32 LUA_ERROR], s\<lparr>ns_buffer := b\<rparr>)"
      by (simp add: ned_dispatch_def)
    with False wf show ?thesis by (intro exI [of _ b]) (simp only: if_False simp_thms)
  qed
qed

text \<open>A line that fits is run and answered with \<open>LUA_OK\<close>; of a longer one the terminator does not arrive.\<close>

lemma ned_dispatch_line:
  assumes "ned_wf s" and "NUL \<notin> set cmd" and "cuts_strings trunc"
  shows "\<exists>s'. ned_dispatch A Protocol_LuaDom0
      [W32 Opcode_executeLuaLine, W32 n, Buf (sent_string trunc (cmd @ [NUL]))] s =
      Some (0, [W32 (if utcb_fits (cmd @ [NUL]) then LUA_OK else LUA_ERROR)], s') \<and> ned_wf s' \<and>
    ns_lua s' = (if utcb_fits (cmd @ [NUL]) then run_chunk A cmd (ns_lua s) else ns_lua s)"
proof (cases "utcb_fits (cmd @ [NUL])")
  case True
  then have len: "length (cmd @ [NUL]) < 256" by (simp add: utcb_fits_length)
  have "\<exists>c. cmd @ [NUL] = c @ [NUL] \<and> NUL \<notin> set c" using assms(2) by blast
  with ned_dispatch_exec [OF assms(1) len, of A n "[]"] True show ?thesis
    by (auto simp: sent_string_def ned_wf_def)
next
  case False
  with assms(3) obtain k where k: "k < length (cmd @ [NUL])" "trunc (cmd @ [NUL]) = take k (cmd @ [NUL])"
    "utcb_fits (trunc (cmd @ [NUL]))" by (auto simp: cuts_strings_def)
  then have c: "trunc (cmd @ [NUL]) = take k cmd" "length (take k cmd) < 256" by (auto simp: utcb_fits_length)
  have "NUL \<notin> set (take k cmd)" using assms(2) in_set_takeD by fastforce
  then have "\<nexists>c. take k cmd = c @ [NUL] \<and> NUL \<notin> set c" by auto
  with ned_dispatch_exec [OF assms(1) c(2), of A n "[]"] False c(1) show ?thesis
    by (auto simp: sent_string_def ned_wf_def)
qed

lemma executeString_ned:
  assumes "ned_wf s" and "NUL \<notin> set cmd" and "cuts_strings trunc"
  shows "\<exists>s'. executeString trunc (ned_dispatch A) cmd s = Some (utcb_fits (cmd @ [NUL]), s') \<and> ned_wf s' \<and>
    ns_lua s' = (if utcb_fits (cmd @ [NUL]) then run_chunk A cmd (ns_lua s) else ns_lua s)"
proof -
  obtain s' where "ned_dispatch A Protocol_LuaDom0 [W32 Opcode_executeLuaLine, W32 (of_nat (length cmd + 1)),
      Buf (sent_string trunc (cmd @ [NUL]))] s =
      Some (0, [W32 (if utcb_fits (cmd @ [NUL]) then LUA_OK else LUA_ERROR)], s')" "ned_wf s'"
    "ns_lua s' = (if utcb_fits (cmd @ [NUL]) then run_chunk A cmd (ns_lua s) else ns_lua s)"
    using ned_dispatch_line [OF assms] by blast
  then show ?thesis
    using LUA_codes by (auto simp: executeString_def executeString_n_def simp del: of_nat_add)
qed

text \<open>An interpreter that records the chunks it has loaded, for the witnesses.\<close>

definition log_lua :: "byte list list lua_api" where
  "log_lua = \<lparr>la_loadbuffer = (\<lambda>c l. (0, l @ [c])), la_pcall = (\<lambda>l. (0, l)),
     la_pop1 = (\<lambda>l. l), la_pop_all = (\<lambda>l. l)\<rparr>"

end
