(* ===== verification/Dom0_Server.thy ===== *)
theory Dom0_Server
  imports Tcp_Socket Lua_Ipc
begin

text \<open>
  The network server of dom0-main (server/src/dom0_server.cc): the two connection handlers, the
  transfer of a binary into a file, and the listener that starts a handler for each connection.

  \<open>X\<close> stands for \<open>luaIpc->executeString\<close>, \<open>W\<close> for the \<open>open\<close> and \<open>write\<close> calls on files. The
  handler's array \<open>buffer\<close> is uninitialised memory (a parameter). A loop that may not end is a
  partial function whose outer \<open>None\<close> says so; the inner \<open>None\<close> is a step out of a buffer.
\<close>

definition BUF_LEN :: nat where "BUF_LEN = 1024"

definition GO_SEND :: u32 where "GO_SEND = 0x90"

section \<open>The Lua connection handler\<close>

text \<open>One round of the loop; the flag is false when \<open>NETCHECK_LOOP\<close> breaks out of it.\<close>

definition lua_step ::
  "(byte list \<Rightarrow> 'l \<Rightarrow> (bool \<times> 'l) option) \<Rightarrow> u32 \<Rightarrow> membuf \<Rightarrow> 'l \<Rightarrow> sock \<Rightarrow>
     (bool \<times> u32 \<times> membuf \<times> 'l \<times> sock) option" where
  "lua_step X message buffer l s = do {
     (r, message, s) \<leftarrow> receiveInt32_t message s;
     if r < 1 then Some (False, message, buffer, l, s)
     else do {
       (r, buffer, s) \<leftarrow> receiveData buffer (unat message) s;
       if r < 1 then Some (False, message, buffer, l, s)
       else do {
         cmd \<leftarrow> cstr_from buffer 0;
         (ok, l) \<leftarrow> X cmd l;
         let message = (if ok then LUA_OK else LUA_ERROR);
         let (r, s) = sendInt32_t message s;
         Some (\<not> r < 1, message, buffer, l, s)
       }
     }
   }"

text \<open>The number of events and bytes still to come; every round that goes on takes some.\<close>

fun rx_left :: "rx_event list \<Rightarrow> nat" where
  "rx_left [] = 0"
| "rx_left (Chunk bs # r) = length bs + 1 + rx_left r"
| "rx_left (Rx_error e # r) = 1 + rx_left r"

lemma sock_read_left:
  "sock_read n s = (r, bs, s') \<Longrightarrow> rx_left (sk_rx s') \<le> rx_left (sk_rx s) \<and>
    (1 \<le> r \<longrightarrow> rx_left (sk_rx s') < rx_left (sk_rx s))"
  by (auto split: if_splits list.splits rx_event.splits)

lemma receive_loop_left:
  "receive_loop d p n s = Some (r, d', s') \<Longrightarrow> rx_left (sk_rx s') \<le> rx_left (sk_rx s) \<and>
    (1 \<le> r \<longrightarrow> rx_left (sk_rx s') < rx_left (sk_rx s))"
proof (induction d p n s arbitrary: r d' s' rule: receive_loop.induct)
  case (1 d p n s)
  obtain k bs s1 where rd: "sock_read (n - p) s = (k, bs, s1)" by (cases rule: prod_cases3)
  show ?case
  proof (cases "k < 1")
    case True
    with "1.prems" rd sock_read_left [OF rd] show ?thesis
      by (subst (asm) receive_loop.simps) (auto simp del: sock_read.simps)
  next
    case False
    then have dec: "rx_left (sk_rx s1) < rx_left (sk_rx s)" using sock_read_left [OF rd] by simp
    show ?thesis
    proof (cases "mwrite d p bs")
      case None
      with "1.prems" rd False show ?thesis
        by (subst (asm) receive_loop.simps) (simp del: sock_read.simps mwrite_eq_None_iff)
    next
      case (Some d1)
      show ?thesis
      proof (cases "p + length bs < n")
        case True
        with "1.prems" rd False Some have "receive_loop d1 (p + length bs) n s1 = Some (r, d', s')"
          by (subst (asm) receive_loop.simps) (simp del: sock_read.simps)
        from "1.IH" [OF rd [symmetric] refl False Some True this] dec show ?thesis by auto
      next
        case gt: False
        with "1.prems" rd False Some dec show ?thesis
          by (subst (asm) receive_loop.simps) (auto simp del: sock_read.simps)
      qed
    qed
  qed
qed

lemma lua_step_left:
  assumes "lua_step X m b l s = Some (True, m', b', l', s')"
  shows "rx_left (sk_rx s') < rx_left (sk_rx s)"
proof -
  have send: "sendInt32_t w t = (r, t') \<Longrightarrow> sk_rx t' = sk_rx t" for w t r t'
    unfolding sendInt32_t_def sendData_def
  proof -
    have "send_loop d p u = (r, u') \<Longrightarrow> sk_rx u' = sk_rx u" for d p u u'
    proof (induction d p u arbitrary: u' rule: send_loop.induct)
      case (1 d p u)
      obtain k u1 where w: "sock_write (drop p d) u = (k, u1)" by fastforce
      then have f: "sk_rx u1 = sk_rx u" by (auto split: list.splits wr_event.splits)
      show ?case
      proof (cases "k < 1 \<or> \<not> p + nat k < length d")
        case True
        with "1.prems" w f show ?thesis
          by (subst (asm) send_loop.simps) (auto simp del: sock_write.simps split: if_splits)
      next
        case False
        with "1.prems" w have rest: "send_loop d (p + nat k) u1 = (r, u')"
          by (subst (asm) send_loop.simps) (simp del: sock_write.simps)
        from False have nk: "\<not> k < 1" and lt: "p + nat k < length d" by simp_all
        from "1.IH" [OF w [symmetric] nk lt rest] f show ?thesis by simp
      qed
    qed
    then show "send_loop (enc32 w) 0 t = (r, t') \<Longrightarrow> sk_rx t' = sk_rx t" .
  qed
  from assms obtain r m1 s1 r2 b2 s2 w r3 where
    "receiveInt32_t m s = Some (r, m1, s1)" "\<not> r < 1"
    "receiveData b (unat m1) s1 = Some (r2, b2, s2)"
    "sendInt32_t w s2 = (r3, s')"
    by (auto simp: lua_step_def Let_def split: bind_splits if_splits prod.splits)
  moreover from this(1,2) have "rx_left (sk_rx s1) < rx_left (sk_rx s)"
    by (auto simp: receiveInt32_t_def receiveData_def split: bind_splits dest: receive_loop_left)
  moreover have "rx_left (sk_rx s2) \<le> rx_left (sk_rx s1)"
    using calculation(3) receive_loop_left by (simp add: receiveData_def)
  ultimately show ?thesis using send by (metis le_less_trans)
qed

function lua_loop ::
  "(byte list \<Rightarrow> 'l \<Rightarrow> (bool \<times> 'l) option) \<Rightarrow> u32 \<Rightarrow> membuf \<Rightarrow> 'l \<Rightarrow> sock \<Rightarrow> ('l \<times> sock) option" where
  "lua_loop X message buffer l s =
     (case lua_step X message buffer l s of
        None \<Rightarrow> None
      | Some (go_on, message, buffer, l, s) \<Rightarrow>
          if go_on then lua_loop X message buffer l s else Some (l, s))"
  by pat_completeness auto
termination
  by (relation "measure (\<lambda>(X, m, b, l, s). rx_left (sk_rx s))") (auto dest: lua_step_left)

declare lua_loop.simps [simp del]

definition luaConnectionHandler ::
  "(byte list \<Rightarrow> 'l \<Rightarrow> (bool \<times> 'l) option) \<Rightarrow> (nat \<Rightarrow> byte) \<Rightarrow> 'l \<Rightarrow> sock \<Rightarrow> ('l \<times> sock) option" where
  "luaConnectionHandler X junk l s = lua_loop X 0 \<lparr>msize = BUF_LEN, mcell = junk\<rparr> l s"

section \<open>Receiving a binary\<close>

record 'f wfile =
  wf_open :: "byte list \<Rightarrow> 'f \<Rightarrow> int \<times> 'f"  \<comment> \<open>\<open>open(path, O_WRONLY | O_CREAT)\<close>\<close>
  wf_write :: "int \<Rightarrow> byte list \<Rightarrow> 'f \<Rightarrow> int \<times> 'f"

text \<open>The inner loop: \<open>written\<close> is a \<open>size_t\<close>, so the -1 of a failed \<open>write\<close> is added modulo 2^32.\<close>

partial_function (option) write_chunk ::
  "'f wfile \<Rightarrow> int \<Rightarrow> membuf \<Rightarrow> u32 \<Rightarrow> u32 \<Rightarrow> 'f \<Rightarrow> 'f option option" where
  "write_chunk W fd rwBuffer received written f =
     (if written < received
      then (case mread rwBuffer (unat written) (unat (received - written)) of
          None \<Rightarrow> Some None
        | Some bs \<Rightarrow> (case wf_write W fd bs f of (r, f') \<Rightarrow>
            write_chunk W fd rwBuffer received (written + word_of_int r) f'))
      else Some (Some f))"

text \<open>The outer loop; \<open>received\<close> takes the \<open>ssize_t\<close> of \<open>receiveData\<close>, an error included.\<close>

partial_function (option) receive_chunks ::
  "'f wfile \<Rightarrow> int \<Rightarrow> membuf \<Rightarrow> u32 \<Rightarrow> 'f \<Rightarrow> sock \<Rightarrow> ('f \<times> sock) option option" where
  "receive_chunks W fd rwBuffer leftToReceive f s =
     (if leftToReceive > 0
      then (case receiveData rwBuffer (min Max_rw_buffer_size (unat leftToReceive)) s of
          None \<Rightarrow> Some None
        | Some (r, rwBuffer, s) \<Rightarrow>
            Option.bind (write_chunk W fd rwBuffer (word_of_int r) 0 f) (\<lambda>res. case res of
              None \<Rightarrow> Some None
            | Some f \<Rightarrow> receive_chunks W fd rwBuffer (leftToReceive - word_of_int r) f s))
      else Some (Some (f, s)))"

definition receiveNetworkBinary ::
  "'f wfile \<Rightarrow> (nat \<Rightarrow> byte) \<Rightarrow> int \<Rightarrow> u32 \<Rightarrow> 'f \<Rightarrow> sock \<Rightarrow> (int \<times> 'f \<times> sock) option option" where
  "receiveNetworkBinary W junk fd sz f s =
     map_option (map_option (\<lambda>(f, s). (sint sz, f, s)))
       (receive_chunks W fd \<lparr>msize = Max_rw_buffer_size, mcell = junk\<rparr> sz f s)"

text \<open>One round of the loop of \<open>binaryConnectionHandler\<close>.\<close>

definition binary_step ::
  "'f wfile \<Rightarrow> (nat \<Rightarrow> byte) \<Rightarrow> u32 \<Rightarrow> membuf \<Rightarrow> 'f \<Rightarrow> sock \<Rightarrow>
     (bool \<times> u32 \<times> membuf \<times> 'f \<times> sock) option option" where
  "binary_step W junk message buffer f s =
     (case receiveInt32_t message s of None \<Rightarrow> Some None | Some (r, message, s) \<Rightarrow>
      if r < 1 then Some (Some (False, message, buffer, f, s))
      else case receiveData buffer (unat message) s of None \<Rightarrow> Some None | Some (r, buffer, s) \<Rightarrow>
      if r < 1 then Some (Some (False, message, buffer, f, s))
      else case cstr_from buffer 0 of None \<Rightarrow> Some None | Some path \<Rightarrow>
      case wf_open W path f of (file, f) \<Rightarrow>
      case receiveInt32_t message s of None \<Rightarrow> Some None | Some (r, message, s) \<Rightarrow>
      if r < 1 then Some (Some (False, message, buffer, f, s))
      else case sendInt32_t GO_SEND s of (r, s) \<Rightarrow>
      if r < 1 then Some (Some (False, message, buffer, f, s))
      else map_option (map_option (\<lambda>(r, f, s). (\<not> r < 1, message, buffer, f, s)))
             (receiveNetworkBinary W junk file message f s))"

partial_function (option) binary_loop ::
  "'f wfile \<Rightarrow> (nat \<Rightarrow> byte) \<Rightarrow> u32 \<Rightarrow> membuf \<Rightarrow> 'f \<Rightarrow> sock \<Rightarrow> ('f \<times> sock) option option" where
  "binary_loop W junk message buffer f s =
     Option.bind (binary_step W junk message buffer f s) (\<lambda>res. case res of
       None \<Rightarrow> Some None
     | Some (go_on, message, buffer, f, s) \<Rightarrow>
         if go_on then binary_loop W junk message buffer f s else Some (Some (f, s)))"

definition binaryConnectionHandler ::
  "'f wfile \<Rightarrow> (nat \<Rightarrow> byte) \<Rightarrow> (nat \<Rightarrow> byte) \<Rightarrow> 'f \<Rightarrow> sock \<Rightarrow> ('f \<times> sock) option option" where
  "binaryConnectionHandler W junk junk2 f s =
     binary_loop W junk2 1 \<lparr>msize = BUF_LEN, mcell = junk\<rparr> f s"

section \<open>The listener\<close>

datatype listener_type = lt_binary | lt_lua

record listener_args =
  la_port :: int
  la_type :: listener_type

record server_args =
  sa_luaPort :: int
  sa_binaryPort :: int

text \<open>A socket that listens; the port is cut to 16 bits by \<open>htons\<close>.\<close>

record listener =
  ln_port :: "16 word"
  ln_addr :: u32
  ln_backlog :: nat

text \<open>\<open>serverCombined\<close>: every accepted connection gets a thread of its own running this handler.\<close>

definition serverCombined :: "listener_args \<Rightarrow> sock list \<Rightarrow> listener \<times> (listener_type \<times> sock) list" where
  "serverCombined args accepted =
     (let targetFunc = (if la_type args = lt_lua then lt_lua else lt_binary) in
      (\<lparr>ln_port = word_of_int (la_port args), ln_addr = 0, ln_backlog = 10\<rparr>, map (Pair targetFunc) accepted))"

text \<open>\<open>dom0Server\<close>: the arguments of the two listener threads it starts, in this order.\<close>

definition dom0Server :: "server_args \<Rightarrow> listener_args list" where
  "dom0Server args =
     [\<lparr>la_port = sa_luaPort args, la_type = lt_lua\<rparr>,
      \<lparr>la_port = sa_binaryPort args, la_type = lt_binary\<rparr>]"

section \<open>A Lua session\<close>

definition lua_request :: "byte list \<Rightarrow> byte list" where
  "lua_request cmd = enc32 (of_nat (length cmd + 1)) @ cmd @ [NUL]"

definition lua_cmd_ok :: "byte list \<Rightarrow> bool" where
  "lua_cmd_ok cmd \<longleftrightarrow> NUL \<notin> set cmd \<and> length cmd < BUF_LEN"

text \<open>The commands one after the other on the interpreter, with the answers.\<close>

fun exec_all :: "(byte list \<Rightarrow> 'l \<Rightarrow> (bool \<times> 'l) option) \<Rightarrow> byte list list \<Rightarrow> 'l \<Rightarrow> (bool list \<times> 'l) option" where
  "exec_all X [] l = Some ([], l)"
| "exec_all X (c # cs) l = do {
     (ok, l) \<leftarrow> X c l;
     (oks, l) \<leftarrow> exec_all X cs l;
     Some (ok # oks, l)
   }"

definition lua_answer :: "bool \<Rightarrow> byte list" where
  "lua_answer ok = enc32 (if ok then LUA_OK else LUA_ERROR)"

lemma lua_step_cmd:
  assumes cmd: "lua_cmd_ok cmd" and s: "pending s = lua_request cmd @ rest" "wr_ok (sk_wr s)"
    and b: "msize b = BUF_LEN" and X: "X cmd l = Some (ok, l')"
  shows "\<exists>m' b' s'. lua_step X m b l s = Some (True, m', b', l', s') \<and> msize b' = BUF_LEN \<and>
    pending s' = rest \<and> wr_ok (sk_wr s') \<and> sk_tx s' = sk_tx s @ lua_answer ok"
proof -
  let ?n = "of_nat (length cmd + 1) :: u32"
  have n: "unat ?n = length cmd + 1"
    using cmd by (intro unat_of_nat_size) (simp add: size_ok_def lua_cmd_ok_def BUF_LEN_def)
  from s(1) have "pending s = enc32 ?n @ (cmd @ [NUL] @ rest)" by (simp add: lua_request_def)
  from receiveInt32_t_full [OF this] obtain s1 where s1: "receiveInt32_t m s = Some (4, ?n, s1)"
    "pending s1 = cmd @ [NUL] @ rest" "sk_tx s1 = sk_tx s" "sk_wr s1 = sk_wr s" by blast
  have "0 < length cmd + 1" "length cmd + 1 \<le> length (pending s1)" "length cmd + 1 \<le> msize b"
    using s1 cmd b by (simp_all add: lua_cmd_ok_def)
  from receiveData_full [OF this] obtain b' s2 where
    s2: "receiveData b (length cmd + 1) s1 = Some (int (length cmd + 1), b', s2)"
    "mwrite b 0 (take (length cmd + 1) (pending s1)) = Some b'"
    "pending s2 = drop (length cmd + 1) (pending s1)" "sk_tx s2 = sk_tx s1" "sk_wr s2 = sk_wr s1"
    by blast
  have "strcpy b 0 cmd = Some b'" using s2(2) s1(2) by (simp add: strcpy_def)
  with cmd have c: "cstr_from b' 0 = Some cmd"
    by (intro cstr_from_strcpy_same) (simp_all add: lua_cmd_ok_def)
  have b': "msize b' = BUF_LEN" using mwrite_msize [OF s2(2)] b by simp
  have "wr_ok (sk_wr s2)" using s(2) s1(4) s2(5) by simp
  from sendInt32_t_full [OF this, of "if ok then LUA_OK else LUA_ERROR"] obtain s3 where
    s3: "sendInt32_t (if ok then LUA_OK else LUA_ERROR) s2 = (4, s3)"
    "sk_tx s3 = sk_tx s2 @ enc32 (if ok then LUA_OK else LUA_ERROR)" "wr_ok (sk_wr s3)"
    "sk_rx s3 = sk_rx s2" by blast
  show ?thesis
    using s1 s2 s3 c b' X n by (simp add: lua_step_def lua_answer_def Let_def)
qed

lemma lua_loop_end:
  assumes "pending s = []"
  shows "\<exists>s'. lua_loop X m b l s = Some (l, s') \<and> sk_tx s' = sk_tx s"
proof -
  from receiveInt32_t_eof [OF assms] obtain m' s' where
    "receiveInt32_t m s = Some (- int (sk_errno s'), m', s')" "sk_tx s' = sk_tx s" by blast
  then have "lua_step X m b l s = Some (False, m', b, l, s')" by (simp add: lua_step_def)
  with \<open>sk_tx s' = sk_tx s\<close> show ?thesis by (subst lua_loop.simps) simp
qed

lemma lua_loop_session:
  assumes "\<forall>c \<in> set cmds. lua_cmd_ok c" and "pending s = concat (map lua_request cmds)"
    and "wr_ok (sk_wr s)" and "msize b = BUF_LEN" and "exec_all X cmds l = Some (oks, l')"
  shows "\<exists>s'. lua_loop X m b l s = Some (l', s') \<and> sk_tx s' = sk_tx s @ concat (map lua_answer oks)"
  using assms
proof (induction cmds arbitrary: m b l s oks)
  case Nil
  with lua_loop_end [of s X m b l] show ?case by auto
next
  case (Cons c cs)
  then obtain ok l1 oks1 where X: "X c l = Some (ok, l1)" "exec_all X cs l1 = Some (oks1, l')"
    and oks: "oks = ok # oks1" by (auto split: bind_splits)
  obtain m1 b1 s1 where s1: "lua_step X m b l s = Some (True, m1, b1, l1, s1)" "msize b1 = BUF_LEN"
    "pending s1 = concat (map lua_request cs)" "wr_ok (sk_wr s1)" "sk_tx s1 = sk_tx s @ lua_answer ok"
    using lua_step_cmd [of c s "concat (map lua_request cs)" b X l ok l1 m] Cons.prems X(1) by auto
  with Cons.IH [of s1 b1 l1 oks1 m1] Cons.prems(1) X(2) oks show ?case
    by (subst lua_loop.simps) auto
qed

section \<open>A binary transfer\<close>

text \<open>
  What is used of files: \<open>fview f fd\<close> is the content and the position of the open file \<open>fd\<close>; a
  write of at least one byte stores a non-empty prefix at the position and advances it.
\<close>

definition writes_progress :: "'f wfile \<Rightarrow> ('f \<Rightarrow> int \<Rightarrow> byte list \<times> nat) \<Rightarrow> bool" where
  "writes_progress W fview \<longleftrightarrow> (\<forall>fd bs f d p. fview f fd = (d, p) \<longrightarrow> bs \<noteq> [] \<longrightarrow>
     (\<exists>k f'. wf_write W fd bs f = (int k, f') \<and> 0 < k \<and> k \<le> length bs \<and>
       fview f' fd = (overwrite d p (take k bs), p + k)))"

lemma write_chunk_all:
  assumes W: "writes_progress W fview" and "written \<le> received" and "unat received \<le> msize b"
    and "mread b (unat written) (unat (received - written)) = Some bs" and "fview f fd = (d, p)"
  shows "\<exists>f'. write_chunk W fd b received written f = Some (Some f') \<and>
    fview f' fd = (overwrite d p bs, p + length bs)"
  using assms(2-)
proof (induction "unat (received - written)" arbitrary: written bs f d p rule: less_induct)
  case less
  show ?case
  proof (cases "written = received")
    case True
    with less.prems(3) have "bs = []" by (simp add: mread_def split: if_splits)
    with True less.prems show ?thesis by (subst write_chunk.simps) simp
  next
    case False
    with less.prems(1) have lt: "written < received" by simp
    have len: "length bs = unat received - unat written"
      using mread_length [OF less.prems(3)] less.prems(1) by (simp add: unat_sub)
    with lt have "bs \<noteq> []" by (auto simp: word_less_nat_alt)
    with W less.prems(4) obtain k f1 where k: "wf_write W fd bs f = (int k, f1)" "0 < k" "k \<le> length bs"
      "fview f1 fd = (overwrite d p (take k bs), p + k)"
      unfolding writes_progress_def by blast
    let ?w = "written + word_of_int (int k)"
    have small: "unat written + k \<le> unat received" using k(3) len lt by (auto simp: word_less_nat_alt)
    have fits: "unat written + k < 2 ^ 32"
      using small unsigned_less [of received, where ?'a = nat] by simp
    have w: "unat ?w = unat written + k"
      using fits by (simp add: unat_word_ariths unat_of_nat)
    have le: "?w \<le> received" using w small by (simp add: word_le_nat_alt)
    have rest: "unat (received - ?w) = length bs - k"
      using le w len by (simp only: unat_sub)
    have "mread b (unat ?w) (unat (received - ?w)) = Some (drop k bs)"
    proof -
      have "bs = map (mcell b) [unat written..<unat received]"
        using less.prems(3) lt by (auto simp: mread_def unat_sub word_less_nat_alt word_le_nat_alt split: if_splits)
      then have "drop k bs = map (mcell b) [unat written + k..<unat received]" by (simp add: drop_map)
      with less.prems(2) small show ?thesis unfolding rest w by (simp add: mread_def len)
    qed
    moreover have "unat (received - ?w) < unat (received - written)"
      using rest k len lt less.prems(1) by (simp add: unat_sub)
    ultimately obtain f' where f': "write_chunk W fd b received ?w f1 = Some (Some f')"
      "fview f' fd = (overwrite (overwrite d p (take k bs)) (p + k) (drop k bs), p + k + length (drop k bs))"
      using less.hyps [of ?w "drop k bs" f1] le less.prems(2) k(4) by blast
    have "write_chunk W fd b received written f = Some (Some f')"
      using lt less.prems(3) k(1) f'(1) by (subst write_chunk.simps) simp
    moreover have "overwrite (overwrite d p (take k bs)) (p + k) (drop k bs) = overwrite d p bs"
      using overwrite_append [of d p "take k bs" "drop k bs"] k(3) by simp
    ultimately show ?thesis using f'(2) k(3) by simp
  qed
qed

lemma receive_chunks_all:
  assumes W: "writes_progress W fview" and "unat left1 \<le> length (pending s)"
    and "msize b = Max_rw_buffer_size" and "fview f fd = (d, p)"
  shows "\<exists>f' s'. receive_chunks W fd b left1 f s = Some (Some (f', s')) \<and>
    fview f' fd = (overwrite d p (take (unat left1) (pending s)), p + unat left1) \<and>
    pending s' = drop (unat left1) (pending s) \<and> sk_tx s' = sk_tx s \<and> sk_wr s' = sk_wr s"
  using assms(2-)
proof (induction "unat left1" arbitrary: left1 b f s d p rule: less_induct)
  case less
  show ?case
  proof (cases "left1 = 0")
    case True
    with less.prems show ?thesis by (subst receive_chunks.simps) simp
  next
    case False
    then have pos: "left1 > 0" by (simp add: word_neq_0_conv)
    define k where "k = min Max_rw_buffer_size (unat left1)"
    have k: "0 < k" "k \<le> unat left1" "k \<le> length (pending s)" "k \<le> msize b"
      using pos less.prems by (auto simp: k_def Max_rw_buffer_size_def word_less_nat_alt)
    obtain b1 s1 where r: "receiveData b k s = Some (int k, b1, s1)"
      "mwrite b 0 (take k (pending s)) = Some b1" "pending s1 = drop k (pending s)"
      "sk_tx s1 = sk_tx s" "sk_wr s1 = sk_wr s"
      using receiveData_full [OF k(1,3,4)] by blast
    have uk: "unat (word_of_int (int k) :: u32) = k"
      using k(2) unsigned_less [of left1, where ?'a = nat] by (simp add: unat_of_nat)
    have "mread b1 0 k = Some (take k (pending s))"
      using mread_mwrite_same [OF r(2)] k(3) by simp
    then obtain f1 where f1: "write_chunk W fd b1 (word_of_int (int k)) 0 f = Some (Some f1)"
      "fview f1 fd = (overwrite d p (take k (pending s)), p + k)"
      using write_chunk_all [OF W, of 0 "word_of_int (int k)" b1 "take k (pending s)" f fd d p]
        uk k less.prems(3) mwrite_msize [OF r(2)] by auto
    let ?l = "left1 - word_of_int (int k)"
    have l: "unat ?l = unat left1 - k" using uk k(2) by (subst unat_sub) (auto simp: word_le_nat_alt)
    have m1: "msize b1 = Max_rw_buffer_size" using less.prems(2) mwrite_msize [OF r(2)] by simp
    have dec: "unat ?l < unat left1" "unat ?l \<le> length (pending s1)"
      using l k r(3) less.prems(1) by auto
    obtain f2 s2 where rest: "receive_chunks W fd b1 ?l f1 s1 = Some (Some (f2, s2))"
      "fview f2 fd = (overwrite (overwrite d p (take k (pending s))) (p + k)
          (take (unat ?l) (pending s1)), p + k + unat ?l)"
      "pending s2 = drop (unat ?l) (pending s1)" "sk_tx s2 = sk_tx s1" "sk_wr s2 = sk_wr s1"
      using less.hyps [OF dec m1 f1(2)] by blast
    have "take k (pending s) @ take (unat ?l) (pending s1) = take (unat left1) (pending s)"
      using k(2) l r(3) by (simp flip: take_add)
    then have "overwrite (overwrite d p (take k (pending s))) (p + k) (take (unat ?l) (pending s1)) =
        overwrite d p (take (unat left1) (pending s))"
      using overwrite_append [of d p "take k (pending s)" "take (unat ?l) (pending s1)"] k(3) by simp
    moreover have "receive_chunks W fd b left1 f s = Some (Some (f2, s2))"
      using pos r(1) f1(1) rest(1) by (subst receive_chunks.simps) (simp add: k_def)
    moreover have "drop (unat ?l) (pending s1) = drop (unat left1) (pending s)"
      using l k(2) r(3) by simp
    ultimately show ?thesis using rest l k(2) r by simp
  qed
qed

definition binary_request :: "byte list \<Rightarrow> byte list \<Rightarrow> byte list" where
  "binary_request path data =
     enc32 (of_nat (length path + 1)) @ path @ [NUL] @ enc32 (of_nat (length data)) @ data"

lemma binary_step_upload:
  assumes W: "writes_progress W fview" and path: "lua_cmd_ok path"
    and data: "data \<noteq> []" "length data < 2 ^ 31"
    and s: "pending s = binary_request path data @ rest" "wr_ok (sk_wr s)" and b: "msize b = BUF_LEN"
    and fo: "wf_open W path f = (fd, f1)" "fview f1 fd = (old, 0)"
  shows "\<exists>m' b' f' s'. binary_step W junk m b f s = Some (Some (True, m', b', f', s')) \<and>
    fview f' fd = (overwrite old 0 data, length data) \<and> msize b' = BUF_LEN \<and>
    pending s' = rest \<and> wr_ok (sk_wr s') \<and> sk_tx s' = sk_tx s @ enc32 GO_SEND"
proof -
  let ?n = "of_nat (length path + 1) :: u32" and ?k = "of_nat (length data) :: u32"
  have n: "unat ?n = length path + 1" and k: "unat ?k = length data"
    using path data by (intro unat_of_nat_size; simp add: size_ok_def lua_cmd_ok_def BUF_LEN_def)+
  have "pending s = enc32 ?n @ (path @ [NUL] @ enc32 ?k @ data @ rest)"
    using s(1) by (simp add: binary_request_def)
  from receiveInt32_t_full [OF this] obtain s1 where s1: "receiveInt32_t m s = Some (4, ?n, s1)"
    "pending s1 = path @ [NUL] @ enc32 ?k @ data @ rest" "sk_tx s1 = sk_tx s" "sk_wr s1 = sk_wr s" by blast
  have "0 < length path + 1" "length path + 1 \<le> length (pending s1)" "length path + 1 \<le> msize b"
    using s1 path b by (simp_all add: lua_cmd_ok_def)
  from receiveData_full [OF this] obtain b' s2 where
    s2: "receiveData b (length path + 1) s1 = Some (int (length path + 1), b', s2)"
    "mwrite b 0 (take (length path + 1) (pending s1)) = Some b'"
    "pending s2 = drop (length path + 1) (pending s1)" "sk_tx s2 = sk_tx s1" "sk_wr s2 = sk_wr s1"
    by blast
  have "strcpy b 0 path = Some b'" using s2(2) s1(2) by (simp add: strcpy_def)
  with path have c: "cstr_from b' 0 = Some path"
    by (intro cstr_from_strcpy_same) (simp_all add: lua_cmd_ok_def)
  have "pending s2 = enc32 ?k @ (data @ rest)" using s2(3) s1(2) by simp
  from receiveInt32_t_full [OF this] obtain s3 where s3: "receiveInt32_t ?n s2 = Some (4, ?k, s3)"
    "pending s3 = data @ rest" "sk_tx s3 = sk_tx s2" "sk_wr s3 = sk_wr s2" by blast
  have "wr_ok (sk_wr s3)" using s(2) s1(4) s2(5) s3(4) by simp
  from sendInt32_t_full [OF this, of GO_SEND] obtain s4 where s4: "sendInt32_t GO_SEND s3 = (4, s4)"
    "sk_tx s4 = sk_tx s3 @ enc32 GO_SEND" "wr_ok (sk_wr s4)" "sk_rx s4 = sk_rx s3" by blast
  have "unat ?k \<le> length (pending s4)" using s3(2) s4(4) k by simp
  from receive_chunks_all [OF W this _ fo(2), of "\<lparr>msize = Max_rw_buffer_size, mcell = junk\<rparr>"]
  obtain f' s5 where s5:
    "receive_chunks W fd \<lparr>msize = Max_rw_buffer_size, mcell = junk\<rparr> ?k f1 s4 = Some (Some (f', s5))"
    "fview f' fd = (overwrite old 0 (take (unat ?k) (pending s4)), unat ?k)"
    "pending s5 = drop (unat ?k) (pending s4)" "sk_tx s5 = sk_tx s4" "sk_wr s5 = sk_wr s4"
    by auto
  have sk: "sint ?k = int (length data)"
    using i32_id [of "int (length data)"] data(2) by (simp add: i32_def)
  have "\<not> int (length data) < 1" using data(1) by (cases data) simp_all
  then show ?thesis
    using s1 s2 s3 s4 s5 c k n sk fo mwrite_msize [OF s2(2)] b
    by (simp add: binary_step_def receiveNetworkBinary_def)
qed

text \<open>The loop that stores a chunk stays inside the buffer.\<close>

lemma write_chunk_within:
  assumes "unat received \<le> msize b"
  shows "write_chunk W fd b received written f \<noteq> Some None"
proof
  assume "write_chunk W fd b received written f = Some None"
  define Q :: "((((('a wfile \<times> int) \<times> membuf) \<times> u32) \<times> u32) \<times> 'a) \<Rightarrow> 'a option \<Rightarrow> bool"
    where "Q = (\<lambda>(((((W, fd), b), received), written), f) out. unat received \<le> msize b \<longrightarrow> out \<noteq> None)"
  from \<open>write_chunk W fd b received written f = Some None\<close> have "Q (((((W, fd), b), received), written), f) None"
  proof (rule write_chunk.raw_induct [rotated])
    fix g W fd b received written f out
    assume IH: "\<And>W fd b received written f out. g W fd b received written f = Some out \<Longrightarrow>
        Q (((((W, fd), b), received), written), f) out"
      and eq: "(if written < received
        then (case mread b (unat written) (unat (received - written)) of None \<Rightarrow> Some None
          | Some bs \<Rightarrow> (case wf_write W fd bs f of (r, f') \<Rightarrow> g W fd b received (written + word_of_int r) f'))
        else Some (Some f)) = Some out"
    show "Q (((((W, fd), b), received), written), f) out"
    proof (cases "written < received \<and> unat received \<le> msize b")
      case True
      then have "unat written + unat (received - written) \<le> msize b"
        by (simp add: unat_sub word_less_nat_alt word_le_nat_alt)
      then obtain bs where bs: "mread b (unat written) (unat (received - written)) = Some bs"
        by (auto simp: mread_def)
      obtain r f' where "wf_write W fd bs f = (r, f')" by fastforce
      with eq True bs have "g W fd b received (written + word_of_int r) f' = Some out" by simp
      from IH [OF this] show ?thesis by (simp add: Q_def)
    next
      case False
      with eq show ?thesis by (auto simp: Q_def)
    qed
  qed
  with assms show False by (simp add: Q_def)
qed

lemma write_chunk_beyond:
  assumes "msize b < unat received"
  shows "write_chunk W fd b received 0 f = Some None"
proof -
  have "0 < received" using assms by (simp add: word_less_nat_alt)
  with assms show ?thesis by (subst write_chunk.simps) (simp add: mread_def)
qed

text \<open>
  When the peer closes the connection before the announced number of bytes, \<open>receiveData\<close> returns \<open>-errno\<close>. If
  no call has set \<open>errno\<close>, that is 0, and the loop goes on for ever; otherwise the error number is
  taken for a length, and the bytes behind the buffer are written.
\<close>

lemma unat_neg_errno:
  assumes "0 < e" and "e < 2 ^ 31"
  shows "unat (word_of_int (- int e) :: u32) = 2 ^ 32 - e"
proof -
  have "(- int e) mod 2 ^ 32 = 2 ^ 32 - int e" using assms by (simp add: zmod_zminus1_eq_if)
  then show ?thesis using assms
    by (subst unsigned_of_int) (simp add: take_bit_eq_mod nat_diff_distrib)
qed

lemma receive_chunks_eof:
  assumes "length (pending s) < unat left1" and "closes (sk_rx s)" and "sk_errno s < 2 ^ 31"
    and "msize b = Max_rw_buffer_size" and "receive_chunks W fd b left1 f s = Some out"
  shows "sk_errno s \<noteq> 0 \<and> out = None"
proof -
  define Q :: "((((('a wfile \<times> int) \<times> membuf) \<times> u32) \<times> 'a) \<times> sock) \<Rightarrow> ('a \<times> sock) option \<Rightarrow> bool"
    where "Q = (\<lambda>(((((W, fd), b), l), f), s) out. length (pending s) < unat l \<longrightarrow> closes (sk_rx s) \<longrightarrow>
      sk_errno s < 2 ^ 31 \<longrightarrow> msize b = Max_rw_buffer_size \<longrightarrow> sk_errno s \<noteq> 0 \<and> out = None)"
  have zero: "write_chunk W fd b 0 0 f = Some (Some f)" for W :: "'a wfile" and fd b f
    by (subst write_chunk.simps) simp
  from assms(5) have "Q (((((W, fd), b), left1), f), s) out"
  proof (rule receive_chunks.raw_induct [rotated])
    fix g W fd b l f s out
    assume IH: "\<And>W fd b l f s out. g W fd b l f s = Some out \<Longrightarrow> Q (((((W, fd), b), l), f), s) out"
      and eq: "(if (l :: u32) > 0
        then (case receiveData b (min Max_rw_buffer_size (unat l)) s of None \<Rightarrow> Some None
          | Some (r, b, s) \<Rightarrow>
              write_chunk W fd b (word_of_int r) 0 f \<bind>
                (\<lambda>res. case res of None \<Rightarrow> Some None | Some f \<Rightarrow> g W fd b (l - word_of_int r) f s))
        else Some (Some (f, s))) = Some out"
    have "sk_errno s \<noteq> 0 \<and> out = None" if h: "length (pending s) < unat l" "closes (sk_rx s)"
      "sk_errno s < 2 ^ 31" "msize b = Max_rw_buffer_size"
    proof -
      define n where "n = min Max_rw_buffer_size (unat l)"
      have l: "0 < l" using h(1) by (auto simp: word_less_nat_alt)
      have n: "0 < n" "n \<le> msize b" "n \<le> unat l"
        using l h(4) by (auto simp: n_def Max_rw_buffer_size_def word_less_nat_alt)
      show ?thesis
      proof (cases "n \<le> length (pending s)")
        case True
        from receiveData_full [OF n(1) True n(2)] obtain b1 s1 where
          r: "receiveData b n s = Some (int n, b1, s1)" "pending s1 = drop n (pending s)" "mwrite b 0 (take n (pending s)) = Some b1"
          by blast
        have s1: "closes (sk_rx s1)" "sk_errno s1 = sk_errno s"
          using receive_loop_closes [of b 0 n s] r(1) h(2) by (auto simp: receiveData_def)
        have m: "msize b1 = Max_rw_buffer_size" using r(3) h(4) by (simp add: mwrite_msize)
        have un: "unat (word_of_int (int n) :: u32) = n"
          using n(3) unsigned_less [of l, where ?'a = nat] by (simp add: unat_of_nat)
        then have "write_chunk W fd b1 (word_of_int (int n)) 0 f \<noteq> Some None"
          using m by (intro write_chunk_within) (simp add: n_def)
        with eq l r(1) obtain f1 where g: "g W fd b1 (l - word_of_int (int n)) f1 s1 = Some out"
          by (cases "write_chunk W fd b1 (word_of_int (int n)) 0 f") (auto simp: n_def split: option.splits)
        have "unat (l - word_of_int (int n)) = unat l - n" using un n(3) by (subst unat_sub) (auto simp: word_le_nat_alt)
        then have "length (pending s1) < unat (l - word_of_int (int n))"
          using h(1) r(2) True by simp
        with IH [OF g] s1 m h(3) show ?thesis by (simp add: Q_def)
      next
        case False
        then have "length (pending s) < n" by simp
        from receiveData_closes [OF h(2) this n(2)] obtain b1 s1 where
          r: "receiveData b n s = Some (- int (sk_errno s), b1, s1)" "msize b1 = msize b" "closes (sk_rx s1)"
            "sk_errno s1 = sk_errno s" "length (pending s1) \<le> length (pending s)" by blast
        show ?thesis
        proof (cases "sk_errno s = 0")
          case True
          with eq l r(1) have "g W fd b1 l f s1 = Some out" by (simp add: n_def zero)
          from IH [OF this] r h show ?thesis by (simp add: Q_def)
        next
          case False
          have "unat (word_of_int (- int (sk_errno s)) :: u32) = 2 ^ 32 - sk_errno s"
            using False h(3) by (intro unat_neg_errno) simp_all
          then have "msize b1 < unat (word_of_int (- int (sk_errno s)) :: u32)"
            using h(3,4) r(2) by (simp add: Max_rw_buffer_size_def)
          from write_chunk_beyond [OF this, of W fd f] eq l r(1) False show ?thesis by (simp add: n_def)
        qed
      qed
    qed
    then show "Q (((((W, fd), b), l), f), s) out" by (simp add: Q_def)
  qed
  with assms(1-4) show ?thesis by (simp add: Q_def)
qed

text \<open>A length field the buffer does not hold: the bytes of one \<open>read\<close> run over its end.\<close>

lemma lua_step_overflow:
  assumes "sk_rx s = [Chunk (enc32 n @ bs)]" and "BUF_LEN < length bs" and "BUF_LEN < unat n"
    and "msize b = BUF_LEN"
  shows "lua_step X m b l s = None"
proof -
  obtain d where d: "mwrite (mzero 4) 0 (enc32 m) = Some d"
    using mwrite_total [of 0 "enc32 m" "mzero 4"] by (auto simp: mzero_def)
  have md: "msize d = 4" using mwrite_msize [OF d] by (simp add: mzero_def)
  have "bs \<noteq> []" using assms(2) by auto
  then have rd: "sock_read 4 s = (4, enc32 n, s\<lparr>sk_rx := [Chunk bs]\<rparr>)" using assms(1) by simp
  obtain d2 where d2: "mwrite d 0 (enc32 n) = Some d2" using mwrite_total [of 0 "enc32 n" d] md by auto
  have "receiveData d 4 s = Some (4, d2, s\<lparr>sk_rx := [Chunk bs]\<rparr>)"
    unfolding receiveData_def by (subst receive_loop.simps) (simp add: rd d2 del: sock_read.simps)
  moreover have "mread d2 0 4 = Some (enc32 n)" using mread_mwrite_same [OF d2] by simp
  ultimately have i: "receiveInt32_t m s = Some (4, n, s\<lparr>sk_rx := [Chunk bs]\<rparr>)"
    by (simp add: receiveInt32_t_def d)
  have "receiveData b (unat n) (s\<lparr>sk_rx := [Chunk bs]\<rparr>) = None"
    unfolding receiveData_def using assms(2-4) \<open>bs \<noteq> []\<close>
    by (subst receive_loop.simps) (auto simp: mwrite_def Suc_le_eq)
  with i show ?thesis by (simp add: lua_step_def)
qed

end
