(* ===== verification/Remote_Dom0.thy ===== *)
theory Remote_Dom0
  imports Dom0_Server
begin

text \<open>
  The client of the network server (dom0-main): \<open>TcpClientSocket\<close> (server/src/tcp_client_socket.cc) and
  \<open>RemoteDom0Instance\<close> (server/src/remote_dom0_instance.cc).

  The sockets of the program are a table \<open>sockets\<close> from descriptors to \<open>sock\<close> values; the results of
  \<open>socket\<close> and \<open>connect\<close> are arguments. A member that has not been initialised is \<open>None\<close>, and so is the result
  of a call that reads it.
\<close>

section \<open>Client sockets\<close>

record tcp_client =
  tc_addr :: u32
  tc_port :: "16 word"
  tc_connected :: bool
  tc_target :: "int option"

definition TcpClientSocket_new :: "u32 \<Rightarrow> int \<Rightarrow> tcp_client" where
  "TcpClientSocket_new address port =
     \<lparr>tc_addr = address, tc_port = word_of_int port, tc_connected = False, tc_target = None\<rparr>"

definition isDisabled :: "tcp_client \<Rightarrow> bool" where
  "isDisabled c \<longleftrightarrow> tc_port c = 0"

text \<open>\<open>fd\<close> is what \<open>socket\<close> returns, \<open>err\<close> is 0 or the \<open>errno\<close> of \<open>connect\<close>.\<close>

definition tcp_connect :: "int \<Rightarrow> nat \<Rightarrow> tcp_client \<Rightarrow> int \<times> tcp_client" where
  "tcp_connect fd err c =
     (if isDisabled c then (1, c)
      else if err = 0 then (1, c\<lparr>tc_target := Some fd, tc_connected := True\<rparr>)
      else (- int err, c\<lparr>tc_target := Some fd\<rparr>))"

text \<open>The result, the descriptors that are closed, and the new state.\<close>

definition tcp_disconnect :: "tcp_client \<Rightarrow> (int \<times> int list \<times> tcp_client) option" where
  "tcp_disconnect c =
     (if isDisabled c then Some (1, [], c)
      else do {
        fd \<leftarrow> tc_target c;
        Some (1, [fd], c\<lparr>tc_connected := False\<rparr>)
      })"

text \<open>
  The methods of the base class \<open>TcpSocket\<close> pass the descriptor \<open>targetSocket\<close> on. All sockets of the program
  are the table \<open>T\<close>; only the entry of the descriptor changes.
\<close>

type_synonym sockets = "int \<Rightarrow> sock"

definition on_target :: "tcp_client \<Rightarrow> (sock \<Rightarrow> ('r \<times> sock) option) \<Rightarrow> sockets \<Rightarrow> ('r \<times> sockets) option" where
  "on_target c f T = do { fd \<leftarrow> tc_target c; (r, s) \<leftarrow> f (T fd); Some (r, T(fd := s)) }"

definition TcpSocket_receiveData :: "tcp_client \<Rightarrow> membuf \<Rightarrow> nat \<Rightarrow> sockets \<Rightarrow> ((int \<times> membuf) \<times> sockets) option" where
  "TcpSocket_receiveData c data sz T =
     on_target c (\<lambda>s. do { (r, data, s) \<leftarrow> receiveData data sz s; Some ((r, data), s) }) T"

definition TcpSocket_receiveInt32_t :: "tcp_client \<Rightarrow> u32 \<Rightarrow> sockets \<Rightarrow> ((int \<times> u32) \<times> sockets) option" where
  "TcpSocket_receiveInt32_t c data T =
     on_target c (\<lambda>s. do { (r, data, s) \<leftarrow> receiveInt32_t data s; Some ((r, data), s) }) T"

definition TcpSocket_sendData :: "tcp_client \<Rightarrow> byte list \<Rightarrow> sockets \<Rightarrow> (int \<times> sockets) option" where
  "TcpSocket_sendData c data T = on_target c (\<lambda>s. Some (sendData data s)) T"

definition TcpSocket_sendInt32_t :: "tcp_client \<Rightarrow> u32 \<Rightarrow> sockets \<Rightarrow> (int \<times> sockets) option" where
  "TcpSocket_sendInt32_t c data T = on_target c (\<lambda>s. Some (sendInt32_t data s)) T"

section \<open>The instance\<close>

record remote_dom0 =
  rd_lua :: tcp_client
  rd_bin :: tcp_client

definition RemoteDom0Instance_new :: "u32 \<Rightarrow> int \<Rightarrow> int \<Rightarrow> remote_dom0" where
  "RemoteDom0Instance_new address luaPort binaryPort =
     \<lparr>rd_lua = TcpClientSocket_new address luaPort, rd_bin = TcpClientSocket_new address binaryPort\<rparr>"

definition rd_connect :: "int \<times> nat \<Rightarrow> int \<times> nat \<Rightarrow> remote_dom0 \<Rightarrow> int \<times> remote_dom0" where
  "rd_connect lua bin r =
     (let (a, l) = tcp_connect (fst lua) (snd lua) (rd_lua r);
          (b, m) = tcp_connect (fst bin) (snd bin) (rd_bin r)
      in (a AND b, \<lparr>rd_lua = l, rd_bin = m\<rparr>))"

definition rd_disconnect :: "remote_dom0 \<Rightarrow> (int \<times> int list \<times> remote_dom0) option" where
  "rd_disconnect r = do {
     (a, xs, c) \<leftarrow> tcp_disconnect (rd_bin r);
     (b, ys, c) \<leftarrow> tcp_disconnect c;
     Some (a AND b, xs @ ys, r\<lparr>rd_bin := c\<rparr>)
   }"

lemma tcp_connect_fields [simp]:
  "tc_port (snd (tcp_connect fd err c)) = tc_port c"
  "isDisabled (snd (tcp_connect fd err c)) = isDisabled c"
  "tc_target (snd (tcp_connect fd err c)) = (if isDisabled c then tc_target c else Some fd)"
  by (auto simp: tcp_connect_def isDisabled_def)

lemma rd_connect_fields [simp]:
  "rd_lua (snd (rd_connect lua bin r)) = snd (tcp_connect (fst lua) (snd lua) (rd_lua r))"
  "rd_bin (snd (rd_connect lua bin r)) = snd (tcp_connect (fst bin) (snd bin) (rd_bin r))"
  by (simp_all add: rd_connect_def split: prod.splits)

text \<open>The destructors of the two members.\<close>

definition rd_destroy :: "remote_dom0 \<Rightarrow> (int list) option" where
  "rd_destroy r = do {
     (_, xs, _) \<leftarrow> tcp_disconnect (rd_bin r);
     (_, ys, _) \<leftarrow> tcp_disconnect (rd_lua r);
     Some (xs @ ys)
   }"

text \<open>
  \<open>loadFile\<close>: \<open>None\<close> is a file that cannot be opened. The buffer is \<open>None\<close> when it is still the null
  pointer; \<open>got\<close> is what \<open>fread\<close> delivers, the rest of the buffer stays \<open>junk\<close>.
\<close>

definition loadFile :: "(nat \<Rightarrow> byte) \<Rightarrow> bool \<Rightarrow> (byte list \<times> nat) option \<Rightarrow> int \<times> byte list option" where
  "loadFile junk mem_ok src =
     (case src of
        None \<Rightarrow> (-1, None)
      | Some (content, got) \<Rightarrow>
          if \<not> mem_ok then (-1, None)
          else (i32 (int (length content)),
                Some (take got content @ map junk [got..<length content])))"

text \<open>\<open>executeLuaString(string, size)\<close>: the first \<open>size\<close> bytes of the memory at \<open>string\<close> are sent.\<close>

definition executeLuaString_n :: "bool \<Rightarrow> byte list \<Rightarrow> u32 \<Rightarrow> sock \<Rightarrow> (int \<times> sock) option" where
  "executeLuaString_n disabled string sz s =
     (if disabled then Some (0, s)
      else case sendInt32_t sz s of (r, s) \<Rightarrow>
        if r < 1 then Some (- int (sk_errno s), s)
        else if length string < unat sz then None
        else case sendData (take (unat sz) string) s of (r, s) \<Rightarrow>
          if r < 1 then Some (- int (sk_errno s), s)
          else do {
            (r, result, s) \<leftarrow> receiveInt32_t 0 s;
            if r < 1 then Some (- int (sk_errno s), s)
            else Some (sint result, s)
          })"

definition executeLuaString :: "bool \<Rightarrow> byte list \<Rightarrow> sock \<Rightarrow> (int \<times> sock) option" where
  "executeLuaString disabled string s =
     executeLuaString_n disabled (string @ [NUL]) (of_nat (length string + 1)) s"

text \<open>\<open>data\<close> is the memory behind the pointer, \<open>None\<close> for the null pointer.\<close>

definition sendElfBinaryFromMemory ::
  "bool \<Rightarrow> byte list option \<Rightarrow> u32 \<Rightarrow> byte list \<Rightarrow> sock \<Rightarrow> (int \<times> sock) option" where
  "sendElfBinaryFromMemory disabled data sz remoteFilename s =
     (if disabled then Some (0, s)
      else case sendInt32_t (of_nat (length remoteFilename + 1)) s of (r, s) \<Rightarrow>
        if r < 1 then Some (- int (sk_errno s), s)
        else case sendData (remoteFilename @ [NUL]) s of (r, s) \<Rightarrow>
        if r < 1 then Some (- int (sk_errno s), s)
        else case sendInt32_t sz s of (r, s) \<Rightarrow>
        if r < 1 then Some (- int (sk_errno s), s)
        else do {
          (r, message, s) \<leftarrow> receiveInt32_t 0 s;
          if r < 1 then Some (- int (sk_errno s), s)
          else do {
            bytes \<leftarrow> data;
            if length bytes < unat sz then None
            else case sendData (take (unat sz) bytes) s of (r, s) \<Rightarrow>
              if r < 1 then Some (- int (sk_errno s), s) else Some (sint sz, s)
          }
        })"

definition sendElfBinaryFromRom ::
  "bool \<Rightarrow> (nat \<Rightarrow> byte) \<Rightarrow> bool \<Rightarrow> (byte list \<times> nat) option \<Rightarrow> byte list \<Rightarrow> sock \<Rightarrow> (int \<times> sock) option" where
  "sendElfBinaryFromRom disabled junk mem_ok src remoteFilename s =
     (if disabled then Some (0, s)
      else case loadFile junk mem_ok src of (message, data) \<Rightarrow>
        sendElfBinaryFromMemory disabled data (word_of_int message) remoteFilename s)"

text \<open>The same methods of an instance, on the socket it has connected.\<close>

definition rd_executeLuaString :: "remote_dom0 \<Rightarrow> byte list \<Rightarrow> sockets \<Rightarrow> (int \<times> sockets) option" where
  "rd_executeLuaString r string T =
     (if isDisabled (rd_lua r) then Some (0, T)
      else on_target (rd_lua r) (executeLuaString False string) T)"

definition rd_sendElfBinaryFromRom ::
  "remote_dom0 \<Rightarrow> (nat \<Rightarrow> byte) \<Rightarrow> bool \<Rightarrow> (byte list \<times> nat) option \<Rightarrow> byte list \<Rightarrow> sockets \<Rightarrow>
   (int \<times> sockets) option" where
  "rd_sendElfBinaryFromRom r junk mem_ok src remoteFilename T =
     (if isDisabled (rd_bin r) then Some (0, T)
      else on_target (rd_bin r) (sendElfBinaryFromRom False junk mem_ok src remoteFilename) T)"

text \<open>They are sequences of calls on the members.\<close>

lemma rd_executeLuaString_calls:
  "rd_executeLuaString r string T =
    (let c = rd_lua r; n = of_nat (length string + 1) in
     if isDisabled c then Some (0, T)
     else do {
       (k, T) \<leftarrow> TcpSocket_sendInt32_t c n T;
       if k < 1 then map_option (\<lambda>fd. (- int (sk_errno (T fd)), T)) (tc_target c)
       else if length string + 1 < unat (n :: u32) then None
       else do {
         (k, T) \<leftarrow> TcpSocket_sendData c (take (unat n) (string @ [NUL])) T;
         if k < 1 then map_option (\<lambda>fd. (- int (sk_errno (T fd)), T)) (tc_target c)
         else do {
           ((k, result), T) \<leftarrow> TcpSocket_receiveInt32_t c 0 T;
           if k < 1 then map_option (\<lambda>fd. (- int (sk_errno (T fd)), T)) (tc_target c)
           else Some (sint result, T)
         }
       }
     })"
  by (cases "tc_target (rd_lua r)")
    (auto simp: rd_executeLuaString_def on_target_def TcpSocket_sendInt32_t_def TcpSocket_sendData_def
      TcpSocket_receiveInt32_t_def executeLuaString_def executeLuaString_n_def Let_def
      split: prod.splits bind_splits simp del: of_nat_add of_nat_Suc)

section \<open>What the client sends\<close>

lemma executeLuaString_sends:
  assumes "lua_cmd_ok cmd" and "wr_ok (sk_wr c)" and "pending c = enc32 ans @ rest"
  shows "\<exists>c'. executeLuaString False cmd c = Some (sint ans, c') \<and>
    sk_tx c' = sk_tx c @ lua_request cmd \<and> pending c' = rest \<and> wr_ok (sk_wr c')"
proof -
  let ?n = "of_nat (length cmd + 1) :: u32"
  have n: "unat ?n = length cmd + 1"
    using assms(1) by (intro unat_of_nat_size) (simp add: size_ok_def lua_cmd_ok_def BUF_LEN_def)
  from sendInt32_t_full [OF assms(2), of ?n] obtain c1 where c1: "sendInt32_t ?n c = (4, c1)"
    "sk_tx c1 = sk_tx c @ enc32 ?n" "wr_ok (sk_wr c1)" "sk_rx c1 = sk_rx c" by blast
  have "cmd @ [NUL] \<noteq> []" by simp
  from sendData_full [OF this c1(3)] obtain c2 where
    c2: "sendData (cmd @ [NUL]) c1 = (int (length (cmd @ [NUL])), c2)"
    "sk_tx c2 = sk_tx c1 @ cmd @ [NUL]" "wr_ok (sk_wr c2)" "sk_rx c2 = sk_rx c1" by auto
  have "pending c2 = enc32 ans @ rest" using c2(4) c1(4) assms(3) by simp
  from receiveInt32_t_full [OF this] obtain c3 where c3: "receiveInt32_t 0 c2 = Some (4, ans, c3)"
    "pending c3 = rest" "sk_tx c3 = sk_tx c2" "sk_wr c3 = sk_wr c2" by blast
  have "executeLuaString False cmd c = Some (sint ans, c3)"
    using n c1(1) c2(1) c3(1) by (simp add: executeLuaString_def executeLuaString_n_def del: of_nat_add)
  with c1 c2 c3 show ?thesis by (simp add: lua_request_def)
qed

text \<open>The request does not depend on what the server answers.\<close>

lemma executeLuaString_tx:
  assumes "lua_cmd_ok cmd" and "wr_ok (sk_wr c)" and "executeLuaString False cmd c = Some (r, c')"
  shows "sk_tx c' = sk_tx c @ lua_request cmd \<and> wr_ok (sk_wr c')"
proof -
  let ?n = "of_nat (length cmd + 1) :: u32"
  have n: "unat ?n = length cmd + 1"
    using assms(1) by (intro unat_of_nat_size) (simp add: size_ok_def lua_cmd_ok_def BUF_LEN_def)
  from sendInt32_t_full [OF assms(2), of ?n] obtain c1 where c1: "sendInt32_t ?n c = (4, c1)"
    "sk_tx c1 = sk_tx c @ enc32 ?n" "wr_ok (sk_wr c1)" by blast
  have "cmd @ [NUL] \<noteq> []" by simp
  from sendData_full [OF this c1(3)] obtain c2 where
    c2: "sendData (cmd @ [NUL]) c1 = (int (length (cmd @ [NUL])), c2)"
    "sk_tx c2 = sk_tx c1 @ cmd @ [NUL]" "wr_ok (sk_wr c2)" by auto
  from assms(3) n c1(1) c2(1) obtain a m c3 where "receiveInt32_t 0 c2 = Some (a, m, c3)" "c' = c3"
    by (auto simp: executeLuaString_def executeLuaString_n_def simp del: of_nat_add of_nat_Suc
        split: bind_splits if_splits)
  with receiveInt32_t_tx [OF this(1)] c1(2) c2(2,3) show ?thesis by (simp add: lua_request_def)
qed

lemma sendElfBinaryFromMemory_sends:
  assumes "lua_cmd_ok path" and "data \<noteq> []" "length data < 2 ^ 31"
    and "wr_ok (sk_wr c)" and "pending c = enc32 go @ rest"
  shows "\<exists>c'. sendElfBinaryFromMemory False (Some data) (of_nat (length data)) path c =
      Some (int (length data), c') \<and>
    sk_tx c' = sk_tx c @ binary_request path data \<and> pending c' = rest \<and> wr_ok (sk_wr c')"
proof -
  let ?n = "of_nat (length path + 1) :: u32" and ?k = "of_nat (length data) :: u32"
  have k: "unat ?k = length data" using assms(3) by (intro unat_of_nat_size) (simp add: size_ok_def)
  from sendInt32_t_full [OF assms(4), of ?n] obtain c1 where c1: "sendInt32_t ?n c = (4, c1)"
    "sk_tx c1 = sk_tx c @ enc32 ?n" "wr_ok (sk_wr c1)" "sk_rx c1 = sk_rx c" by blast
  have "path @ [NUL] \<noteq> []" by simp
  from sendData_full [OF this c1(3)] obtain c2 where
    c2: "sendData (path @ [NUL]) c1 = (int (length (path @ [NUL])), c2)"
    "sk_tx c2 = sk_tx c1 @ path @ [NUL]" "wr_ok (sk_wr c2)" "sk_rx c2 = sk_rx c1" by auto
  from sendInt32_t_full [OF c2(3), of ?k] obtain c3 where c3: "sendInt32_t ?k c2 = (4, c3)"
    "sk_tx c3 = sk_tx c2 @ enc32 ?k" "wr_ok (sk_wr c3)" "sk_rx c3 = sk_rx c2" by blast
  have "pending c3 = enc32 go @ rest" using c3(4) c2(4) c1(4) assms(5) by simp
  from receiveInt32_t_full [OF this] obtain c4 where c4: "receiveInt32_t 0 c3 = Some (4, go, c4)"
    "pending c4 = rest" "sk_tx c4 = sk_tx c3" "sk_wr c4 = sk_wr c3" by blast
  have "wr_ok (sk_wr c4)" using c4(4) c3(3) by simp
  from sendData_full [OF assms(2) this] obtain c5 where
    c5: "sendData data c4 = (int (length data), c5)" "sk_tx c5 = sk_tx c4 @ data"
    "wr_ok (sk_wr c5)" "sk_rx c5 = sk_rx c4" by blast
  have sk: "sint ?k = int (length data)"
    using i32_id [of "int (length data)"] assms(3) by (simp add: i32_def)
  have "\<not> int (length data) < 1" using assms(2) by (cases data) simp_all
  then have "sendElfBinaryFromMemory False (Some data) ?k path c = Some (int (length data), c5)"
    using c1(1) c2(1) c3(1) c4(1) c5(1) k sk
    by (simp add: sendElfBinaryFromMemory_def del: of_nat_add of_nat_Suc)
  with c1 c2 c3 c4 c5 show ?thesis by (simp add: binary_request_def)
qed

end
