(* ===== verification/Dom0_Main.thy ===== *)
theory Dom0_Main
  imports Remote_Dom0
begin

text \<open>
  The start-up of dom0-main (server/src/main.cc): the command line, its checks, the address of the
  network interface, the threads that are started, and the client demonstration.

  \<open>getopt_long\<close> is represented by the list of options and arguments it finds; \<open>inet_aton\<close> is the
  parameter \<open>aton\<close>, the network stack's results are arguments of \<open>dom0_main\<close>.
\<close>

section \<open>Options\<close>

datatype dom0_option =
    BUF_SIZE | SHM_NAME | ENABLE_CLIENT | LISTEN_ADDRESS | LUA_LISTEN_PORT | BINARY_LISTEN_PORT
  | GATEWAY | NETMASK | TARGET_ADDRESS | LUA_TARGET_PORT | BINARY_TARGET_PORT
  | OPT_OTHER

record dom0_opts =
  o_bufsize :: int
  o_shm_name :: "byte list"
  o_enableClient :: bool
  o_targetAddress :: u32
  o_gateway :: u32
  o_netmask :: u32
  o_luaListenPort :: int
  o_binaryListenPort :: int
  o_luaTargetPort :: int
  o_binaryTargetPort :: int

definition default_opts :: dom0_opts where
  "default_opts =
     \<lparr>o_bufsize = 1024, o_shm_name = [], o_enableClient = False, o_targetAddress = 0,
      o_gateway = 0, o_netmask = 0, o_luaListenPort = 0, o_binaryListenPort = 0,
      o_luaTargetPort = 0, o_binaryTargetPort = 0\<rparr>"

text \<open>\<open>atoi\<close>: white space, a sign, digits; the result is limited to the range of \<open>long\<close>.\<close>

definition is_space :: "byte \<Rightarrow> bool" where
  "is_space c \<longleftrightarrow> (of_char c :: nat) \<in> {9, 10, 11, 12, 13, 32}"

definition is_digit :: "byte \<Rightarrow> bool" where
  "is_digit c \<longleftrightarrow> 48 \<le> (of_char c :: nat) \<and> (of_char c :: nat) \<le> 57"

fun digits :: "int \<Rightarrow> byte list \<Rightarrow> int" where
  "digits n [] = n"
| "digits n (c # cs) = (if is_digit c then digits (10 * n + (of_char c - 48)) cs else n)"

definition clamp32 :: "int \<Rightarrow> int" where
  "clamp32 i = max (- (2 ^ 31)) (min (2 ^ 31 - 1) i)"

definition atoi :: "byte list \<Rightarrow> int" where
  "atoi s =
     (case dropWhile is_space s of
        [] \<Rightarrow> 0
      | c # cs \<Rightarrow>
          if c = CHR ''-'' then clamp32 (- digits 0 cs)
          else if c = CHR ''+'' then clamp32 (digits 0 cs)
          else clamp32 (digits 0 (c # cs)))"

text \<open>
  The body of the option loop; \<open>None\<close> is \<open>return -1\<close>. \<open>shmsz\<close> is \<open>CFG_SHM_NAME_SIZE\<close> of the network
  library, the size of the array \<open>snprintf\<close> writes to.
\<close>

fun apply_opt :: "(byte list \<Rightarrow> u32 option) \<Rightarrow> nat \<Rightarrow> dom0_option \<times> byte list \<Rightarrow> dom0_opts \<Rightarrow> dom0_opts option" where
  "apply_opt aton shmsz (BUF_SIZE, arg) c = Some (c\<lparr>o_bufsize := atoi arg\<rparr>)"
| "apply_opt aton shmsz (SHM_NAME, arg) c = Some (c\<lparr>o_shm_name := take (shmsz - 1) arg\<rparr>)"
| "apply_opt aton shmsz (ENABLE_CLIENT, arg) c = Some (c\<lparr>o_enableClient := True\<rparr>)"
| "apply_opt aton shmsz (TARGET_ADDRESS, arg) c =
     map_option (\<lambda>a. c\<lparr>o_targetAddress := a\<rparr>) (aton arg)"
| "apply_opt aton shmsz (GATEWAY, arg) c = map_option (\<lambda>a. c\<lparr>o_gateway := a\<rparr>) (aton arg)"
| "apply_opt aton shmsz (NETMASK, arg) c = map_option (\<lambda>a. c\<lparr>o_netmask := a\<rparr>) (aton arg)"
| "apply_opt aton shmsz (LUA_LISTEN_PORT, arg) c = Some (c\<lparr>o_luaListenPort := atoi arg\<rparr>)"
| "apply_opt aton shmsz (BINARY_LISTEN_PORT, arg) c = Some (c\<lparr>o_binaryListenPort := atoi arg\<rparr>)"
| "apply_opt aton shmsz (LUA_TARGET_PORT, arg) c = Some (c\<lparr>o_luaTargetPort := atoi arg\<rparr>)"
| "apply_opt aton shmsz (BINARY_TARGET_PORT, arg) c = Some (c\<lparr>o_binaryTargetPort := atoi arg\<rparr>)"
| "apply_opt aton shmsz (LISTEN_ADDRESS, arg) c = Some c"
| "apply_opt aton shmsz (OPT_OTHER, arg) c = Some c"

fun parse_opts ::
  "(byte list \<Rightarrow> u32 option) \<Rightarrow> nat \<Rightarrow> (dom0_option \<times> byte list) list \<Rightarrow> dom0_opts \<Rightarrow> dom0_opts option" where
  "parse_opts aton shmsz [] c = Some c"
| "parse_opts aton shmsz (x # xs) c = do { c \<leftarrow> apply_opt aton shmsz x c; parse_opts aton shmsz xs c }"

text \<open>The checks behind the loop, in order.\<close>

definition opts_valid :: "dom0_opts \<Rightarrow> bool" where
  "opts_valid c =
     (if o_bufsize c = 0 then False
      else if o_shm_name c = [] then False
      else if o_netmask c = 0 then False
      else if o_gateway c = 0 then False
      else if o_luaListenPort c = 0 then False
      else if o_binaryListenPort c = 0 then False
      else if o_enableClient c then
        (if o_targetAddress c = 0 then False
         else if o_luaTargetPort c = 0 then False
         else if o_binaryTargetPort c = 0 then False
         else True)
      else True)"

section \<open>Start-up\<close>

record client_args =
  ca_address :: u32
  ca_luaPort :: int
  ca_binaryPort :: int

text \<open>The configuration of the network interface; \<open>None\<close> is \<open>L4_INVALID_CAP\<close>.\<close>

record ankh_cfg =
  cfg_bufsize :: int
  cfg_send_thread :: "u32 option"
  cfg_recv_thread :: "u32 option"
  cfg_shm_name :: "byte list"

record net_if =
  ni_ip :: u32
  ni_netmask :: u32
  ni_gw :: u32
  ni_cfg :: ankh_cfg

text \<open>An IPv4 address, the first part in the lowest byte.\<close>

definition ip4 :: "nat \<Rightarrow> nat \<Rightarrow> nat \<Rightarrow> nat \<Rightarrow> u32" where
  "ip4 a b c d = of_nat (a + 256 * b + 65536 * c + 16777216 * d)"

record started =
  st_luaIpc :: lua_client
  st_netif :: net_if
  st_hwbit :: u8
  st_client :: "client_args option"
  st_server :: server_args

text \<open>How a start fails: with an exit code, or by a failed assertion.\<close>

datatype main_end = Exits int | Aborts

text \<open>
  \<open>lua_cap\<close> says whether the environment has the capability \<open>lua_ipc\<close>, \<open>self\<close> is the thread of
  \<open>main\<close>, \<open>added\<close> says whether \<open>netif_add\<close> answers the interface it was given, and \<open>hwaddr5\<close> is the last
  byte of the MAC address.
\<close>

definition dom0_main ::
  "bool \<Rightarrow> int \<Rightarrow> u32 \<Rightarrow> (byte list \<Rightarrow> u32 option) \<Rightarrow> nat \<Rightarrow> bool \<Rightarrow> u8 \<Rightarrow> (dom0_option \<times> byte list) list \<Rightarrow>
   main_end + started" where
  "dom0_main lua_cap ankh self aton shmsz added hwaddr5 args =
     (let (_, luaIpc) = lua_client_init lua_cap LuaIpcClient_new in
      if ankh \<noteq> 0 then Inl (Exits 1)
      else case parse_opts aton shmsz args default_opts of
        None \<Rightarrow> Inl (Exits (-1))
      | Some c \<Rightarrow>
          if \<not> opts_valid c then Inl (Exits (-1))
          else if \<not> added then Inl Aborts
          else Inr \<lparr>st_luaIpc = luaIpc,
            st_netif = \<lparr>ni_ip = ip4 192 168 0 (unat hwaddr5 mod 240 + 1), ni_netmask = o_netmask c,
              ni_gw = o_gateway c,
              ni_cfg = \<lparr>cfg_bufsize = o_bufsize c, cfg_send_thread = Some self, cfg_recv_thread = Some self,
                cfg_shm_name = o_shm_name c\<rparr>\<rparr>,
            st_hwbit = hwaddr5,
            st_client = (if o_enableClient c
              then Some \<lparr>ca_address = o_targetAddress c, ca_luaPort = o_luaTargetPort c,
                ca_binaryPort = o_binaryTargetPort c\<rparr>
              else None),
            st_server = \<lparr>sa_luaPort = o_luaListenPort c, sa_binaryPort = o_binaryListenPort c\<rparr>\<rparr>)"

section \<open>The client demonstration\<close>

datatype demo_action =
    Remote_connect
  | Remote_execute "byte list"
  | Remote_send "byte list" "byte list"
  | Local_execute "byte list"
  | Sleep nat

definition NETWORK_BINARY_PATH :: "byte list" where "NETWORK_BINARY_PATH = ''/net-files/''"

text \<open>The double quotes of the Lua commands.\<close>

definition q :: "byte list \<Rightarrow> byte list" where "q s = [CHR 0x22] @ s @ [CHR 0x22]"

definition start_cmd :: "byte list \<Rightarrow> byte list \<Rightarrow> byte list \<Rightarrow> byte list" where
  "start_cmd var tag colour =
     var @ '' = L4.default_loader:start({log = {'' @ q tag @ '', '' @ q colour @ ''}},'' @ q ''rom/hello'' @ '');''"

definition clientDemo :: "u8 \<Rightarrow> demo_action list" where
  "clientDemo hwbit =
     [Sleep 2, Remote_connect, Sleep 2] @
     (if unat hwbit mod 10 = 2 then
        [Sleep 2, Remote_execute (start_cmd ''hello1'' ''hello1'' ''c''), Sleep 3, Sleep 2,
         Remote_send ''rom/test'' (NETWORK_BINARY_PATH @ ''test'')]
      else if unat hwbit mod 10 = 3 then
        [Sleep 2, Remote_execute (start_cmd ''hello2'' ''hello2'' ''y''), Sleep 10, Sleep 2,
         Remote_execute ''hello1:kill();'', Sleep 10, Sleep 2, Remote_execute ''hello2:kill();'']
      else if unat hwbit mod 10 = 4 then
        [Sleep 7, Sleep 2, Local_execute (start_cmd ''hello'' ''hi1'' ''r''), Sleep 10, Sleep 2,
         Local_execute ''hello:kill();'']
      else [])"

text \<open>
  The demonstration as it runs: the instance \<open>remoteDom0\<close>, the sockets of the program, and the world behind
  \<open>luaIpc\<close>, which \<open>call\<close> reaches (\<open>trunc\<close> as in \<open>Lua_Ipc\<close>). \<open>lua\<close> and \<open>bin\<close> are what \<open>socket\<close> and \<open>connect\<close> answer for the two sockets,
  \<open>rom\<close> are the files that can be read.
\<close>

record 'w demo_world =
  dw_remote :: remote_dom0
  dw_socks :: sockets
  dw_local :: 'w

fun demo_step ::
  "(byte list \<Rightarrow> byte list) \<Rightarrow> 'w ltransport \<Rightarrow> int \<times> nat \<Rightarrow> int \<times> nat \<Rightarrow> (nat \<Rightarrow> byte) \<Rightarrow> bool \<Rightarrow> (byte list \<Rightarrow> (byte list \<times> nat) option) \<Rightarrow>
   demo_action \<Rightarrow> 'w demo_world \<Rightarrow> 'w demo_world option" where
  "demo_step trunc call lua bin junk mem_ok rom Remote_connect w =
     Some (w\<lparr>dw_remote := snd (rd_connect lua bin (dw_remote w))\<rparr>)"
| "demo_step trunc call lua bin junk mem_ok rom (Remote_execute cmd) w =
     map_option (\<lambda>(_, T). w\<lparr>dw_socks := T\<rparr>) (rd_executeLuaString (dw_remote w) cmd (dw_socks w))"
| "demo_step trunc call lua bin junk mem_ok rom (Remote_send localname remotename) w =
     map_option (\<lambda>(_, T). w\<lparr>dw_socks := T\<rparr>)
       (rd_sendElfBinaryFromRom (dw_remote w) junk mem_ok (rom localname) remotename (dw_socks w))"
| "demo_step trunc call lua bin junk mem_ok rom (Local_execute cmd) w =
     map_option (\<lambda>(_, l). w\<lparr>dw_local := l\<rparr>) (executeString trunc call cmd (dw_local w))"
| "demo_step trunc call lua bin junk mem_ok rom (Sleep n) w = Some w"

fun run_demo ::
  "(byte list \<Rightarrow> byte list) \<Rightarrow> 'w ltransport \<Rightarrow> int \<times> nat \<Rightarrow> int \<times> nat \<Rightarrow> (nat \<Rightarrow> byte) \<Rightarrow> bool \<Rightarrow> (byte list \<Rightarrow> (byte list \<times> nat) option) \<Rightarrow>
   demo_action list \<Rightarrow> 'w demo_world \<Rightarrow> 'w demo_world option" where
  "run_demo trunc call lua bin junk mem_ok rom [] w = Some w"
| "run_demo trunc call lua bin junk mem_ok rom (a # as) w = do {
     w \<leftarrow> demo_step trunc call lua bin junk mem_ok rom a w;
     run_demo trunc call lua bin junk mem_ok rom as w
   }"

text \<open>The Lua commands among the actions.\<close>

fun remote_cmds :: "demo_action list \<Rightarrow> byte list list" where
  "remote_cmds [] = []"
| "remote_cmds (Remote_execute cmd # as) = cmd # remote_cmds as"
| "remote_cmds (_ # as) = remote_cmds as"

definition lua_connected :: "int \<Rightarrow> int \<Rightarrow> 'w demo_world \<Rightarrow> bool" where
  "lua_connected fd fb w \<longleftrightarrow> \<not> isDisabled (rd_lua (dw_remote w)) \<and> tc_target (rd_lua (dw_remote w)) = Some fd \<and>
     (isDisabled (rd_bin (dw_remote w)) \<or> tc_target (rd_bin (dw_remote w)) = Some fb) \<and>
     wr_ok (sk_wr (dw_socks w fd))"

text \<open>One action sends the request of its command on the Lua socket, and nothing else there.\<close>

lemma demo_step_connected:
  assumes "lua_connected fd fb w" and "fb \<noteq> fd"
    and step: "demo_step trunc call (fd, e) (fb, e') junk mem_ok rom a w = Some w'"
    and ok: "\<forall>c \<in> set (remote_cmds [a]). lua_cmd_ok c"
  shows "lua_connected fd fb w' \<and>
    sk_tx (dw_socks w' fd) = sk_tx (dw_socks w fd) @ concat (map lua_request (remote_cmds [a])) \<and>
    (\<forall>x. x \<noteq> fd \<longrightarrow> x \<noteq> fb \<longrightarrow> dw_socks w' x = dw_socks w x)"
proof (cases a)
  case Remote_connect
  with assms(1) step show ?thesis
    by (auto simp: lua_connected_def split: if_splits)
next
  case (Remote_execute cmd)
  with assms(1) step obtain r c where c: "executeLuaString False cmd (dw_socks w fd) = Some (r, c)"
    "w' = w\<lparr>dw_socks := (dw_socks w)(fd := c)\<rparr>"
    by (auto simp: lua_connected_def rd_executeLuaString_def on_target_def split: bind_splits)
  from executeLuaString_tx [OF _ _ c(1)] ok Remote_execute assms(1)
  show ?thesis by (simp add: c(2) lua_connected_def)
next
  case (Remote_send x y)
  with assms(1,2) step show ?thesis
    by (auto simp: lua_connected_def rd_sendElfBinaryFromRom_def on_target_def split: bind_splits if_splits)
next
  case (Local_execute cmd)
  with assms(1) step show ?thesis by (auto simp: lua_connected_def)
next
  case (Sleep n)
  with assms(1) step show ?thesis by (auto simp: lua_connected_def)
qed

lemma remote_cmds_Cons: "remote_cmds (a # as) = remote_cmds [a] @ remote_cmds as"
  by (cases a) simp_all

lemma run_demo_connected:
  assumes "lua_connected fd fb w" and "fb \<noteq> fd"
    and "run_demo trunc call (fd, e) (fb, e') junk mem_ok rom as w = Some w'"
    and "\<forall>c \<in> set (remote_cmds as). lua_cmd_ok c"
  shows "lua_connected fd fb w' \<and>
    sk_tx (dw_socks w' fd) = sk_tx (dw_socks w fd) @ concat (map lua_request (remote_cmds as)) \<and>
    (\<forall>x. x \<noteq> fd \<longrightarrow> x \<noteq> fb \<longrightarrow> dw_socks w' x = dw_socks w x)"
  using assms
proof (induction as arbitrary: w)
  case Nil
  then show ?case by simp
next
  case (Cons a as)
  from Cons.prems(3) obtain w1 where w1: "demo_step trunc call (fd, e) (fb, e') junk mem_ok rom a w = Some w1"
    "run_demo trunc call (fd, e) (fb, e') junk mem_ok rom as w1 = Some w'" by (auto split: bind_splits)
  from Cons.prems(4) have ok: "\<forall>c \<in> set (remote_cmds [a]). lua_cmd_ok c" "\<forall>c \<in> set (remote_cmds as). lua_cmd_ok c"
    unfolding remote_cmds_Cons [of a as] by auto
  note s = demo_step_connected [OF Cons.prems(1,2) w1(1) ok(1)]
  from Cons.IH [OF _ Cons.prems(2) w1(2) ok(2)] s show ?case
    unfolding remote_cmds_Cons [of a as] by simp
qed

text \<open>The world of the program before the demonstration connects.\<close>

definition demo_start :: "client_args \<Rightarrow> sockets \<Rightarrow> 'w \<Rightarrow> 'w demo_world" where
  "demo_start ca T l =
     \<lparr>dw_remote = RemoteDom0Instance_new (ca_address ca) (ca_luaPort ca) (ca_binaryPort ca),
      dw_socks = T, dw_local = l\<rparr>"

lemma run_demo_start:
  assumes "run_demo trunc call (fd, e) (fb, e') junk mem_ok rom (Sleep k # Remote_connect # as) (demo_start ca T l) = Some w'"
    and "word_of_int (ca_luaPort ca) \<noteq> (0 :: 16 word)" and "fb \<noteq> fd" and "wr_ok (sk_wr (T fd))"
    and "\<forall>c \<in> set (remote_cmds as). lua_cmd_ok c"
  shows "sk_tx (dw_socks w' fd) = sk_tx (T fd) @ concat (map lua_request (remote_cmds as)) \<and>
    (\<forall>x. x \<noteq> fd \<longrightarrow> x \<noteq> fb \<longrightarrow> dw_socks w' x = T x)"
proof -
  define w0 where "w0 = (demo_start ca T l)\<lparr>dw_remote := snd (rd_connect (fd, e) (fb, e') (dw_remote (demo_start ca T l)))\<rparr>"
  have "lua_connected fd fb w0"
    using assms(2,4) by (auto simp: lua_connected_def w0_def demo_start_def RemoteDom0Instance_new_def
        TcpClientSocket_new_def isDisabled_def)
  moreover have "run_demo trunc call (fd, e) (fb, e') junk mem_ok rom as w0 = Some w'" "dw_socks w0 = T"
    using assms(1) by (simp_all add: w0_def demo_start_def)
  ultimately show ?thesis using run_demo_connected [of fd fb w0] assms(3,5) by blast
qed

lemma clientDemo_starts: "\<exists>as. clientDemo hw = Sleep 2 # Remote_connect # as"
  by (simp add: clientDemo_def)

lemma clientDemo_cmds: "c \<in> set (remote_cmds (clientDemo hw)) \<Longrightarrow> lua_cmd_ok c \<and> utcb_fits (c @ [NUL])"
  by (auto simp: clientDemo_def lua_cmd_ok_def utcb_fits_length BUF_LEN_def start_cmd_def q_def split: if_splits)

lemma parse_opts_append:
  "parse_opts aton k (xs @ ys) c = Option.bind (parse_opts aton k xs c) (parse_opts aton k ys)"
  by (induction xs arbitrary: c) (auto split: bind_splits)

lemma dom0_main_Inr:
  "dom0_main lua_cap ankh self aton k added hw args = Inr st \<longleftrightarrow>
    ankh = 0 \<and> added \<and> st_luaIpc st = \<lparr>lc_valid = lua_cap\<rparr> \<and>
    (\<exists>c. parse_opts aton k args default_opts = Some c \<and> opts_valid c \<and>
      st_netif st = \<lparr>ni_ip = ip4 192 168 0 (unat hw mod 240 + 1), ni_netmask = o_netmask c,
        ni_gw = o_gateway c, ni_cfg = \<lparr>cfg_bufsize = o_bufsize c, cfg_send_thread = Some self,
          cfg_recv_thread = Some self, cfg_shm_name = o_shm_name c\<rparr>\<rparr> \<and> st_hwbit st = hw \<and>
      st_client st = (if o_enableClient c then Some \<lparr>ca_address = o_targetAddress c,
        ca_luaPort = o_luaTargetPort c, ca_binaryPort = o_binaryTargetPort c\<rparr> else None) \<and>
      st_server st = \<lparr>sa_luaPort = o_luaListenPort c, sa_binaryPort = o_binaryListenPort c\<rparr>)"
  by (cases st) (auto simp: dom0_main_def lua_client_init_def LuaIpcClient_new_def split: option.splits)

text \<open>
  The checks compare a port with 0 as an \<open>int\<close>, while \<open>htons\<close> keeps 16 bits: a program that starts also
  starts with the Lua port 65536, and then listens on port 0.
\<close>

lemma atoi_65536: "atoi ''65536'' = 65536"
  by (simp add: atoi_def is_space_def is_digit_def clamp32_def)

lemma listen_port_cut:
  assumes "dom0_main lua_cap ankh self aton k added hw args = Inr st"
  shows "\<exists>st'. dom0_main lua_cap ankh self aton k added hw (args @ [(LUA_LISTEN_PORT, ''65536'')]) = Inr st' \<and>
    map (\<lambda>a. ln_port (fst (serverCombined a []))) (dom0Server (st_server st')) =
      [0, word_of_int (sa_binaryPort (st_server st))]"
proof -
  from assms obtain c where c: "parse_opts aton k args default_opts = Some c" "opts_valid c" "ankh = 0" "added"
    "st_server st = \<lparr>sa_luaPort = o_luaListenPort c, sa_binaryPort = o_binaryListenPort c\<rparr>"
    by (auto simp: dom0_main_Inr)
  have c': "parse_opts aton k (args @ [(LUA_LISTEN_PORT, ''65536'')]) default_opts = Some (c\<lparr>o_luaListenPort := 65536\<rparr>)"
    using c(1) by (simp add: parse_opts_append atoi_65536)
  have v: "opts_valid (c\<lparr>o_luaListenPort := 65536\<rparr>)"
    using c(2) by (simp add: opts_valid_def split: if_splits)
  show ?thesis using c(3-5) c' v
    by (simp add: dom0_main_def lua_client_init_def dom0Server_def serverCombined_def)
qed

end
