(* ===== verification/Dom0_Properties.thy ===== *)
theory Dom0_Properties
  imports Dom0_Main
begin

text \<open>
  The properties of the network parts: the stream helpers, the two connection handlers, the client
  that talks to them, Ned's interpreter at the end of the chain, and the start-up of dom0-main.
\<close>

section \<open>Streams\<close>

text \<open>C17: if the next \<open>n\<close> bytes of the stream arrive before it ends or fails, \<open>receiveData\<close> stores exactly
  these bytes at the start of the buffer, returns \<open>n\<close> and leaves the rest of the stream, however the
  bytes are trunc into reads; if they do not arrive, the result is the negated \<open>errno\<close>, never positive, and the
  buffer is not exceeded.\<close>

theorem receiveData_chunking:
  assumes "n \<le> msize b"
  shows "(0 < n \<and> n \<le> length (pending s) \<longrightarrow>
      (\<exists>b' s'. receiveData b n s = Some (int n, b', s') \<and> mread b' 0 n = Some (take n (pending s)) \<and>
        pending s' = drop n (pending s))) \<and>
    (\<not> (0 < n \<and> n \<le> length (pending s)) \<longrightarrow>
      (\<exists>b' s'. receiveData b n s = Some (- int (sk_errno s'), b', s')))"
proof (intro conjI impI)
  assume n: "0 < n \<and> n \<le> length (pending s)"
  then obtain b' s' where r: "receiveData b n s = Some (int n, b', s')"
    "mwrite b 0 (take n (pending s)) = Some b'" "pending s' = drop n (pending s)"
    using receiveData_full [of n s b] assms by blast
  moreover have "mread b' 0 n = Some (take n (pending s))"
    using mread_mwrite_same [OF r(2)] n by simp
  ultimately show "\<exists>b' s'. receiveData b n s = Some (int n, b', s') \<and>
      mread b' 0 n = Some (take n (pending s)) \<and> pending s' = drop n (pending s)" by blast
next
  assume "\<not> (0 < n \<and> n \<le> length (pending s))"
  then show "\<exists>b' s'. receiveData b n s = Some (- int (sk_errno s'), b', s')"
    using receiveData_short [of s n b] assms by fastforce
qed

definition demo_sock :: "rx_event list \<Rightarrow> sock" where
  "demo_sock rx = \<lparr>sk_rx = rx, sk_wr = [], sk_tx = [], sk_errno = 0\<rparr>"

lemma receiveData_chunking_witness:
  "\<exists>b' s'. receiveData (mzero 8) 5 (demo_sock [Chunk ''ab'', Chunk ''cdef'']) = Some (5, b', s') \<and>
    mread b' 0 5 = Some ''abcde'' \<and> pending s' = ''f''"
  using receiveData_chunking [of 5 "mzero 8" "demo_sock [Chunk ''ab'', Chunk ''cdef'']"]
  by (auto simp: mzero_def demo_sock_def)

text \<open>C18: what \<open>sendData\<close> and \<open>sendInt32_t\<close> put on the wire is received unchanged by the helpers of the
  other side, for every cutting on either side.\<close>

theorem send_receive_roundtrip:
  assumes "data \<noteq> []" and "wr_ok (sk_wr c)" and "sk_tx c = []"
    and "sendInt32_t w c = (r1, c1)" and "sendData data c1 = (r2, c2)"
    and "pending s = sk_tx c2" and "length data \<le> msize b"
  shows "r1 = 4 \<and> r2 = int (length data) \<and>
    (\<exists>s1 b' s2. receiveInt32_t m s = Some (4, w, s1) \<and>
      receiveData b (length data) s1 = Some (int (length data), b', s2) \<and>
      mread b' 0 (length data) = Some data \<and> pending s2 = [])"
proof -
  have c1: "r1 = 4" "sk_tx c1 = enc32 w" "wr_ok (sk_wr c1)"
    using sendInt32_t_full [OF assms(2), of w] assms(3,4) by auto
  have c2: "r2 = int (length data)" "sk_tx c2 = enc32 w @ data"
    using sendData_full [OF assms(1) c1(3)] assms(5) c1(2) by auto
  from receiveInt32_t_full [of s w data m] obtain s1 where
    s1: "receiveInt32_t m s = Some (4, w, s1)" "pending s1 = data" using assms(6) c2(2) by auto
  have "0 < length data" "length data \<le> length (pending s1)" using assms(1) s1(2) by auto
  from receiveData_full [OF this assms(7)] obtain b' s2 where
    "receiveData b (length data) s1 = Some (int (length data), b', s2)"
    "mwrite b 0 (take (length data) (pending s1)) = Some b'"
    "pending s2 = drop (length data) (pending s1)" by blast
  moreover from this(2) s1(2) have "mread b' 0 (length data) = Some data"
    using mread_mwrite_same [of b 0 data b'] by simp
  ultimately show ?thesis using c1 c2 s1 by auto
qed

lemma send_receive_roundtrip_witness:
  "\<exists>s1 b' s2. receiveInt32_t 0 (demo_sock [Chunk (enc32 7 @ ''ab''), Chunk ''c'']) = Some (4, 7, s1) \<and>
    receiveData (mzero 3) 3 s1 = Some (3, b', s2) \<and> mread b' 0 3 = Some ''abc''"
proof -
  obtain r1 c1 r2 c2 where c: "sendInt32_t 7 (demo_sock []) = (r1, c1)" "sendData ''abc'' c1 = (r2, c2)"
    by fastforce
  have wr: "wr_ok (sk_wr (demo_sock []))" "sk_tx (demo_sock []) = []"
    by (simp_all add: demo_sock_def wr_ok_def)
  have "sk_tx c2 = enc32 7 @ ''abc''"
    using sendInt32_t_full [OF wr(1), of 7] sendData_full [of "''abc''" c1] c wr by auto
  then have p: "pending (demo_sock [Chunk (enc32 7 @ ''ab''), Chunk ''c'']) = sk_tx c2"
    by (simp add: demo_sock_def)
  have "''abc'' \<noteq> []" "length ''abc'' \<le> msize (mzero 3)" by (simp_all add: mzero_def)
  have l: "length ''abc'' = 3" by simp
  from send_receive_roundtrip [OF \<open>''abc'' \<noteq> []\<close> wr c p \<open>length ''abc'' \<le> msize (mzero 3)\<close>, of 0,
      unfolded l of_nat_numeral]
  show ?thesis by blast
qed

section \<open>Lua commands\<close>

text \<open>C8: a session of Lua commands, from the client demonstration of one machine to the interpreter of another.
  Whatever a client does after it has connected, with local commands, files and pauses in between, the
  handler runs every one of its remote commands exactly once, in order, passes each one unchanged to the
  interpreter, answers each with \<open>LUA_OK\<close> or \<open>LUA_ERROR\<close>, and ends when the peer closes, for every cutting of
  the stream and every content of its uninitialised buffer, and also when the client does not get
  the answers. The client touches no other socket than its two. The demonstration is such a client.
\<close>

theorem lua_session:
  assumes cmds: "\<forall>c \<in> set (remote_cmds as). lua_cmd_ok c"
    and ca: "word_of_int (ca_luaPort ca) \<noteq> (0 :: 16 word)" and fd: "fb \<noteq> fd"
    and T: "wr_ok (sk_wr (T fd))" "sk_tx (T fd) = []"
    and client: "run_demo trunc call (fd, e) (fb, e') junkc mem_ok rom (Sleep k # Remote_connect # as) (demo_start ca T loc) =
      Some w"
    and s: "pending s = sk_tx (dw_socks w fd)" "wr_ok (sk_wr s)"
    and X: "exec_all X (remote_cmds as) l = Some (oks, l')"
  shows "(\<exists>s'. luaConnectionHandler X junk l s = Some (l', s') \<and>
      sk_tx s' = sk_tx s @ concat (map lua_answer oks)) \<and>
    (\<forall>x. x \<noteq> fd \<longrightarrow> x \<noteq> fb \<longrightarrow> dw_socks w x = T x) \<and>
    (\<exists>as. clientDemo hw = Sleep 2 # Remote_connect # as \<and> (\<forall>c \<in> set (remote_cmds as). lua_cmd_ok c))"
proof -
  note c = run_demo_start [OF client ca fd T(1) cmds]
  from c T(2) s(1) have "pending s = concat (map lua_request (remote_cmds as))" by simp
  from lua_loop_session [OF cmds this s(2) _ X, of "\<lparr>msize = BUF_LEN, mcell = junk\<rparr>" 0]
  have "\<exists>s'. luaConnectionHandler X junk l s = Some (l', s') \<and> sk_tx s' = sk_tx s @ concat (map lua_answer oks)"
    by (simp add: luaConnectionHandler_def)
  moreover from clientDemo_starts [of hw] obtain bs where bs: "clientDemo hw = Sleep 2 # Remote_connect # bs" by blast
  moreover from this have "\<forall>c \<in> set (remote_cmds bs). lua_cmd_ok c" using clientDemo_cmds [of _ hw] by simp
  ultimately show ?thesis using c by blast
qed

definition demo_client :: client_args where
  "demo_client = \<lparr>ca_address = 1, ca_luaPort = 4000, ca_binaryPort = 4001\<rparr>"

definition answers_sock :: sock where
  "answers_sock = demo_sock [Chunk (lua_answer True @ lua_answer True)]"

lemma lua_session_witness:
  "\<exists>w s'. run_demo (take 240) (\<lambda>_ _ l. Some (0, [W32 LUA_OK], l)) (3, 0) (4, 0) (\<lambda>_. NUL) True (\<lambda>_. None)
      [Sleep 2, Remote_connect, Remote_execute ''a=1'', Local_execute ''c=3'', Remote_execute ''b=2'']
      (demo_start demo_client (\<lambda>_. answers_sock) ()) = Some w \<and>
    luaConnectionHandler (\<lambda>c l. Some (True, l @ [c])) (\<lambda>_. CHR ''x'') []
      (demo_sock [Chunk (sk_tx (dw_socks w 3))]) = Some ([''a=1'', ''b=2''], s') \<and>
    sk_tx s' = lua_answer True @ lua_answer True"
proof -
  let ?as = "[Remote_execute ''a=1'', Local_execute ''c=3'', Remote_execute ''b=2'']"
  let ?X = "\<lambda>c l. Some (True, l @ [c])"
  have ok: "lua_cmd_ok ''a=1''" "lua_cmd_ok ''b=2''" by (simp_all add: lua_cmd_ok_def BUF_LEN_def)
  then have cmds: "\<forall>c \<in> set (remote_cmds ?as). lua_cmd_ok c" by simp
  have ca: "word_of_int (ca_luaPort demo_client) \<noteq> (0 :: 16 word)" by (simp add: demo_client_def)
  have T: "wr_ok (sk_wr answers_sock)" "sk_tx answers_sock = []"
    by (simp_all add: answers_sock_def demo_sock_def wr_ok_def)
  have ne: "enc32 w \<noteq> []" for w using length_enc32 [of w] by fastforce
  have p: "pending answers_sock = enc32 LUA_OK @ (enc32 LUA_OK @ [])"
    by (simp add: answers_sock_def demo_sock_def lua_answer_def ne)
  from executeLuaString_sends [OF ok(1) T(1) p] obtain c1 where
    c1: "executeLuaString False ''a=1'' answers_sock = Some (sint LUA_OK, c1)" "pending c1 = enc32 LUA_OK @ []" "wr_ok (sk_wr c1)"
    by auto
  from executeLuaString_sends [OF ok(2) c1(3,2)] obtain c2 where
    c2: "executeLuaString False ''b=2'' c1 = Some (sint LUA_OK, c2)" by auto
  let ?start = "demo_start demo_client (\<lambda>_ :: int. answers_sock) ()"
  let ?conn = "?start\<lparr>dw_remote := snd (rd_connect (3, 0) (4, 0) (dw_remote ?start))\<rparr>"
  let ?done = "?conn\<lparr>dw_socks := (\<lambda>_. answers_sock)(3 := c2)\<rparr>"
  have "run_demo (take 240) (\<lambda>_ _ l. Some (0, [W32 LUA_OK], l)) (3, 0) (4, 0) (\<lambda>_. NUL) True (\<lambda>_. None)
      (Sleep 2 # Remote_connect # ?as) ?start = Some ?done"
    using c1(1) c2 ca
    by (simp add: rd_executeLuaString_def on_target_def executeString_def executeString_n_def demo_start_def
        RemoteDom0Instance_new_def TcpClientSocket_new_def isDisabled_def)
  moreover define s where "s = demo_sock [Chunk (sk_tx (dw_socks ?done 3))]"
  have "sk_tx (dw_socks ?done 3) = lua_request ''a=1'' @ lua_request ''b=2''"
    using executeLuaString_tx [OF ok(1) T(1) c1(1)] executeLuaString_tx [OF ok(2) c1(3) c2] T(2) by simp
  then have s: "pending s = sk_tx (dw_socks ?done 3)" "wr_ok (sk_wr s)"
    by (simp_all add: s_def demo_sock_def wr_ok_def lua_request_def)
  have X: "exec_all ?X (remote_cmds ?as) [] = Some ([True, True], [''a=1'', ''b=2''])" by simp
  have fd: "(4 :: int) \<noteq> 3" by simp
  from lua_session [OF cmds ca fd T calculation s X, of "\<lambda>_. CHR ''x''" 3] obtain s' where
    "luaConnectionHandler ?X (\<lambda>_. CHR ''x'') [] s = Some ([''a=1'', ''b=2''], s')"
    "sk_tx s' = sk_tx s @ concat (map lua_answer [True, True])" by blast
  ultimately show ?thesis by (intro exI [of _ ?done] exI [of _ s']) (simp add: s_def demo_sock_def)
qed

text \<open>C6: the whole chain: a command sent with \<open>executeLuaString\<close> to the handler and by the handler over IPC
  to \<open>Ned_server\<close>. If it fits the UTCB, with its terminator at most 240 bytes, Ned's interpreter runs it once and
  the client receives \<open>LUA_OK\<close>; a longer one (up to the 1023 bytes of the handler's buffer) does not arrive complete, is not
  run, and the client receives \<open>LUA_ERROR\<close>. The client's request is what the handler reads and the
  handler's answer what the client reads.\<close>

theorem remote_lua_end_to_end:
  assumes cmd: "lua_cmd_ok cmd" and ned: "ned_wf n" and trunc: "cuts_strings trunc"
    and c: "wr_ok (sk_wr c)" "sk_tx c = []" and s: "wr_ok (sk_wr s)" "sk_tx s = []"
    and client: "executeLuaString False cmd c = Some (r, c')"
    and server: "luaConnectionHandler (executeString trunc (ned_dispatch A)) junk n s = Some (n', s')"
    and wires: "pending s = sk_tx c'" "pending c = sk_tx s'"
  shows "(if length cmd + 1 \<le> 240 then r = sint LUA_OK \<and> ns_lua n' = run_chunk A cmd (ns_lua n)
      else r = sint LUA_ERROR \<and> ns_lua n' = ns_lua n) \<and> ned_wf n'"
proof -
  let ?fits = "utcb_fits (cmd @ [NUL])"
  have nul: "NUL \<notin> set cmd" using cmd by (simp add: lua_cmd_ok_def)
  obtain n1 where n1: "executeString trunc (ned_dispatch A) cmd n = Some (?fits, n1)" "ned_wf n1"
    "ns_lua n1 = (if ?fits then run_chunk A cmd (ns_lua n) else ns_lua n)"
    using executeString_ned [OF ned nul trunc, of A] by blast
  have sent: "sk_tx c' = lua_request cmd" using executeLuaString_tx [OF cmd c(1) client] c(2) by simp
  have "\<forall>c \<in> set [cmd]. lua_cmd_ok c" "pending s = concat (map lua_request [cmd])"
    "exec_all (executeString trunc (ned_dispatch A)) [cmd] n = Some ([?fits], n1)"
    using cmd wires(1) sent n1(1) by simp_all
  from lua_loop_session [OF this(1,2) s(1) _ this(3), of "\<lparr>msize = BUF_LEN, mcell = junk\<rparr>" 0] server s(2)
  have "n' = n1" "sk_tx s' = lua_answer ?fits" by (auto simp: luaConnectionHandler_def)
  with executeLuaString_sends [OF cmd c(1), of "if ?fits then LUA_OK else LUA_ERROR" "[]"] wires(2) client n1(2,3)
  show ?thesis by (auto simp: lua_answer_def utcb_fits_length)
qed

lemma remote_lua_end_to_end_witness:
  "(\<exists>c' n' s'. executeLuaString False ''x=1'' (demo_sock [Chunk (lua_answer True)]) = Some (sint LUA_OK, c') \<and>
    luaConnectionHandler (executeString (take 240) (ned_dispatch log_lua)) (\<lambda>_. CHR ''x'') (ned_server_new [])
      (demo_sock [Chunk (lua_request ''x=1'')]) = Some (n', s') \<and> ns_lua n' = [''x=1'']) \<and>
   (\<exists>c' n' s'. executeLuaString False (replicate 240 CHR ''x'') (demo_sock [Chunk (lua_answer False)]) =
      Some (sint LUA_ERROR, c') \<and>
    luaConnectionHandler (executeString (take 240) (ned_dispatch log_lua)) (\<lambda>_. CHR ''x'') (ned_server_new [])
      (demo_sock [Chunk (lua_request (replicate 240 CHR ''x''))]) = Some (n', s') \<and> ns_lua n' = [])"
proof -
  have run: "\<exists>c' n' s'. executeLuaString False cmd (demo_sock [Chunk (lua_answer (length cmd + 1 \<le> 240))]) =
      Some (sint (if length cmd + 1 \<le> 240 then LUA_OK else LUA_ERROR), c') \<and>
    luaConnectionHandler (executeString (take 240) (ned_dispatch log_lua)) (\<lambda>_. CHR ''x'') (ned_server_new [])
      (demo_sock [Chunk (lua_request cmd)]) = Some (n', s') \<and>
    ns_lua n' = (if length cmd + 1 \<le> 240 then [cmd] else [])" if ok: "lua_cmd_ok cmd" for cmd
  proof -
    let ?f = "length cmd + 1 \<le> 240"
    let ?c = "demo_sock [Chunk (lua_answer ?f)]" and ?s = "demo_sock [Chunk (lua_request cmd)]"
    let ?w = "if ?f then LUA_OK else LUA_ERROR"
    have socks: "wr_ok (sk_wr ?c)" "sk_tx ?c = []" "wr_ok (sk_wr ?s)" "sk_tx ?s = []"
      by (simp_all add: demo_sock_def wr_ok_def)
    have ne: "enc32 w \<noteq> []" for w using length_enc32 [of w] by fastforce
    have pc: "pending ?c = enc32 ?w @ []" by (simp add: demo_sock_def lua_answer_def ne)
    from executeLuaString_sends [OF ok socks(1) pc] socks(2) obtain c' where
      c': "executeLuaString False cmd ?c = Some (sint ?w, c')" "sk_tx c' = lua_request cmd" by auto
    have nul: "NUL \<notin> set cmd" using ok by (simp add: lua_cmd_ok_def)
    obtain n1 where n1: "executeString (take 240) (ned_dispatch log_lua) cmd (ned_server_new []) = Some (?f, n1)"
      using executeString_ned [OF ned_wf_new nul cuts_strings_take, of log_lua "[]"] by (auto simp: utcb_fits_length)
    have h: "\<forall>c \<in> set [cmd]. lua_cmd_ok c" "pending ?s = concat (map lua_request [cmd])"
      "exec_all (executeString (take 240) (ned_dispatch log_lua)) [cmd] (ned_server_new []) = Some ([?f], n1)"
      using ok n1 by (simp_all add: demo_sock_def lua_request_def)
    from lua_loop_session [OF h(1,2) socks(3) _ h(3), of "\<lparr>msize = BUF_LEN, mcell = \<lambda>_. CHR ''x''\<rparr>" 0]
    obtain s' where s': "luaConnectionHandler (executeString (take 240) (ned_dispatch log_lua)) (\<lambda>_. CHR ''x'')
        (ned_server_new []) ?s = Some (n1, s')" "sk_tx s' = lua_answer ?f"
      using socks(4) by (auto simp: luaConnectionHandler_def)
    have wires: "pending ?s = sk_tx c'" "pending ?c = sk_tx s'"
      using h(2) c'(2) s'(2) pc by (simp_all add: lua_answer_def)
    from remote_lua_end_to_end [OF ok ned_wf_new cuts_strings_take socks c'(1) s'(1) wires]
    have "ns_lua n1 = (if ?f then [cmd] else [])" by (auto simp: run_chunk_def log_lua_def ned_server_new_def)
    with c' s' show ?thesis by blast
  qed
  have "lua_cmd_ok ''x=1''" "lua_cmd_ok (replicate 240 CHR ''x'')" by (simp_all add: lua_cmd_ok_def BUF_LEN_def)
  from run [OF this(1)] run [OF this(2)] show ?thesis by simp
qed

text \<open>\<open>Ned_server::dispatch\<close> on every message that fits the UTCB: another protocol or opcode is refused; a
  string runs exactly if it arrived complete, with its terminator and no other NUL; otherwise the answer
  is \<open>LUA_ERROR\<close> and the interpreter is not touched. The buffer keeps its final NUL.\<close>

theorem ned_dispatch_cases:
  assumes "ned_wf s" and "length bs < 256"
  shows "(label \<noteq> Protocol_LuaDom0 \<longrightarrow> ned_dispatch A label ios s = Some (- L4_EBADPROTO, [], s)) \<and>
    (opc \<noteq> Opcode_executeLuaLine \<longrightarrow>
      ned_dispatch A Protocol_LuaDom0 (W32 opc # ios) s = Some (- L4_ENOSYS, [], s)) \<and>
    (\<exists>b. ned_wf (s\<lparr>ns_buffer := b\<rparr>) \<and>
      ned_dispatch A Protocol_LuaDom0 (W32 Opcode_executeLuaLine # W32 n # Buf bs # m) s =
        Some (if \<exists>cmd. bs = cmd @ [NUL] \<and> NUL \<notin> set cmd
          then (0, [W32 LUA_OK], s\<lparr>ns_buffer := b, ns_lua := run_chunk A (butlast bs) (ns_lua s)\<rparr>)
          else (0, [W32 LUA_ERROR], s\<lparr>ns_buffer := b\<rparr>)))"
proof (intro conjI impI)
  obtain b where "ned_dispatch A Protocol_LuaDom0 (W32 Opcode_executeLuaLine # W32 n # Buf bs # m) s =
      Some (if \<exists>cmd. bs = cmd @ [NUL] \<and> NUL \<notin> set cmd
        then (0, [W32 LUA_OK], s\<lparr>ns_buffer := b, ns_lua := run_chunk A (butlast bs) (ns_lua s)\<rparr>)
        else (0, [W32 LUA_ERROR], s\<lparr>ns_buffer := b\<rparr>))" "ned_wf (s\<lparr>ns_buffer := b\<rparr>)"
    using ned_dispatch_exec [OF assms, of A n m] by blast
  then show "\<exists>b. ned_wf (s\<lparr>ns_buffer := b\<rparr>) \<and>
      ned_dispatch A Protocol_LuaDom0 (W32 Opcode_executeLuaLine # W32 n # Buf bs # m) s =
        Some (if \<exists>cmd. bs = cmd @ [NUL] \<and> NUL \<notin> set cmd
          then (0, [W32 LUA_OK], s\<lparr>ns_buffer := b, ns_lua := run_chunk A (butlast bs) (ns_lua s)\<rparr>)
          else (0, [W32 LUA_ERROR], s\<lparr>ns_buffer := b\<rparr>))"
    by blast
qed (simp_all add: ned_dispatch_def)

lemma ned_dispatch_cases_witness:
  "\<exists>b. ned_dispatch log_lua 0 [W32 0, W32 4, Buf ''x=1''] (ned_server_new []) =
    Some (0, [W32 LUA_ERROR], (ned_server_new [])\<lparr>ns_buffer := b\<rparr>)"
proof -
  have len: "length ''x=1'' < 256" by simp
  have no: "\<not> (\<exists>cmd. ''x=1'' = cmd @ [NUL] \<and> NUL \<notin> set cmd)"
    by (auto simp: Cons_eq_append_conv)
  from ned_dispatch_cases [OF ned_wf_new len, of 0 log_lua "[]" "[]" 1 4 "[]"] no show ?thesis
    by (auto simp: Protocol_LuaDom0_def Opcode_executeLuaLine_def)
qed

text \<open>The handler trusts the length a peer announces: if it exceeds the buffer and the bytes are there, the
  \<open>read\<close> runs over the end of the 1024-byte array.\<close>

theorem lua_length_overflow:
  assumes "sk_rx s = [Chunk (enc32 n @ bs)]" and "BUF_LEN < length bs" and "BUF_LEN < unat n"
  shows "luaConnectionHandler X junk l s = None"
proof -
  have "lua_step X 0 \<lparr>msize = BUF_LEN, mcell = junk\<rparr> l s = None"
    by (rule lua_step_overflow [OF assms]) simp
  then show ?thesis unfolding luaConnectionHandler_def by (subst lua_loop.simps) simp
qed

lemma lua_length_overflow_witness:
  "luaConnectionHandler (\<lambda>c l. Some (True, l)) (\<lambda>_. NUL) ()
     (demo_sock [Chunk (enc32 2000 @ replicate 2000 CHR ''A'')]) = None"
  by (rule lua_length_overflow [of _ 2000 "replicate 2000 CHR ''A''"])
    (simp_all add: demo_sock_def BUF_LEN_def)

section \<open>Binaries\<close>

text \<open>C7: a binary sent by the client arrives: over files whose \<open>write\<close> makes progress, one round of the
  handler stores exactly the sent bytes at the start of the opened file, in chunks of at most 1 MiB and
  however few bytes each \<open>read\<close> and \<open>write\<close> moves; the client gets the size back. The file is not
  truncated: bytes of an older, longer file stay behind the new ones.\<close>

theorem binary_end_to_end:
  assumes W: "writes_progress W fview" and path: "lua_cmd_ok path"
    and data: "data \<noteq> []" "length data < 2 ^ 31"
    and opened: "wf_open W path f = (fd, f1)" "fview f1 fd = (old, 0)"
    and c: "wr_ok (sk_wr c)" "sk_tx c = []" "pending c = enc32 GO_SEND"
    and s: "wr_ok (sk_wr s)" "sk_tx s = []" "pending s = binary_request path data"
    and b: "msize b = BUF_LEN"
  shows "\<exists>c' m' b' f' s'.
    sendElfBinaryFromMemory False (Some data) (of_nat (length data)) path c = Some (int (length data), c') \<and>
    binary_step W junk m b f s = Some (Some (True, m', b', f', s')) \<and>
    sk_tx c' = pending s \<and> sk_tx s' = pending c \<and>
    fview f' fd = (overwrite old 0 data, length data)"
proof -
  from sendElfBinaryFromMemory_sends [OF path data c(1), of GO_SEND "[]"] c(2,3) obtain c' where
    "sendElfBinaryFromMemory False (Some data) (of_nat (length data)) path c = Some (int (length data), c')"
    "sk_tx c' = binary_request path data" by auto
  moreover from binary_step_upload [OF W path data, of s "[]" b f fd f1 old junk m] s b opened
  obtain m' b' f' s' where "binary_step W junk m b f s = Some (Some (True, m', b', f', s'))"
    "fview f' fd = (overwrite old 0 data, length data)" "sk_tx s' = enc32 GO_SEND" by auto
  ultimately show ?thesis using c(3) s(3) by auto
qed

text \<open>One file, written at its position one byte at a time.\<close>

definition slow_file :: "(byte list \<times> nat) wfile" where
  "slow_file = \<lparr>wf_open = (\<lambda>p f. (5, (fst f, 0))),
     wf_write = (\<lambda>fd bs f. (int (length (take 1 bs)),
       (overwrite (fst f) (snd f) (take 1 bs), snd f + length (take 1 bs))))\<rparr>"

lemma slow_file_progress: "writes_progress slow_file (\<lambda>f fd. f)"
proof -
  have "wf_write slow_file fd bs f = (int 1, (overwrite d p (take 1 bs), p + 1))"
    if "f = (d, p)" "bs \<noteq> []" for fd bs f d p
    using that by (cases bs) (simp_all add: slow_file_def)
  then show ?thesis
    unfolding writes_progress_def by (metis One_nat_def Suc_leI length_greater_0_conv zero_less_one)
qed

lemma binary_end_to_end_witness:
  "\<exists>m' b' f' s'. binary_step slow_file (\<lambda>_. NUL) 1 (mzero BUF_LEN) (''previous'', 3)
      (demo_sock [Chunk (binary_request ''/net-files/t'' ''new'')]) = Some (Some (True, m', b', f', s')) \<and>
    f' = (overwrite ''previous'' 0 ''new'', 3)"
proof -
  have ne: "enc32 w \<noteq> []" for w using length_enc32 [of w] by fastforce
  have path: "lua_cmd_ok ''/net-files/t''" by (simp add: lua_cmd_ok_def BUF_LEN_def)
  have data: "''new'' \<noteq> []" "length ''new'' < 2 ^ 31" by simp_all
  have opened: "wf_open slow_file ''/net-files/t'' (''previous'', 3) = (5, (''previous'', 0))"
    "(\<lambda>f fd. f) (''previous'', 0) (5 :: int) = (''previous'', 0)"
    by (simp_all add: slow_file_def)
  have c: "wr_ok (sk_wr (demo_sock [Chunk (enc32 GO_SEND)]))" "sk_tx (demo_sock [Chunk (enc32 GO_SEND)]) = []"
    "pending (demo_sock [Chunk (enc32 GO_SEND)]) = enc32 GO_SEND"
    by (simp_all add: demo_sock_def wr_ok_def ne)
  have s: "wr_ok (sk_wr (demo_sock [Chunk (binary_request ''/net-files/t'' ''new'')]))"
    "sk_tx (demo_sock [Chunk (binary_request ''/net-files/t'' ''new'')]) = []"
    "pending (demo_sock [Chunk (binary_request ''/net-files/t'' ''new'')]) =
       binary_request ''/net-files/t'' ''new''"
    by (simp_all add: demo_sock_def wr_ok_def binary_request_def)
  have b: "msize (mzero BUF_LEN) = BUF_LEN" by (simp add: mzero_def)
  from binary_end_to_end [where fview = "\<lambda>f fd. f" and W = slow_file and junk = "\<lambda>_. NUL" and m = 1,
      OF slow_file_progress path data opened c s b]
  show ?thesis by auto
qed

text \<open>C20: when the peer closes the connection before the announced number of bytes, wherever in the binary that is and
  however the bytes before have been cut, \<open>receiveNetworkBinary\<close> never returns to the handler: \<open>receiveData\<close> returns
  \<open>-errno\<close>, which no check catches. If \<open>errno\<close> is 0, as at the start of a thread, the loop goes on for ever; if an
  earlier call has left an error number there, it is taken for a length and bytes far behind the buffer are
  written to the file.\<close>

theorem binary_eof_hangs:
  assumes "closes (sk_rx s)" and "length (pending s) < unat n" and "sk_errno s < 2 ^ 31"
  shows "(sk_errno s = 0 \<longrightarrow> receiveNetworkBinary W junk fd n f s = None) \<and>
    (\<forall>res. receiveNetworkBinary W junk fd n f s \<noteq> Some (Some res)) \<and>
    (sk_errno s \<noteq> 0 \<longrightarrow> n \<le> of_nat Max_rw_buffer_size \<longrightarrow>
      receiveNetworkBinary W junk fd n f s = Some None)"
proof -
  let ?b = "\<lparr>msize = Max_rw_buffer_size, mcell = junk\<rparr>"
  note eof = receive_chunks_eof [OF assms(2,1,3), of ?b W fd f]
  have "receiveNetworkBinary W junk fd n f s = Some None"
    if e: "sk_errno s \<noteq> 0" and n: "n \<le> of_nat Max_rw_buffer_size"
  proof -
    have len: "length (pending s) < min Max_rw_buffer_size (unat n)" and pos: "0 < n"
      using assms(2) n by (auto simp: word_le_nat_alt word_less_nat_alt Max_rw_buffer_size_def)
    obtain b1 s1 where r: "receiveData ?b (min Max_rw_buffer_size (unat n)) s = Some (- int (sk_errno s), b1, s1)"
      "msize b1 = msize ?b" using receiveData_closes [OF assms(1) len, of ?b] by auto
    have "unat (word_of_int (- int (sk_errno s)) :: u32) = 2 ^ 32 - sk_errno s"
      using e assms(3) by (intro unat_neg_errno) simp_all
    then have "msize b1 < unat (word_of_int (- int (sk_errno s)) :: u32)"
      using assms(3) r(2) by (simp add: Max_rw_buffer_size_def)
    from write_chunk_beyond [OF this, of W fd f] have "receive_chunks W fd ?b n f s = Some None"
      using pos r(1) by (subst receive_chunks.simps) simp
    then show ?thesis by (simp add: receiveNetworkBinary_def)
  qed
  moreover have "sk_errno s \<noteq> 0" if "receiveNetworkBinary W junk fd n f s \<noteq> None"
    using that eof by (auto simp: receiveNetworkBinary_def)
  moreover have "receiveNetworkBinary W junk fd n f s \<noteq> Some (Some res)" for res
    using eof by (auto simp: receiveNetworkBinary_def)
  ultimately show ?thesis by blast
qed

lemma binary_eof_hangs_witness:
  "receiveNetworkBinary slow_file (\<lambda>_. NUL) 5 100 ([], 0) (demo_sock [Chunk ''ab'', Chunk ''c'']) = None \<and>
   receiveNetworkBinary slow_file (\<lambda>_. NUL) 5 100 ([], 0) ((demo_sock [Chunk ''ab''])\<lparr>sk_errno := 2\<rparr>) = Some None"
proof -
  have "closes (sk_rx (demo_sock [Chunk ''ab'', Chunk ''c'']))" "length (pending (demo_sock [Chunk ''ab'', Chunk ''c''])) < unat (100 :: u32)"
    "sk_errno (demo_sock [Chunk ''ab'', Chunk ''c'']) < 2 ^ 31" "sk_errno (demo_sock [Chunk ''ab'', Chunk ''c'']) = 0"
    by (simp_all add: demo_sock_def closes_def)
  note 1 = binary_eof_hangs [OF this(1-3), THEN conjunct1, THEN mp, OF this(4)]
  have "closes (sk_rx ((demo_sock [Chunk ''ab''])\<lparr>sk_errno := 2\<rparr>))" "length (pending ((demo_sock [Chunk ''ab''])\<lparr>sk_errno := 2\<rparr>)) < unat (100 :: u32)"
    "sk_errno ((demo_sock [Chunk ''ab''])\<lparr>sk_errno := 2\<rparr>) < 2 ^ 31" "sk_errno ((demo_sock [Chunk ''ab''])\<lparr>sk_errno := 2\<rparr>) \<noteq> 0"
    "(100 :: u32) \<le> of_nat Max_rw_buffer_size"
    by (simp_all add: demo_sock_def closes_def Max_rw_buffer_size_def)
  note 2 = binary_eof_hangs [OF this(1-3), THEN conjunct2, THEN conjunct2, THEN mp, OF this(4), THEN mp, OF this(5)]
  show ?thesis by (rule conjI [OF 1 2])
qed

section \<open>Connections and start-up\<close>

text \<open>\<open>connect\<close> of an instance combines the two results with a bitwise \<open>and\<close>: it returns 1 if both
  sockets connect, but also if the Lua connection fails with an odd error number; and \<open>disconnect\<close>
  closes the socket for binaries twice and the Lua socket never.\<close>

theorem instance_connections:
  assumes "\<not> isDisabled (rd_lua r)" and "\<not> isDisabled (rd_bin r)"
  shows "fst (rd_connect (l, 0) (b, 0) r) = 1 \<and>
    (0 < e \<longrightarrow> fst (rd_connect (l, e) (b, 0) r) = (if odd e then 1 else 0)) \<and>
    (let r' = snd (rd_connect (l, 0) (b, 0) r) in
      \<exists>r''. rd_disconnect r' = Some (1, [b, b], r'') \<and> tc_connected (rd_lua r''))"
proof -
  have "(- int e) AND 1 = (if odd e then 1 else 0)" by (simp add: and_one_eq odd_iff_mod_2_eq_one [symmetric] mod_2_eq_odd)
  with assms show ?thesis
    by (auto simp: rd_connect_def rd_disconnect_def tcp_connect_def tcp_disconnect_def isDisabled_def)
qed

lemma instance_connections_witness:
  "fst (rd_connect (3, 111) (4, 0) (RemoteDom0Instance_new 0 4000 4001)) = 1 \<and>
   (\<exists>r''. rd_disconnect (snd (rd_connect (3, 0) (4, 0) (RemoteDom0Instance_new 0 4000 4001))) =
     Some (1, [4, 4], r''))"
proof -
  have "\<not> isDisabled (rd_lua (RemoteDom0Instance_new 0 4000 4001))"
    "\<not> isDisabled (rd_bin (RemoteDom0Instance_new 0 4000 4001))"
    by (simp_all add: isDisabled_def RemoteDom0Instance_new_def TcpClientSocket_new_def)
  from instance_connections [OF this, of 3 4 111] show ?thesis by (auto simp: Let_def)
qed

text \<open>Dom0 starts exactly if the network could be initialised, every address on the command line is
  valid, and the final value of every required option is set, the target of the client included when the
  client is enabled; its address is 192.168.0.x with x between 1 and 240, and its servers listen on the
  ports given. It starts without a way to reach Ned, too.\<close>

theorem dom0_main_starts:
  "((\<exists>st. dom0_main lua_cap ankh self aton k added hw args = Inr st) \<longleftrightarrow>
      ankh = 0 \<and> added \<and> (\<exists>c. parse_opts aton k args default_opts = Some c \<and>
        o_bufsize c \<noteq> 0 \<and> o_shm_name c \<noteq> [] \<and> o_netmask c \<noteq> 0 \<and> o_gateway c \<noteq> 0 \<and>
        o_luaListenPort c \<noteq> 0 \<and> o_binaryListenPort c \<noteq> 0 \<and>
        (o_enableClient c \<longrightarrow>
          o_targetAddress c \<noteq> 0 \<and> o_luaTargetPort c \<noteq> 0 \<and> o_binaryTargetPort c \<noteq> 0))) \<and>
    (\<forall>st. dom0_main lua_cap ankh self aton k added hw args = Inr st \<longrightarrow>
      (\<exists>x. ni_ip (st_netif st) = ip4 192 168 0 x \<and> 1 \<le> x \<and> x \<le> 240) \<and>
      sa_luaPort (st_server st) \<noteq> 0 \<and> sa_binaryPort (st_server st) \<noteq> 0 \<and>
      lc_valid (st_luaIpc st) = lua_cap)"
proof (intro conjI allI impI)
  show "(\<exists>st. dom0_main lua_cap ankh self aton k added hw args = Inr st) \<longleftrightarrow>
      ankh = 0 \<and> added \<and> (\<exists>c. parse_opts aton k args default_opts = Some c \<and>
        o_bufsize c \<noteq> 0 \<and> o_shm_name c \<noteq> [] \<and> o_netmask c \<noteq> 0 \<and> o_gateway c \<noteq> 0 \<and>
        o_luaListenPort c \<noteq> 0 \<and> o_binaryListenPort c \<noteq> 0 \<and>
        (o_enableClient c \<longrightarrow>
          o_targetAddress c \<noteq> 0 \<and> o_luaTargetPort c \<noteq> 0 \<and> o_binaryTargetPort c \<noteq> 0))"
    by (auto simp: dom0_main_def lua_client_init_def opts_valid_def split: option.splits if_splits)
next
  fix st assume st: "dom0_main lua_cap ankh self aton k added hw args = Inr st"
  have "unat hw mod 240 < 240" by simp
  then show "\<exists>x. ni_ip (st_netif st) = ip4 192 168 0 x \<and> 1 \<le> x \<and> x \<le> 240"
    using st by (intro exI [of _ "unat hw mod 240 + 1"]) (auto simp: dom0_main_Inr)
  show "sa_luaPort (st_server st) \<noteq> 0" "sa_binaryPort (st_server st) \<noteq> 0" "lc_valid (st_luaIpc st) = lua_cap"
    using st by (auto simp: dom0_main_Inr opts_valid_def split: if_splits)
qed

end
