(* ===== verification/Net_Example.thy ===== *)
theory Net_Example
  imports Dom0_Main
begin

text \<open>
  The network example (net-example/server/main.c and net-example/client/main.c): two echo servers on
  ports 1111 and 9999 and two clients that send a message over and over.

  Sockets are those of \<open>Tcp_Socket\<close>. The arrays the functions declare and the blocks \<open>malloc\<close>
  gives are uninitialised memory, whose bytes are parameters (\<open>junk\<close>). Of what is printed, the
  sender and the text of each message are kept. \<open>getopt_long\<close> is the list of values and arguments
  it returns.

  On every connection the server stores behind the block \<open>malloc\<close> has given it (\<open>new_sock_overflows\<close>). So
  that the rest of the program can be followed, the heap is one object in this theory and a block is its
  offset: such a store goes where the heap goes on behind the block, and is undefined only beyond the heap.
\<close>

section \<open>The server\<close>

definition IP_OFFSET :: nat where "IP_OFFSET = 32"








text \<open>
  The block for a new connection: \<open>malloc(sizeof(int))\<close> at \<open>a\<close>, the descriptor, and the address of the peer
  stored \<open>IP_OFFSET\<close> integers behind the start of the block. In between the memory for the thread is
  allocated; \<open>calloc\<close> is what that does to the heap.
\<close>

definition new_sock :: "(membuf \<Rightarrow> membuf) \<Rightarrow> membuf \<Rightarrow> nat \<Rightarrow> int \<Rightarrow> u32 \<Rightarrow> membuf option" where
  "new_sock calloc heap a fd addr = do {
     heap \<leftarrow> mwrite heap a (enc32 (word_of_int fd));
     mwrite (calloc heap) (a + 4 * IP_OFFSET) (enc32 addr)
   }"

text \<open>
  The loops of \<open>server\<close> and \<open>server2\<close>: each accepted connection, a descriptor, the address of the
  peer, the block and the socket, gets a thread. The result lists what the threads start with.
\<close>

type_synonym conn = "int \<times> u32 \<times> nat \<times> sock"

fun accept_loop :: "(membuf \<Rightarrow> membuf) \<Rightarrow> membuf \<Rightarrow> conn list \<Rightarrow> ((nat \<times> sock) list \<times> membuf) option" where
  "accept_loop calloc heap [] = Some ([], heap)"
| "accept_loop calloc heap ((fd, addr, a, s) # accepted) = do {
     heap \<leftarrow> new_sock calloc heap a fd addr;
     (threads, heap) \<leftarrow> accept_loop calloc heap accepted;
     Some ((a, s) # threads, heap)
   }"

definition server ::
  "(membuf \<Rightarrow> membuf) \<Rightarrow> membuf \<Rightarrow> u32 \<Rightarrow> conn list \<Rightarrow> (listener \<times> (nat \<times> sock) list \<times> membuf) option" where
  "server calloc heap ip accepted =
     map_option (Pair \<lparr>ln_port = 1111, ln_addr = ip, ln_backlog = 10\<rparr>) (accept_loop calloc heap accepted)"

definition server2 ::
  "(membuf \<Rightarrow> membuf) \<Rightarrow> membuf \<Rightarrow> u32 \<Rightarrow> conn list \<Rightarrow> (listener \<times> (nat \<times> sock) list \<times> membuf) option" where
  "server2 calloc heap ip accepted =
     map_option (Pair \<lparr>ln_port = 9999, ln_addr = ip, ln_backlog = 10\<rparr>) (accept_loop calloc heap accepted)"

section \<open>The client\<close>

text \<open>
  The two client functions differ in the port and in the text of the message. One round of their
  endless loop: what is printed, the array and the socket.
\<close>

definition client_round :: "membuf \<Rightarrow> sock \<Rightarrow> (byte list \<times> membuf \<times> sock) option" where
  "client_round buf s = do {
     msg \<leftarrow> cstr_from buf 0;
     let (err, s) = sock_write msg s;
     let (err, bs, s) = sock_read (msize buf) s;
     buf \<leftarrow> mwrite buf 0 bs;
     shown \<leftarrow> cstr_from buf 0;
     c \<leftarrow> mread buf 18 1;
     buf \<leftarrow> mwrite buf 18 (map (\<lambda>c. char_of ((of_char c :: nat) + 1)) c);
     Some (shown, buf, s)
   }"

text \<open>The first \<open>n\<close> rounds of the loop.\<close>

fun client_rounds :: "nat \<Rightarrow> membuf \<Rightarrow> sock \<Rightarrow> (byte list list \<times> membuf \<times> sock) option" where
  "client_rounds 0 buf s = Some ([], buf, s)"
| "client_rounds (Suc n) buf s = do {
     (shown, buf, s) \<leftarrow> client_round buf s;
     (rest, buf, s) \<leftarrow> client_rounds n buf s;
     Some (shown # rest, buf, s)
   }"

definition client_buf :: "(nat \<Rightarrow> byte) \<Rightarrow> byte list \<Rightarrow> membuf option" where
  "client_buf junk text = strcpy \<lparr>msize = 1024, mcell = junk\<rparr> 0 text"

definition client ::
  "nat \<Rightarrow> (nat \<Rightarrow> byte) \<Rightarrow> sock \<Rightarrow> (byte list list \<times> membuf \<times> sock) option" where
  "client n junk s = do { buf \<leftarrow> client_buf junk ''TEST ON PORT 1111 A''; client_rounds n buf s }"

definition client2 ::
  "nat \<Rightarrow> (nat \<Rightarrow> byte) \<Rightarrow> sock \<Rightarrow> (byte list list \<times> membuf \<times> sock) option" where
  "client2 n junk s = do { buf \<leftarrow> client_buf junk ''TEST ON PORT 9999 A''; client_rounds n buf s }"

section \<open>Start-up\<close>

text \<open>
  The loop over the options, the same in both programs. \<open>getopt_long\<close> returns the value of a long
  option, the character of a short one; \<open>BUF_SIZE\<close> is 0 and \<open>SHM_NAME\<close> is 1.
\<close>

definition cfg0 :: ankh_cfg where "cfg0 = \<lparr>cfg_bufsize = 1024, cfg_send_thread = None, cfg_recv_thread = None, cfg_shm_name = []\<rparr>"

fun net_opts :: "nat \<Rightarrow> (int \<times> byte list) list \<Rightarrow> ankh_cfg \<Rightarrow> ankh_cfg" where
  "net_opts shmsz [] cfg = cfg"
| "net_opts shmsz ((opt, optarg) # found) cfg =
     (if opt = -1 then cfg
      else net_opts shmsz found
        (if opt = 0 then cfg\<lparr>cfg_bufsize := atoi optarg\<rparr>
         else if opt = 1 then cfg\<lparr>cfg_shm_name := take (shmsz - 1) optarg\<rparr>
         else cfg))"

text \<open>
  \<open>main\<close> up to the point where the interface is up. \<open>ankh\<close> is the result of \<open>l4ankh_init\<close>, \<open>self\<close> the
  thread of \<open>main\<close>, \<open>hwaddr5\<close> the last byte of the address of the interface; \<open>added\<close> says whether
  \<open>netif_add\<close> answers the interface it was given.
\<close>

definition server_main :: "int \<Rightarrow> u32 \<Rightarrow> nat \<Rightarrow> bool \<Rightarrow> (int \<times> byte list) list \<Rightarrow> main_end + net_if" where
  "server_main ankh self shmsz added opts =
     (if ankh \<noteq> 0 then Inl (Exits 1)
      else if \<not> added then Inl Aborts
      else Inr \<lparr>ni_ip = ip4 192 168 0 2, ni_netmask = ip4 255 255 255 0, ni_gw = ip4 192 168 0 1,
                ni_cfg = net_opts shmsz opts (cfg0\<lparr>cfg_send_thread := Some self\<rparr>)\<rparr>)"

definition client_main :: "int \<Rightarrow> u32 \<Rightarrow> nat \<Rightarrow> bool \<Rightarrow> u8 \<Rightarrow> (int \<times> byte list) list \<Rightarrow> main_end + net_if" where
  "client_main ankh self shmsz added hwaddr5 opts =
     (if ankh \<noteq> 0 then Inl (Exits 1)
      else if \<not> added then Inl Aborts
      else Inr \<lparr>ni_ip = ip4 192 168 0 (unat hwaddr5 mod 240 + 3), ni_netmask = ip4 255 255 255 0,
                ni_gw = ip4 192 168 0 1, ni_cfg = net_opts shmsz opts (cfg0\<lparr>cfg_send_thread := Some self\<rparr>)\<rparr>)"

text \<open>
  The threads of the server: \<open>main\<close> starts \<open>server\<close> in a new thread and continues with \<open>server2\<close>, which does not
  return. The two share the heap; \<open>accepted\<close> are their connections in the order in which they come, those of
  \<open>server\<close> marked. The result of each connection is what its thread starts with.
\<close>

fun server_threads ::
  "(membuf \<Rightarrow> membuf) \<Rightarrow> membuf \<Rightarrow> u32 \<Rightarrow> (bool \<times> conn) list \<Rightarrow>
   ((listener \<times> nat \<times> sock) list \<times> membuf) option" where
  "server_threads calloc heap ip [] = Some ([], heap)"
| "server_threads calloc heap ip ((first, c) # accepted) = do {
     (l, ts, heap) \<leftarrow> (if first then server calloc heap ip [c] else server2 calloc heap ip [c]);
     (rest, heap) \<leftarrow> server_threads calloc heap ip accepted;
     Some (map (Pair l) ts @ rest, heap)
   }"

section \<open>What the handler sends back\<close>










section \<open>A client and a server\<close>













section \<open>Properties\<close>





text \<open>Two facts about the code around these loops.\<close>

lemma new_sock_overflows:
  assumes "new_sock calloc heap a fd addr = Some h"
  shows "mread h (a + 4 * IP_OFFSET) 4 = Some (enc32 addr) \<and> a + 4 < a + 4 * IP_OFFSET"
  using assms mread_mwrite_same [of _ "a + 4 * IP_OFFSET" "enc32 addr" h]
  by (auto simp: new_sock_def IP_OFFSET_def split: bind_splits)

lemma short_options_ignored:
  "opt \<notin> {-1, 0, 1} \<Longrightarrow> net_opts shmsz ((opt, arg) # found) cfg = net_opts shmsz found cfg"
  by simp

end
