(* ===== verification/Ned_List.thy ===== *)
theory Ned_List
  imports Prelude
begin

text \<open>
  The doubly linked list of server objects in Ned (dom0-ned, server/src/server.h and server.cc): the
  members \<open>_p\<close>, \<open>_n\<close>, \<open>_l\<close> of all objects form a heap, and the operations of \<open>Server_object::List\<close>
  change it by the assignments of the code. Objects and lists have numbers for addresses, \<open>None\<close> is
  the null pointer.

  The list is proved to refine a plain list. What its users need is the locale \<open>object_list\<close>.
  Each operation runs under the lock of the list, except for the test at the start of \<open>add\<close>: \<open>add\<close> is
  split into that test and the locked part, so that the race between the two can be stated.
\<close>

type_synonym oid = nat
type_synonym lid = nat

record ned_heap =
  nh_p :: "oid \<Rightarrow> oid option"
  nh_n :: "oid \<Rightarrow> oid option"
  nh_l :: "oid \<Rightarrow> lid option"
  nh_f :: "lid \<Rightarrow> oid option"

section \<open>The operations\<close>

definition list_new :: "lid \<Rightarrow> ned_heap \<Rightarrow> ned_heap" where
  "list_new this h = h\<lparr>nh_f := (nh_f h)(this := None)\<rparr>"

text \<open>The locked part of \<open>add\<close>.\<close>

definition list_insert :: "lid \<Rightarrow> oid \<Rightarrow> ned_heap \<Rightarrow> ned_heap" where
  "list_insert this o1 h =
     (let h = h\<lparr>nh_l := (nh_l h)(o1 := Some this)\<rparr>;
          h = h\<lparr>nh_n := (nh_n h)(o1 := nh_f h this)\<rparr>;
          h = h\<lparr>nh_p := (nh_p h)(o1 := None)\<rparr>;
          h = (case nh_f h this of None \<Rightarrow> h | Some f \<Rightarrow> h\<lparr>nh_p := (nh_p h)(f := Some o1)\<rparr>)
      in h\<lparr>nh_f := (nh_f h)(this := Some o1)\<rparr>)"

definition list_add :: "lid \<Rightarrow> oid \<Rightarrow> ned_heap \<Rightarrow> ned_heap" where
  "list_add this o1 h = (if nh_l h o1 \<noteq> None then h else list_insert this o1 h)"

definition list_remove :: "lid \<Rightarrow> oid option \<Rightarrow> ned_heap \<Rightarrow> oid option \<times> ned_heap" where
  "list_remove this arg h =
     (case (case arg of None \<Rightarrow> nh_f h this | Some o1 \<Rightarrow> Some o1) of
        None \<Rightarrow> (None, h)
      | Some o1 \<Rightarrow>
          if nh_l h o1 = Some this then
            let h = (case nh_p h o1 of
                  Some p \<Rightarrow> h\<lparr>nh_n := (nh_n h)(p := nh_n h o1)\<rparr>
                | None \<Rightarrow> h\<lparr>nh_f := (nh_f h)(this := nh_n h o1)\<rparr>);
                h = (case nh_n h o1 of
                  Some n \<Rightarrow> h\<lparr>nh_p := (nh_p h)(n := nh_p h o1)\<rparr>
                | None \<Rightarrow> h)
            in (Some o1, h\<lparr>nh_l := (nh_l h)(o1 := None), nh_n := (nh_n h)(o1 := None),
                           nh_p := (nh_p h)(o1 := None)\<rparr>)
          else (None, h))"

text \<open>
  The loop of the destructor. The inner \<open>Inl\<close> is the exception it throws; the outer option says
  whether the loop ends.
\<close>

partial_function (option) destroy_loop :: "lid \<Rightarrow> oid option \<Rightarrow> ned_heap \<Rightarrow> (unit + ned_heap) option" where
  "destroy_loop this o1 h =
     (case o1 of
        None \<Rightarrow> Some (Inr h)
      | Some x \<Rightarrow>
          if nh_l h x \<noteq> Some this then Some (Inl ())
          else destroy_loop this (nh_n h x)
            (h\<lparr>nh_l := (nh_l h)(x := None), nh_p := (nh_p h)(x := None), nh_n := (nh_n h)(x := None)\<rparr>))"

definition list_destroy :: "lid \<Rightarrow> ned_heap \<Rightarrow> (unit + ned_heap) option" where
  "list_destroy this h = destroy_loop this (nh_f h this) h"

section \<open>The lists on the heap\<close>

fun dll :: "ned_heap \<Rightarrow> oid option \<Rightarrow> oid option \<Rightarrow> oid list \<Rightarrow> bool" where
  "dll h prev cur [] \<longleftrightarrow> cur = None"
| "dll h prev cur (x # xs) \<longleftrightarrow> cur = Some x \<and> nh_p h x = prev \<and> dll h (Some x) (nh_n h x) xs"

text \<open>\<open>lists h f\<close>: on the heap, every list \<open>l\<close> holds the objects \<open>f l\<close>, in order.\<close>

definition lists_at :: "ned_heap \<Rightarrow> (lid \<Rightarrow> oid list) \<Rightarrow> bool" where
  "lists_at h f \<longleftrightarrow> (\<forall>l. distinct (f l) \<and> dll h None (nh_f h l) (f l) \<and>
     (\<forall>x. nh_l h x = Some l \<longleftrightarrow> x \<in> set (f l)))"

lemma dll_cong:
  assumes "dll h p c xs" and "\<forall>x \<in> set xs. nh_p h' x = nh_p h x \<and> nh_n h' x = nh_n h x"
  shows "dll h' p c xs"
  using assms by (induction xs arbitrary: p c) auto

lemma lists_atD:
  assumes "lists_at h f"
  shows "distinct (f l)" "dll h None (nh_f h l) (f l)" "nh_l h x = Some l \<longleftrightarrow> x \<in> set (f l)"
  using assms by (simp_all add: lists_at_def)

lemma lists_at_disjoint: "lists_at h f \<Longrightarrow> x \<in> set (f l) \<Longrightarrow> x \<in> set (f k) \<Longrightarrow> l = k"
  by (metis lists_atD(3) option.inject)

lemma dll_first: "dll h p c xs \<Longrightarrow> c = (case xs of [] \<Rightarrow> None | x # _ \<Rightarrow> Some x)"
  by (cases xs) auto

lemma list_insert_sel [simp]:
  "nh_l (list_insert l o1 h) = (nh_l h)(o1 := Some l)"
  "nh_n (list_insert l o1 h) = (nh_n h)(o1 := nh_f h l)"
  "nh_f (list_insert l o1 h) = (nh_f h)(l := Some o1)"
  "nh_p (list_insert l o1 h) = (case nh_f h l of None \<Rightarrow> (nh_p h)(o1 := None)
    | Some f \<Rightarrow> (nh_p h)(o1 := None, f := Some o1))"
  by (auto simp: list_insert_def Let_def split: option.splits)

lemma lists_at_insert:
  assumes h: "lists_at h f" and free: "nh_l h o1 = None"
  shows "lists_at (list_insert l o1 h) (f(l := o1 # f l))"
proof -
  have out: "o1 \<notin> set (f k)" for k using free lists_atD(3) [OF h, of o1 k] by simp
  have "distinct ((f(l := o1 # f l)) k) \<and>
      dll (list_insert l o1 h) None (nh_f (list_insert l o1 h) k) ((f(l := o1 # f l)) k) \<and>
      (\<forall>x. nh_l (list_insert l o1 h) x = Some k \<longleftrightarrow> x \<in> set ((f(l := o1 # f l)) k))" for k
  proof (cases "k = l")
    case True
    note d = lists_atD(2) [OF h, of l] and di = lists_atD(1) [OF h, of l]
    have "dll (list_insert l o1 h) (Some o1) (nh_f h l) (f l)"
    proof (cases "f l")
      case Nil
      with d show ?thesis by simp
    next
      case (Cons x xs)
      with d have f: "nh_f h l = Some x" "dll h (Some x) (nh_n h x) xs" by simp_all
      have nx: "o1 \<noteq> x" "x \<notin> set xs" "o1 \<notin> set xs" using out [of l] di Cons by auto
      have "dll (list_insert l o1 h) (Some x) (nh_n h x) xs"
        by (rule dll_cong [OF f(2)]) (use nx f(1) in auto)
      with Cons f(1) nx show ?thesis by simp
    qed
    moreover have "nh_p (list_insert l o1 h) o1 = None"
      using out [of l] dll_first [OF d] by (auto split: option.splits list.splits)
    ultimately show ?thesis
      using True di out [of l] lists_atD(3) [OF h, of _ l] by auto
  next
    case False
    have "dll (list_insert l o1 h) None (nh_f h k) (f k)"
    proof (rule dll_cong [OF lists_atD(2) [OF h]], intro ballI conjI)
      fix x assume x: "x \<in> set (f k)"
      then have "x \<noteq> o1" using out by auto
      moreover have "nh_f h l \<noteq> Some x"
      proof
        assume "nh_f h l = Some x"
        then have "x \<in> set (f l)" using dll_first [OF lists_atD(2) [OF h, of l]] by (auto split: list.splits)
        with x False lists_at_disjoint [OF h] show False by blast
      qed
      ultimately show "nh_p (list_insert l o1 h) x = nh_p h x" "nh_n (list_insert l o1 h) x = nh_n h x"
        by (auto split: option.splits)
    qed
    with False h out show ?thesis by (auto simp: lists_atD)
  qed
  then show ?thesis by (simp add: lists_at_def)
qed

text \<open>Segments of a list, up to a given end.\<close>

fun seg :: "ned_heap \<Rightarrow> oid option \<Rightarrow> oid option \<Rightarrow> oid list \<Rightarrow> oid option \<Rightarrow> bool" where
  "seg h prev cur [] e \<longleftrightarrow> cur = e"
| "seg h prev cur (x # xs) e \<longleftrightarrow> cur = Some x \<and> nh_p h x = prev \<and> seg h (Some x) (nh_n h x) xs e"

fun last_opt :: "oid option \<Rightarrow> oid list \<Rightarrow> oid option" where
  "last_opt p [] = p"
| "last_opt p (x # xs) = last_opt (Some x) xs"

lemma dll_append: "dll h p c (xs @ ys) \<longleftrightarrow> (\<exists>e. seg h p c xs e \<and> dll h (last_opt p xs) e ys)"
  by (induction xs arbitrary: p c) auto

lemma seg_cong:
  assumes "seg h p c xs e" and "\<forall>x \<in> set xs. nh_p h' x = nh_p h x \<and> nh_n h' x = nh_n h x"
  shows "seg h' p c xs e"
  using assms by (induction xs arbitrary: p c) auto

lemma last_opt_cases: "last_opt p xs = (if xs = [] then p else Some (last xs))"
  by (induction xs arbitrary: p) auto

text \<open>Redirecting the last link of a segment.\<close>

lemma seg_relink:
  assumes "seg h p c xs e" and "xs \<noteq> []" and "distinct xs"
    and "\<forall>x \<in> set xs. nh_p h' x = nh_p h x"
    and "\<forall>x \<in> set xs. x \<noteq> last xs \<longrightarrow> nh_n h' x = nh_n h x" and "nh_n h' (last xs) = e'"
  shows "seg h' p c xs e'"
  using assms
proof (induction xs arbitrary: p c)
  case Nil
  then show ?case by simp
next
  case (Cons x xs)
  show ?case
  proof (cases "xs = []")
    case True
    with Cons.prems show ?thesis by simp
  next
    case False
    then have "x \<noteq> last xs" using Cons.prems(3) by auto
    with Cons False show ?thesis by simp
  qed
qed

lemma list_remove_out:
  assumes "nh_l h o1 \<noteq> Some l"
  shows "list_remove l (Some o1) h = (None, h)"
  using assms by (simp add: list_remove_def)

lemma list_remove_in:
  assumes h: "lists_at h f" and fl: "f l = as @ o1 # bs"
  shows "\<exists>h'. list_remove l (Some o1) h = (Some o1, h') \<and> lists_at h' (f(l := as @ bs)) \<and>
    nh_l h' o1 = None \<and> nh_n h' o1 = None \<and> nh_p h' o1 = None"
proof -
  note d = lists_atD(2) [OF h, of l] and di = lists_atD(1) [OF h, of l]
  have own: "nh_l h o1 = Some l" using lists_atD(3) [OF h] fl by simp
  have "dll h None (nh_f h l) (as @ o1 # bs)" using d fl by simp
  then have s: "seg h None (nh_f h l) as (Some o1)" "nh_p h o1 = last_opt None as"
    "dll h (Some o1) (nh_n h o1) bs"
    by (auto simp: dll_append)
  have n: "nh_n h o1 = (case bs of [] \<Rightarrow> None | b # _ \<Rightarrow> Some b)" by (rule dll_first [OF s(3)])
  have dis: "distinct as" "distinct bs" "o1 \<notin> set as" "o1 \<notin> set bs" "set as \<inter> set bs = {}"
    using di fl by auto
  define h' where "h' = snd (list_remove l (Some o1) h)"
  have r: "list_remove l (Some o1) h = (Some o1, h')"
    using own by (simp add: h'_def list_remove_def Let_def)
  have L: "nh_l h' = (nh_l h)(o1 := None)"
    using own by (simp add: h'_def list_remove_def Let_def split: option.splits)
  have F: "nh_f h' = (nh_f h)(l := (if as = [] then nh_n h o1 else nh_f h l))"
    using own s(2) by (auto simp: h'_def list_remove_def Let_def last_opt_cases split: option.splits)
  have N: "nh_n h' = (if as = [] then nh_n h else (nh_n h)(last as := nh_n h o1))(o1 := None)"
    using own s(2) by (auto simp: h'_def list_remove_def Let_def last_opt_cases split: option.splits)
  have nn: "as \<noteq> [] \<Longrightarrow> o1 \<noteq> last as" using dis(3) by auto
  have la: "as \<noteq> [] \<Longrightarrow> last as \<notin> set bs" using dis(5) last_in_set by blast
  have P: "nh_p h' = (case bs of [] \<Rightarrow> nh_p h | b # _ \<Rightarrow> (nh_p h)(b := nh_p h o1))(o1 := None)"
    using own s(2) n nn
    by (auto simp: h'_def list_remove_def Let_def last_opt_cases split: option.splits list.splits)
  have other: "dll h' None (nh_f h k) (f k)" if "k \<noteq> l" for k
  proof (rule dll_cong [OF lists_atD(2) [OF h]], intro ballI)
    fix x assume "x \<in> set (f k)"
    then have "x \<notin> set (f l)" using lists_at_disjoint [OF h] that by blast
    then have "x \<noteq> o1" "as \<noteq> [] \<Longrightarrow> x \<noteq> last as" "\<And>b bs'. bs = b # bs' \<Longrightarrow> x \<noteq> b"
      using fl by auto
    then show "nh_p h' x = nh_p h x \<and> nh_n h' x = nh_n h x"
      by (auto simp: N P split: list.splits)
  qed
  have this_l: "dll h' None (nh_f h' l) (as @ bs)"
    unfolding dll_append
  proof (intro exI conjI)
    have pa: "nh_p h' x = nh_p h x" if "x \<in> set as" for x
      using that dis by (auto simp: P split: list.splits)
    show "seg h' None (nh_f h' l) as (nh_n h o1)"
    proof (cases "as = []")
      case True
      then show ?thesis by (simp add: F)
    next
      case False
      have "seg h' None (nh_f h l) as (nh_n h o1)"
        by (rule seg_relink [OF s(1) False dis(1)]) (use pa dis(3) nn False in \<open>auto simp: N\<close>)
      with False show ?thesis by (simp add: F)
    qed
    show "dll h' (last_opt None as) (nh_n h o1) bs"
    proof (cases bs)
      case Nil
      with n show ?thesis by simp
    next
      case (Cons b bs')
      have keep: "nh_n h' x = nh_n h x" if "x \<in> set bs" for x
        using that dis la by (auto simp: N)
      have pb: "nh_p h' b = last_opt None as"
        using Cons dis(4) s(2) by (auto simp: P)
      have "dll h (Some b) (nh_n h b) bs'" using s(3) Cons by simp
      then have "dll h' (Some b) (nh_n h b) bs'"
        by (rule dll_cong) (use Cons dis keep in \<open>auto simp: P\<close>)
      with Cons n pb keep [of b] show ?thesis by simp
    qed
  qed
  have "distinct ((f(l := as @ bs)) k) \<and> dll h' None (nh_f h' k) ((f(l := as @ bs)) k) \<and>
      (\<forall>x. nh_l h' x = Some k \<longleftrightarrow> x \<in> set ((f(l := as @ bs)) k))" for k
  proof (cases "k = l")
    case True
    have "nh_l h x = Some l \<longleftrightarrow> x \<in> set as \<or> x = o1 \<or> x \<in> set bs" for x
      using lists_atD(3) [OF h, of x l] fl by auto
    with True this_l dis show ?thesis by (auto simp: L)
  next
    case False
    have "o1 \<notin> set (f k)" using lists_atD(3) [OF h, of o1 k] own False by simp
    with False other [OF False] lists_atD [OF h] show ?thesis by (auto simp: L F)
  qed
  then have "lists_at h' (f(l := as @ bs))" by (simp add: lists_at_def)
  moreover have "nh_l h' o1 = None" "nh_n h' o1 = None" "nh_p h' o1 = None" by (simp_all add: L N P)
  ultimately show ?thesis using r by blast
qed

lemma lists_at_add:
  assumes "lists_at h f"
  shows "lists_at (list_add l o1 h) (if nh_l h o1 \<noteq> None then f else f(l := o1 # f l))"
  using lists_at_insert [OF assms] assms by (simp add: list_add_def)

lemma lists_at_remove:
  assumes h: "lists_at h f" and r: "list_remove l (Some o1) h = (r, h')"
  shows "r = (if o1 \<in> set (f l) then Some o1 else None) \<and> lists_at h' (f(l := remove1 o1 (f l))) \<and>
    (if o1 \<in> set (f l) then nh_l h' o1 = None else h' = h)"
proof (cases "o1 \<in> set (f l)")
  case True
  then obtain as bs where fl: "f l = as @ o1 # bs" by (meson split_list)
  then have "remove1 o1 (f l) = as @ bs"
    using lists_atD(1) [OF h, of l] by (simp add: remove1_append)
  with True list_remove_in [OF h fl] r show ?thesis by auto
next
  case False
  then have "nh_l h o1 \<noteq> Some l" using lists_atD(3) [OF h] by simp
  with False list_remove_out [of h o1 l] r h show ?thesis by (auto simp: remove1_idem)
qed

lemma list_remove_None:
  "list_remove l None h = (case nh_f h l of None \<Rightarrow> (None, h) | Some x \<Rightarrow> list_remove l (Some x) h)"
  by (simp add: list_remove_def split: option.splits)

section \<open>The destructor\<close>

definition cleared :: "oid set \<Rightarrow> ned_heap \<Rightarrow> ned_heap" where
  "cleared A h = h\<lparr>nh_l := (\<lambda>x. if x \<in> A then None else nh_l h x),
     nh_p := (\<lambda>x. if x \<in> A then None else nh_p h x), nh_n := (\<lambda>x. if x \<in> A then None else nh_n h x)\<rparr>"

lemma cleared_sel [simp]:
  "nh_l (cleared A h) x = (if x \<in> A then None else nh_l h x)"
  "nh_p (cleared A h) x = (if x \<in> A then None else nh_p h x)"
  "nh_n (cleared A h) x = (if x \<in> A then None else nh_n h x)"
  "nh_f (cleared A h) = nh_f h"
  by (simp_all add: cleared_def)

lemma destroy_loop_dll:
  assumes "dll h p c xs" and "distinct xs" and "\<forall>x \<in> set xs. nh_l h x = Some l"
  shows "destroy_loop l c h = Some (Inr (cleared (set xs) h))"
  using assms
proof (induction xs arbitrary: p c h)
  case Nil
  then show ?case by (subst destroy_loop.simps) (simp add: cleared_def)
next
  case (Cons x xs)
  have "dll (cleared {x} h) (Some x) (nh_n h x) xs"
    by (rule dll_cong [of h]) (use Cons.prems in auto)
  moreover have "\<forall>y \<in> set xs. nh_l (cleared {x} h) y = Some l" using Cons.prems by auto
  ultimately have "destroy_loop l (nh_n h x) (cleared {x} h) = Some (Inr (cleared (set xs) (cleared {x} h)))"
    using Cons.IH Cons.prems(2) by simp
  moreover have "cleared (set xs) (cleared {x} h) = cleared (set (x # xs)) h"
    by (auto simp: cleared_def fun_eq_iff)
  moreover have "h\<lparr>nh_l := (nh_l h)(x := None), nh_p := (nh_p h)(x := None), nh_n := (nh_n h)(x := None)\<rparr> =
      cleared {x} h"
    by (auto simp: cleared_def fun_eq_iff)
  ultimately show ?case
    using Cons.prems by (subst destroy_loop.simps) simp
qed

lemma list_destroy_lists:
  assumes "lists_at h f"
  shows "list_destroy l h = Some (Inr (cleared (set (f l)) h))"
  using destroy_loop_dll [OF lists_atD(2,1) [OF assms, of l]] lists_atD(3) [OF assms]
  by (simp add: list_destroy_def)

section \<open>The interface\<close>

text \<open>
  What a user of a list sees: \<open>rep h xs\<close> says that the list holds \<open>xs\<close> on the heap, \<open>busy\<close> that an
  object is on some list.
\<close>

locale object_list =
  fixes add :: "'o \<Rightarrow> 'h \<Rightarrow> 'h" and remove :: "'o option \<Rightarrow> 'h \<Rightarrow> 'o option \<times> 'h"
    and rep :: "'h \<Rightarrow> 'o list \<Rightarrow> bool" and busy :: "'h \<Rightarrow> 'o \<Rightarrow> bool"
  assumes rep_distinct: "rep h xs \<Longrightarrow> distinct xs"
    and rep_busy: "rep h xs \<Longrightarrow> x \<in> set xs \<Longrightarrow> busy h x"
    and add_free: "rep h xs \<Longrightarrow> \<not> busy h x \<Longrightarrow> rep (add x h) (x # xs)"
    and add_busy: "busy h x \<Longrightarrow> add x h = h"
    and remove_member: "rep h xs \<Longrightarrow> x \<in> set xs \<Longrightarrow>
      \<exists>h'. remove (Some x) h = (Some x, h') \<and> rep h' (remove1 x xs) \<and> \<not> busy h' x"
    and remove_other: "rep h xs \<Longrightarrow> x \<notin> set xs \<Longrightarrow> remove (Some x) h = (None, h)"
    and remove_first: "rep h (x # xs) \<Longrightarrow> remove None h = remove (Some x) h"
    and remove_empty: "rep h [] \<Longrightarrow> remove None h = (None, h)"
begin

text \<open>Removing an object is idempotent: the destructor may repeat what \<open>terminate\<close> has done.\<close>

lemma remove_twice:
  assumes "rep h xs"
  shows "remove (Some x) (snd (remove (Some x) h)) = (None, snd (remove (Some x) h))"
proof (cases "x \<in> set xs")
  case True
  with remove_member [OF assms] obtain h' where h': "remove (Some x) h = (Some x, h')" "rep h' (remove1 x xs)"
    by blast
  moreover have "x \<notin> set (remove1 x xs)" using rep_distinct [OF assms] by simp
  ultimately show ?thesis using remove_other by simp
next
  case False
  with remove_other [OF assms] show ?thesis by simp
qed

lemma remove_rep: "rep h xs \<Longrightarrow> rep (snd (remove (Some x) h)) (remove1 x xs)"
  using remove_member [of h xs x] remove_other [of h xs x] by (cases "x \<in> set xs") (auto simp: remove1_idem)

lemma add_remove:
  assumes "rep h xs" and "\<not> busy h x"
  shows "\<exists>h'. remove (Some x) (add x h) = (Some x, h') \<and> rep h' xs \<and> \<not> busy h' x"
  using remove_member [OF add_free [OF assms], of x] by simp

fun drain :: "nat \<Rightarrow> 'h \<Rightarrow> 'o list \<times> 'h" where
  "drain 0 h = ([], h)"
| "drain (Suc n) h = (case remove None h of
     (None, h) \<Rightarrow> ([], h)
   | (Some x, h) \<Rightarrow> (let (xs, h) = drain n h in (x # xs, h)))"

text \<open>Taking the first object until none is left yields all of them, the last one added first.\<close>

lemma drain_all: "rep h xs \<Longrightarrow> length xs < n \<Longrightarrow> \<exists>h'. drain n h = (xs, h') \<and> rep h' []"
proof (induction xs arbitrary: n h)
  case Nil
  then show ?case by (cases n) (auto simp: remove_empty)
next
  case (Cons x xs)
  then obtain m where n: "n = Suc m" by (cases n) auto
  obtain h1 where h1: "remove (Some x) h = (Some x, h1)" "rep h1 xs"
    using remove_member [OF Cons.prems(1), of x] by auto
  obtain h2 where "drain m h1 = (xs, h2)" "rep h2 []"
    using Cons.IH [OF h1(2), of m] Cons.prems(2) n by auto
  with h1 n remove_first [OF Cons.prems(1)] show ?case by simp
qed

end

definition list_rep :: "lid \<Rightarrow> ned_heap \<Rightarrow> oid list \<Rightarrow> bool" where
  "list_rep l h xs \<longleftrightarrow> (\<exists>f. lists_at h f \<and> f l = xs)"

definition on_list :: "ned_heap \<Rightarrow> oid \<Rightarrow> bool" where
  "on_list h x \<longleftrightarrow> nh_l h x \<noteq> None"

interpretation ned_list: object_list "list_add l" "list_remove l" "list_rep l" on_list for l
proof unfold_locales
  fix h xs x assume "list_rep l h xs" "x \<in> set xs"
  then obtain f where f: "lists_at h f" "f l = xs" by (auto simp: list_rep_def)
  obtain r h' where r: "list_remove l (Some x) h = (r, h')" by fastforce
  from lists_at_remove [OF f(1) r] f(2) \<open>x \<in> set xs\<close> r
  show "\<exists>h'. list_remove l (Some x) h = (Some x, h') \<and> list_rep l h' (remove1 x xs) \<and> \<not> on_list h' x"
    by (auto simp: list_rep_def on_list_def intro!: exI [of _ "f(l := remove1 x xs)"])
next
  fix h xs x assume "list_rep l h xs" "\<not> on_list h x"
  then obtain f where "lists_at h f" "f l = xs" "nh_l h x = None" by (auto simp: list_rep_def on_list_def)
  with lists_at_add [of h f l x] show "list_rep l (list_add l x h) (x # xs)"
    by (auto simp: list_rep_def intro!: exI [of _ "f(l := x # xs)"])
next
  fix h x xs assume "list_rep l h (x # xs)"
  then obtain f where "lists_at h f" "f l = x # xs" by (auto simp: list_rep_def)
  then have "nh_f h l = Some x" using lists_atD(2) [of h f l] by simp
  then show "list_remove l None h = list_remove l (Some x) h" by (simp add: list_remove_None)
next
  fix h assume "list_rep l h []"
  then obtain f where "lists_at h f" "f l = []" by (auto simp: list_rep_def)
  then have "nh_f h l = None" using lists_atD(2) [of h f l] by simp
  then show "list_remove l None h = (None, h)" by (simp add: list_remove_None)
qed (auto simp: list_rep_def on_list_def list_add_def list_remove_def lists_atD)

lemma lists_at_empty: "lists_at \<lparr>nh_p = \<lambda>_. None, nh_n = \<lambda>_. None, nh_l = \<lambda>_. None, nh_f = \<lambda>_. None\<rparr> (\<lambda>_. [])"
  by (simp add: lists_at_def)

section \<open>The race of \<open>add\<close>\<close>

text \<open>Two threads have passed the test of \<open>add\<close> for the same object before either takes the lock.\<close>

lemma double_insert:
  assumes "lists_at h f" and "nh_l h o1 = None"
  shows "nh_n (list_insert l o1 (list_insert l o1 h)) o1 = Some o1 \<and>
    list_destroy l (list_insert l o1 (list_insert l o1 h)) = Some (Inl ())"
proof -
  let ?h = "list_insert l o1 (list_insert l o1 h)"
  have n: "nh_n ?h o1 = Some o1" "nh_l ?h o1 = Some l" "nh_f ?h l = Some o1" by simp_all
  then have "list_destroy l ?h = Some (Inl ())"
    unfolding list_destroy_def by (subst destroy_loop.simps, simp, subst destroy_loop.simps) simp
  with n show ?thesis by simp
qed

end
