(* ===== verification/App_Task.thy ===== *)
theory App_Task
  imports L4fs_Protocol Ned_List
begin

text \<open>
  The tasks Ned starts (dom0-ned): the object that stands for a task (server/src/app_task.h and
  app_task.cc), the observer that waits for its end, and the operations Lua programs have on it
  (server/src/lua_exec.cc).

  A task object lives while references to it exist: the \<open>Ref_ptr\<close> in a Lua userdata, and one that
  \<open>running\<close> adds on behalf of the running task. Objects are kept in a store; \<open>None\<close> in it is an object
  that has been deleted, and an operation that touches such an object is \<open>None\<close>. Capabilities are
  words, 0 is the invalid one.
\<close>

section \<open>State\<close>

datatype app_state = Initializing | Running | Zombie

record app_task =
  at_ref :: int
  at_caps :: bool  \<comment> \<open>\<open>_task\<close>, \<open>_thread\<close> and \<open>_rm\<close> are valid\<close>
  at_state :: app_state
  at_exit :: "u32 option"  \<comment> \<open>\<open>None\<close>: not initialised\<close>
  at_observer :: u32
  at_cap :: u32  \<comment> \<open>\<open>obj_cap()\<close>\<close>

record app_world =
  aw_heap :: ned_heap
  aw_tasks :: "oid \<Rightarrow> app_task option"
  aw_registered :: "oid \<Rightarrow> bool"
  aw_freed :: "u32 list"
  aw_woken :: "u32 list"
  aw_ud :: "oid option list"  \<comment> \<open>the \<open>App_ptr\<close> of each userdata\<close>

definition reap_list :: lid where "reap_list = 0"

definition upd_task :: "oid \<Rightarrow> app_task \<Rightarrow> app_world \<Rightarrow> app_world" where
  "upd_task o1 t w = w\<lparr>aw_tasks := (aw_tasks w)(o1 := Some t)\<rparr>"

section \<open>The task object\<close>

definition unregister_obj :: "oid \<Rightarrow> app_world \<Rightarrow> app_world" where
  "unregister_obj o1 w =
     w\<lparr>aw_heap := snd (list_remove reap_list (Some o1) (aw_heap w)),
       aw_registered := (aw_registered w)(o1 := False)\<rparr>"

text \<open>
  The constructor. \<open>slots\<close> are the capability slots the allocator gives for the task, its thread and its
  region map, each checked by \<open>chkcap\<close>; \<open>create\<close> is what the factory answers; \<open>cap\<close> is the capability
  \<open>register_obj\<close> gives the object: if it is invalid the constructor goes on with an object that receives
  no messages. An exception leaves no object behind.
\<close>

definition chkcap_all :: "u32 \<times> u32 \<times> u32 \<Rightarrow> bool" where
  "chkcap_all slots = (case slots of (task, thread, rm) \<Rightarrow> task \<noteq> 0 \<and> thread \<noteq> 0 \<and> rm \<noteq> 0)"

definition App_task_new :: "oid \<Rightarrow> u32 \<times> u32 \<times> u32 \<Rightarrow> u32 \<Rightarrow> int \<Rightarrow> app_world \<Rightarrow> (int + unit) \<times> app_world" where
  "App_task_new o1 slots cap create w =
     (if \<not> chkcap_all slots then (Inl (- L4_ENOMEM), w)
      else if create < 0 then (Inl create, w)
      else (Inr (), w\<lparr>aw_tasks := (aw_tasks w)(o1 := Some \<lparr>at_ref = 0, at_caps = True,
               at_state = Initializing, at_exit = None, at_observer = 0, at_cap = cap\<rparr>),
             aw_registered := (aw_registered w)(o1 := (cap \<noteq> 0))\<rparr>))"

definition app_add_ref :: "oid \<Rightarrow> app_world \<Rightarrow> app_world option" where
  "app_add_ref o1 w = map_option (\<lambda>t. upd_task o1 (t\<lparr>at_ref := at_ref t + 1\<rparr>) w) (aw_tasks w o1)"

definition app_remove_ref :: "oid \<Rightarrow> app_world \<Rightarrow> (int \<times> app_world) option" where
  "app_remove_ref o1 w =
     map_option (\<lambda>t. (at_ref t - 1, upd_task o1 (t\<lparr>at_ref := at_ref t - 1\<rparr>) w)) (aw_tasks w o1)"

definition app_running :: "oid \<Rightarrow> app_world \<Rightarrow> app_world option" where
  "app_running o1 w = do {
     t \<leftarrow> aw_tasks w o1;
     app_add_ref o1 (upd_task o1 (t\<lparr>at_state := Running\<rparr>) w)
   }"

definition terminate :: "oid \<Rightarrow> app_world \<Rightarrow> app_world option" where
  "terminate o1 w = do {
     t \<leftarrow> aw_tasks w o1;
     let w = upd_task o1 (t\<lparr>at_caps := False\<rparr>) w;
     let w = unregister_obj o1 w;
     Some (w\<lparr>aw_freed := at_cap t # aw_freed w\<rparr>)
   }"

text \<open>\<open>delete\<close>: the destructor, then the object is gone.\<close>

definition app_delete :: "oid \<Rightarrow> app_world \<Rightarrow> app_world option" where
  "app_delete o1 w = do {
     t \<leftarrow> aw_tasks w o1;
     let w = unregister_obj o1 w;
     let w = w\<lparr>aw_freed := at_cap t # aw_freed w\<rparr>;
     Some (w\<lparr>aw_tasks := (aw_tasks w)(o1 := None)\<rparr>)
   }"

text \<open>\<open>parent\<close> and \<open>signal\<close> are the numbers of the parent protocol and of its opcode.\<close>

definition app_dispatch ::
  "int \<Rightarrow> u32 \<Rightarrow> int \<Rightarrow> item list \<Rightarrow> oid \<Rightarrow> app_world \<Rightarrow> (int \<times> app_world) option" where
  "app_dispatch parent signal label ios o1 w =
     (if label \<noteq> parent then Some (- L4_EBADPROTO, w)
      else do {
        (op, ios) \<leftarrow> get32 ios;
        if op = signal then do {
          (sig, ios) \<leftarrow> get32 ios;
          (val, ios) \<leftarrow> get32 ios;
          if sig = 0 then do {
            t \<leftarrow> aw_tasks w o1;
            w \<leftarrow> terminate o1 (upd_task o1 (t\<lparr>at_state := Zombie, at_exit := Some val\<rparr>) w);
            (n, w) \<leftarrow> app_remove_ref o1 w;
            if n = 0 then do { w \<leftarrow> app_delete o1 w; Some (- L4_ENOREPLY, w) }
            else do {
              t \<leftarrow> aw_tasks w o1;
              if at_observer t \<noteq> 0
              then Some (- L4_ENOREPLY,
                (upd_task o1 (t\<lparr>at_observer := 0\<rparr>) w)\<lparr>aw_woken := at_observer t # aw_woken w\<rparr>)
              else Some (- L4_ENOREPLY, w)
            }
          }
          else Some (L4_EOK, w)
        }
        else Some (- L4_ENOSYS, w)
      })"

section \<open>The observer\<close>

text \<open>The client sends its thread and the address of the task object.\<close>

definition observer_dispatch :: "u32 \<Rightarrow> oid \<Rightarrow> app_world \<Rightarrow> (int \<times> app_world) option" where
  "observer_dispatch thread o1 w = do {
     t \<leftarrow> aw_tasks w o1;
     if at_state t = Zombie then Some (0, w)
     else Some (- L4_ENOREPLY, upd_task o1 (t\<lparr>at_observer := thread\<rparr>) w)
   }"

section \<open>Operations of Lua\<close>

datatype lua_ret = L_nil | L_str string | L_int u32 | L_undefined

definition ref_drop :: "oid \<Rightarrow> app_world \<Rightarrow> app_world option" where
  "ref_drop o1 w = do {
     (n, w) \<leftarrow> app_remove_ref o1 w;
     if n = 0 then app_delete o1 w else Some w
   }"

text \<open>\<open>t = 0\<close> for the reference in userdata \<open>i\<close>.\<close>

definition ud_zap :: "nat \<Rightarrow> app_world \<Rightarrow> app_world option" where
  "ud_zap i w =
     (case aw_ud w ! i of
        None \<Rightarrow> Some w
      | Some o1 \<Rightarrow> ref_drop o1 (w\<lparr>aw_ud := (aw_ud w)[i := None]\<rparr>))"

definition exit_value :: "app_task \<Rightarrow> lua_ret" where
  "exit_value t = (case at_exit t of None \<Rightarrow> L_undefined | Some v \<Rightarrow> L_int v)"

definition task_state :: "nat \<Rightarrow> app_world \<Rightarrow> lua_ret option" where
  "task_state i w =
     (case aw_ud w ! i of
        None \<Rightarrow> Some L_nil
      | Some o1 \<Rightarrow> map_option (\<lambda>t. case at_state t of
            Initializing \<Rightarrow> L_str ''initializing''
          | Running \<Rightarrow> L_str ''running''
          | Zombie \<Rightarrow> L_str ''zombie'') (aw_tasks w o1))"

definition task_exit_code :: "nat \<Rightarrow> app_world \<Rightarrow> lua_ret option" where
  "task_exit_code i w =
     (case aw_ud w ! i of
        None \<Rightarrow> Some L_nil
      | Some o1 \<Rightarrow> map_option exit_value (aw_tasks w o1))"

text \<open>
  \<open>wait\<close> calls the observer (\<open>task_wait_call\<close>); when the answer or the message of the exiting task has
  arrived it returns the exit code and drops the reference (\<open>task_wait_return\<close>).
\<close>

definition task_wait_call :: "u32 \<Rightarrow> nat \<Rightarrow> app_world \<Rightarrow> (int option \<times> app_world) option" where
  "task_wait_call thread i w =
     (case aw_ud w ! i of
        None \<Rightarrow> Some (None, w)
      | Some o1 \<Rightarrow> map_option (\<lambda>(r, w). (Some r, w)) (observer_dispatch thread o1 w))"

definition task_wait_return :: "nat \<Rightarrow> app_world \<Rightarrow> (lua_ret \<times> app_world) option" where
  "task_wait_return i w =
     (case aw_ud w ! i of
        None \<Rightarrow> Some (L_nil, w)
      | Some o1 \<Rightarrow> do {
          t \<leftarrow> aw_tasks w o1;
          w \<leftarrow> ud_zap i w;
          Some (exit_value t, w)
        })"

definition task_kill :: "nat \<Rightarrow> app_world \<Rightarrow> (lua_ret \<times> app_world) option" where
  "task_kill i w =
     (case aw_ud w ! i of
        None \<Rightarrow> Some (L_nil, w)
      | Some o1 \<Rightarrow> do {
          t \<leftarrow> aw_tasks w o1;
          if at_state t = Zombie then do {
            w \<leftarrow> ud_zap i w;
            Some (exit_value t, w)
          }
          else do {
            w \<leftarrow> terminate o1 w;
            w \<leftarrow> ud_zap i w;
            Some (L_str ''killed'', w)
          }
        })"

definition task_gc :: "nat \<Rightarrow> app_world \<Rightarrow> app_world option" where
  "task_gc i w = ud_zap i w"

definition task_eq :: "nat \<Rightarrow> nat \<Rightarrow> app_world \<Rightarrow> bool" where
  "task_eq i j w \<longleftrightarrow> aw_ud w ! i = aw_ud w ! j"

text \<open>The order of the pointers; the null pointer is the smallest.\<close>

definition task_lt :: "nat \<Rightarrow> nat \<Rightarrow> app_world \<Rightarrow> bool" where
  "task_lt i j w \<longleftrightarrow> (case (aw_ud w ! i, aw_ud w ! j) of
     (_, None) \<Rightarrow> False | (None, Some _) \<Rightarrow> True | (Some a, Some b) \<Rightarrow> a < b)"

definition task_le :: "nat \<Rightarrow> nat \<Rightarrow> app_world \<Rightarrow> bool" where
  "task_le i j w \<longleftrightarrow> task_lt i j w \<or> task_eq i j w"

text \<open>
  \<open>exec\<close> before and after the program is launched: the local \<open>Ref_ptr\<close> is created by
  \<open>exec_new\<close>; \<open>exec_running\<close> marks the task, copies the reference into a new userdata and drops
  the local one. An exception of the loader drops the local one by \<open>ref_drop\<close>.
\<close>

definition exec_new ::
  "oid \<Rightarrow> u32 \<times> u32 \<times> u32 \<Rightarrow> u32 \<Rightarrow> int \<Rightarrow> app_world \<Rightarrow> ((int + unit) \<times> app_world) option" where
  "exec_new o1 slots cap create w =
     (case App_task_new o1 slots cap create w of
        (Inl e, w) \<Rightarrow> Some (Inl e, w)
      | (Inr _, w) \<Rightarrow> map_option (Pair (Inr ())) (app_add_ref o1 w))"

definition exec_running :: "oid \<Rightarrow> app_world \<Rightarrow> (nat \<times> app_world) option" where
  "exec_running o1 w = do {
     w \<leftarrow> app_running o1 w;
     w \<leftarrow> app_add_ref o1 w;
     let i = length (aw_ud w);
     let w = w\<lparr>aw_ud := aw_ud w @ [Some o1]\<rparr>;
     w \<leftarrow> ref_drop o1 w;
     Some (i, w)
   }"

section \<open>The life of a task\<close>

text \<open>
  \<open>new\<close> lists the objects whose programs are being launched; for each of them an \<open>exec\<close> holds a
  reference. There can be several: the configuration of a program is evaluated while it is launched,
  and a function in it can call \<open>exec\<close>. The reference count is the number of userdata that hold the
  object, plus one while the state is \<open>Running\<close>, plus one for an \<open>exec\<close>; a deleted object is held by
  nobody and receives no messages; the objects in state \<open>Initializing\<close> are those being launched, and no userdata
  holds them; a zombie has an exit code and receives no messages.
\<close>

definition task_ok :: "oid list \<Rightarrow> oid \<Rightarrow> app_world \<Rightarrow> bool" where
  "task_ok new o1 w \<longleftrightarrow>
     (case aw_tasks w o1 of
        None \<Rightarrow> count_list (aw_ud w) (Some o1) = 0 \<and> \<not> aw_registered w o1 \<and> o1 \<notin> set new
      | Some t \<Rightarrow>
          at_ref t = int (count_list (aw_ud w) (Some o1)) + (if at_state t = Running then 1 else 0) +
            (if o1 \<in> set new then 1 else 0) \<and>
          0 < at_ref t \<and> (at_state t = Initializing) = (o1 \<in> set new) \<and>
          (o1 \<in> set new \<longrightarrow> count_list (aw_ud w) (Some o1) = 0) \<and>
          (at_state t = Zombie \<longrightarrow> at_exit t \<noteq> None \<and> \<not> aw_registered w o1))"

definition life_ok :: "oid list \<Rightarrow> app_world \<Rightarrow> bool" where
  "life_ok new w \<longleftrightarrow> (\<forall>x. task_ok new x w) \<and> distinct new \<and> (\<exists>xs. list_rep reap_list (aw_heap w) xs)"

abbreviation world_ok :: "app_world \<Rightarrow> bool" where
  "world_ok \<equiv> life_ok []"

lemma count_list_update:
  assumes "i < length xs" and "xs ! i = a" and "b \<noteq> a"
  shows "count_list xs a = Suc (count_list (xs[i := b]) a)"
  using assms
proof (induction xs arbitrary: i)
  case Nil
  then show ?case by simp
next
  case (Cons x xs)
  then show ?case by (cases i) auto
qed

lemma count_list_update_other:
  assumes "a \<noteq> c" and "xs ! i = c" and "b \<noteq> a"
  shows "count_list (xs[i := b]) a = count_list xs a"
  using assms
proof (induction xs arbitrary: i)
  case Nil
  then show ?case by simp
next
  case (Cons x xs)
  then show ?case by (cases i) auto
qed

lemma count_list_nth: "i < length xs \<Longrightarrow> xs ! i = a \<Longrightarrow> 0 < count_list xs a"
  using count_list_0_iff [of xs a] nth_mem [of i xs] by fastforce

lemma reap_remove_ok:
  "\<exists>xs. list_rep reap_list h xs \<Longrightarrow> \<exists>xs. list_rep reap_list (snd (list_remove reap_list (Some x) h)) xs"
  using ned_list.remove_rep by blast

lemma life_okD: "life_ok new w \<Longrightarrow> task_ok new x w"
  by (simp add: life_ok_def)

text \<open>Dropping a reference, whoever held it.\<close>

lemma ref_drop_eq:
  assumes "aw_tasks w o1 = Some t"
  shows "ref_drop o1 w = Some (if at_ref t = 1
    then w\<lparr>aw_tasks := (aw_tasks w)(o1 := None), aw_freed := at_cap t # aw_freed w,
           aw_registered := (aw_registered w)(o1 := False),
           aw_heap := snd (list_remove reap_list (Some o1) (aw_heap w))\<rparr>
    else upd_task o1 (t\<lparr>at_ref := at_ref t - 1\<rparr>) w)"
  using assms by (simp add: ref_drop_def app_remove_ref_def app_delete_def upd_task_def unregister_obj_def)

lemma ud_zap_ok:
  assumes ok: "life_ok new w" and i: "i < length (aw_ud w)"
  shows "\<exists>w'. ud_zap i w = Some w' \<and> life_ok new w'"
proof (cases "aw_ud w ! i")
  case None
  with ok show ?thesis by (simp add: ud_zap_def)
next
  case (Some o1)
  note cnt = count_list_update [OF i Some, of None]
  from life_okD [OF ok, of o1] count_list_nth [OF i Some] obtain t where
    t: "aw_tasks w o1 = Some t" by (auto simp: task_ok_def split: option.splits)
  let ?w = "w\<lparr>aw_ud := (aw_ud w)[i := None]\<rparr>"
  have tw: "aw_tasks ?w o1 = Some t" using t by simp
  have other: "count_list ((aw_ud w)[i := None]) (Some x) = count_list (aw_ud w) (Some x)" if "x \<noteq> o1" for x
    by (rule count_list_update_other [of _ "Some o1"]) (use that Some in auto)
  have "life_ok new (the (ref_drop o1 ?w))"
    unfolding ref_drop_eq [OF tw] life_ok_def
  proof (intro conjI allI)
    fix x
    show "task_ok new x (the (Some (if at_ref t = 1
        then ?w\<lparr>aw_tasks := (aw_tasks ?w)(o1 := None), aw_freed := at_cap t # aw_freed ?w,
           aw_registered := (aw_registered ?w)(o1 := False),
           aw_heap := snd (list_remove reap_list (Some o1) (aw_heap ?w))\<rparr>
        else upd_task o1 (t\<lparr>at_ref := at_ref t - 1\<rparr>) ?w)))"
    proof (cases "x = o1")
      case True
      with life_okD [OF ok, of o1] t cnt show ?thesis
        by (auto simp: task_ok_def upd_task_def split: if_splits)
    next
      case False
      with life_okD [OF ok, of x] other [OF False] show ?thesis
        by (auto simp: task_ok_def upd_task_def split: option.splits)
    qed
  next
    show "\<exists>xs. list_rep reap_list (aw_heap (the (Some (if at_ref t = 1
        then ?w\<lparr>aw_tasks := (aw_tasks ?w)(o1 := None), aw_freed := at_cap t # aw_freed ?w,
           aw_registered := (aw_registered ?w)(o1 := False),
           aw_heap := snd (list_remove reap_list (Some o1) (aw_heap ?w))\<rparr>
        else upd_task o1 (t\<lparr>at_ref := at_ref t - 1\<rparr>) ?w)))) xs"
      using ok reap_remove_ok by (simp add: life_ok_def upd_task_def)
  qed (use ok in \<open>simp add: life_ok_def\<close>)
  with Some ref_drop_eq [OF tw] show ?thesis by (simp add: ud_zap_def)
qed

lemma terminate_eq:
  assumes "aw_tasks w o1 = Some t"
  shows "terminate o1 w = Some (w\<lparr>aw_tasks := (aw_tasks w)(o1 := Some (t\<lparr>at_caps := False\<rparr>)),
    aw_registered := (aw_registered w)(o1 := False), aw_freed := at_cap t # aw_freed w,
    aw_heap := snd (list_remove reap_list (Some o1) (aw_heap w))\<rparr>)"
  using assms by (simp add: terminate_def upd_task_def unregister_obj_def)

lemma task_ok_cong:
  "aw_ud w' = aw_ud w \<Longrightarrow> aw_tasks w' x = aw_tasks w x \<Longrightarrow> aw_registered w' x = aw_registered w x \<Longrightarrow>
    task_ok new x w' = task_ok new x w"
  unfolding task_ok_def by (simp only:)

lemma task_ok_count_cong:
  "count_list (aw_ud w') (Some x) = count_list (aw_ud w) (Some x) \<Longrightarrow> aw_tasks w' x = aw_tasks w x \<Longrightarrow>
    aw_registered w' x = aw_registered w x \<Longrightarrow> task_ok new x w' = task_ok new x w"
  unfolding task_ok_def by (simp only:)

lemma life_okI:
  assumes "life_ok new w" and "task_ok new o1 w'" and "aw_ud w' = aw_ud w"
    and "\<And>x. x \<noteq> o1 \<Longrightarrow> aw_tasks w' x = aw_tasks w x \<and> aw_registered w' x = aw_registered w x"
    and "aw_heap w' = aw_heap w \<or> aw_heap w' = snd (list_remove reap_list (Some o1) (aw_heap w))"
  shows "life_ok new w'"
  unfolding life_ok_def
proof (intro conjI allI)
  fix x
  show "task_ok new x w'"
    using assms(2) task_ok_cong [OF assms(3), of x] assms(4) [of x] life_okD [OF assms(1), of x]
    by (cases "x = o1") simp_all
next
  show "\<exists>xs. list_rep reap_list (aw_heap w') xs"
  proof -
    from assms(1) have ex: "\<exists>xs. list_rep reap_list (aw_heap w) xs" by (simp add: life_ok_def)
    from assms(5) ex reap_remove_ok [OF ex, of o1] show ?thesis by (elim disjE) simp_all
  qed
qed (use assms(1) in \<open>simp add: life_ok_def\<close>)

text \<open>The exit signal: the task becomes a zombie with its exit code, or the object is deleted.\<close>

lemma signal_eq:
  assumes t: "aw_tasks w o1 = Some t" and more: "at_ref t \<noteq> 1"
  shows "app_dispatch parent signal parent [W32 signal, W32 0, W32 v] o1 w =
    Some (- L4_ENOREPLY, w\<lparr>aw_tasks := (aw_tasks w)(o1 := Some (t\<lparr>at_state := Zombie, at_exit := Some v,
        at_caps := False, at_ref := at_ref t - 1, at_observer := 0\<rparr>)),
      aw_registered := (aw_registered w)(o1 := False), aw_freed := at_cap t # aw_freed w,
      aw_heap := snd (list_remove reap_list (Some o1) (aw_heap w)),
      aw_woken := (if at_observer t \<noteq> 0 then at_observer t # aw_woken w else aw_woken w)\<rparr>)"
proof -
  note unf = app_dispatch_def terminate_eq [of _ o1 "t\<lparr>at_state := Zombie, at_exit := Some v\<rparr>"]
    upd_task_def app_remove_ref_def
  show ?thesis
  proof (cases "at_observer t = 0")
    case True
    have eq: "t\<lparr>at_state := Zombie, at_exit := Some v, at_caps := False, at_ref := at_ref t - 1, at_observer := 0\<rparr> =
        t\<lparr>at_state := Zombie, at_exit := Some v, at_caps := False, at_ref := at_ref t - 1\<rparr>"
      using True by (cases t) simp
    show ?thesis unfolding eq using assms True by (simp add: unf)
  next
    case False
    with assms show ?thesis by (simp add: unf)
  qed
qed

lemma signal_ok:
  assumes ok: "life_ok new w" and reg: "aw_registered w o1" and old: "o1 \<notin> set new"
  shows "\<exists>w'. app_dispatch parent signal parent [W32 signal, W32 0, W32 v] o1 w = Some (- L4_ENOREPLY, w') \<and>
    life_ok new w'"
proof -
  from life_okD [OF ok, of o1] reg old obtain t where t: "aw_tasks w o1 = Some t" "at_state t = Running"
    "at_ref t = int (count_list (aw_ud w) (Some o1)) + 1"
    by (cases "the (aw_tasks w o1)" rule: app_task.cases, cases "at_state (the (aw_tasks w o1))")
      (auto simp: task_ok_def split: option.splits)
  show ?thesis
  proof (cases "at_ref t = 1")
    case False
    from signal_eq [OF t(1) False, of parent signal v] show ?thesis
      using t(3) False old by (auto intro!: life_okI [OF ok, of o1] simp: task_ok_def)
  next
    case True
    then have "app_dispatch parent signal parent [W32 signal, W32 0, W32 v] o1 w =
      Some (- L4_ENOREPLY, w\<lparr>aw_tasks := (aw_tasks w)(o1 := None),
        aw_registered := (aw_registered w)(o1 := False), aw_freed := at_cap t # at_cap t # aw_freed w,
        aw_heap := snd (list_remove reap_list (Some o1) (snd (list_remove reap_list (Some o1) (aw_heap w))))\<rparr>)"
      using t by (simp add: app_dispatch_def terminate_eq [of _ o1 "t\<lparr>at_state := Zombie, at_exit := Some v\<rparr>"]
          upd_task_def app_remove_ref_def app_delete_def unregister_obj_def)
    moreover have "snd (list_remove reap_list (Some o1) (snd (list_remove reap_list (Some o1) (aw_heap w)))) =
        snd (list_remove reap_list (Some o1) (aw_heap w))"
      using ok ned_list.remove_twice by (metis snd_conv life_ok_def)
    ultimately show ?thesis
      using t(3) True old by (auto intro!: life_okI [OF ok, of o1] simp: task_ok_def)
  qed
qed

lemma observer_ok:
  assumes ok: "life_ok new w" and t: "aw_tasks w o1 = Some t"
  shows "\<exists>r w'. observer_dispatch thread o1 w = Some (r, w') \<and> life_ok new w' \<and> aw_ud w' = aw_ud w \<and>
    (if at_state t = Zombie then r = 0 \<and> w' = w
     else r = - L4_ENOREPLY \<and> aw_tasks w' o1 = Some (t\<lparr>at_observer := thread\<rparr>))"
  using t life_okD [OF ok, of o1] ok
  by (auto intro!: life_okI [OF ok, of o1] simp: observer_dispatch_def upd_task_def task_ok_def)

lemma held_task:
  assumes "life_ok new w" and "i < length (aw_ud w)" and "aw_ud w ! i = Some o1"
  shows "\<exists>t. aw_tasks w o1 = Some t \<and> at_state t \<noteq> Initializing \<and> (at_state t = Zombie \<longrightarrow> at_exit t \<noteq> None)"
  using life_okD [OF assms(1), of o1] count_list_nth [OF assms(2,3)]
  by (auto simp: task_ok_def split: option.splits)

lemma task_kill_ok:
  assumes ok: "life_ok new w" and i: "i < length (aw_ud w)"
  shows "\<exists>r w'. task_kill i w = Some (r, w') \<and> life_ok new w' \<and> r \<noteq> L_undefined"
proof (cases "aw_ud w ! i")
  case None
  with ok show ?thesis by (simp add: task_kill_def)
next
  case (Some o1)
  obtain t where t: "aw_tasks w o1 = Some t" "at_state t = Zombie \<longrightarrow> at_exit t \<noteq> None"
    using held_task [OF ok i Some] by blast
  show ?thesis
  proof (cases "at_state t = Zombie")
    case True
    obtain w' where "ud_zap i w = Some w'" "life_ok new w'" using ud_zap_ok [OF ok i] by blast
    with Some t True show ?thesis by (auto simp: task_kill_def exit_value_def split: option.splits)
  next
    case False
    define w1 where "w1 = the (terminate o1 w)"
    have w1: "terminate o1 w = Some w1" "aw_ud w1 = aw_ud w"
      by (simp_all add: w1_def terminate_eq [OF t(1)])
    have "life_ok new w1"
      unfolding w1_def terminate_eq [OF t(1)]
      using life_okD [OF ok, of o1] t by (auto intro!: life_okI [OF ok, of o1] simp: task_ok_def)
    then obtain w' where "ud_zap i w1 = Some w'" "life_ok new w'" using ud_zap_ok [of new w1 i] i w1(2) by auto
    with Some t False w1(1) show ?thesis by (simp add: task_kill_def)
  qed
qed

lemma task_wait_return_ok:
  assumes ok: "life_ok new w" and i: "i < length (aw_ud w)"
  shows "\<exists>r w'. task_wait_return i w = Some (r, w') \<and> life_ok new w'"
proof (cases "aw_ud w ! i")
  case None
  with ok show ?thesis by (simp add: task_wait_return_def)
next
  case (Some o1)
  with held_task [OF ok i Some] ud_zap_ok [OF ok i] show ?thesis by (auto simp: task_wait_return_def)
qed

text \<open>The steps of \<open>exec\<close>: the new object, and the two ways the launch can end.\<close>

lemma exec_new_ok:
  assumes ok: "life_ok new w" and free: "aw_tasks w o1 = None" and s: "chkcap_all slots" "\<not> create < 0"
  shows "\<exists>w'. exec_new o1 slots cap create w = Some (Inr (), w') \<and> life_ok (o1 # new) w' \<and>
    aw_ud w' = aw_ud w \<and> aw_freed w' = aw_freed w \<and>
    aw_registered w' = (aw_registered w)(o1 := (cap \<noteq> 0)) \<and>
    aw_tasks w' = (aw_tasks w)(o1 := Some \<lparr>at_ref = 1, at_caps = True, at_state = Initializing, at_exit = None,
      at_observer = 0, at_cap = cap\<rparr>)"
proof -
  define w' where "w' = w\<lparr>aw_tasks := (aw_tasks w)(o1 := Some \<lparr>at_ref = 1, at_caps = True,
      at_state = Initializing, at_exit = None, at_observer = 0, at_cap = cap\<rparr>),
    aw_registered := (aw_registered w)(o1 := (cap \<noteq> 0))\<rparr>"
  have cnt: "count_list (aw_ud w) (Some o1) = 0" "o1 \<notin> set new"
    using life_okD [OF ok, of o1] free by (simp_all add: task_ok_def)
  have "task_ok (o1 # new) x w'" for x
    using cnt life_okD [OF ok, of x] by (cases "x = o1") (simp_all add: task_ok_def w'_def cong: option.case_cong)
  then have "life_ok (o1 # new) w'" using ok cnt by (simp add: life_ok_def w'_def)
  moreover have "exec_new o1 slots cap create w = Some (Inr (), w')"
    using s by (simp add: exec_new_def App_task_new_def app_add_ref_def upd_task_def w'_def)
  ultimately show ?thesis by (auto simp: w'_def)
qed

lemma new_task:
  assumes "life_ok new w" and "o1 \<in> set new"
  shows "\<exists>t. aw_tasks w o1 = Some t \<and> at_ref t = 1 \<and> at_state t = Initializing \<and>
    count_list (aw_ud w) (Some o1) = 0"
  using life_okD [OF assms(1), of o1] assms(2) by (auto simp: task_ok_def split: option.splits)

lemma exec_running_ok:
  assumes ok: "life_ok (o1 # new) w"
  shows "\<exists>t w'. aw_tasks w o1 = Some t \<and> exec_running o1 w = Some (length (aw_ud w), w') \<and> life_ok new w' \<and>
    aw_ud w' = aw_ud w @ [Some o1] \<and> aw_registered w' = aw_registered w \<and> aw_freed w' = aw_freed w \<and>
    aw_tasks w' = (aw_tasks w)(o1 := Some (t\<lparr>at_state := Running, at_ref := 2\<rparr>))"
proof -
  obtain t where t: "aw_tasks w o1 = Some t" "at_ref t = 1" "at_state t = Initializing"
    "count_list (aw_ud w) (Some o1) = 0"
    using new_task [OF ok, of o1] by auto
  define w' where "w' = w\<lparr>aw_tasks := (aw_tasks w)(o1 := Some (t\<lparr>at_state := Running, at_ref := 2\<rparr>)),
    aw_ud := aw_ud w @ [Some o1]\<rparr>"
  have new: "o1 \<notin> set new" using ok by (simp add: life_ok_def)
  have "task_ok new x w'" for x
    using t new life_okD [OF ok, of x] by (cases "x = o1") (auto simp: task_ok_def w'_def split: option.splits)
  then have "life_ok new w'" using ok by (simp add: life_ok_def w'_def)
  moreover have "exec_running o1 w = Some (length (aw_ud w), w')"
    using t by (simp add: exec_running_def app_running_def app_add_ref_def upd_task_def ref_drop_def
        app_remove_ref_def w'_def)
  ultimately show ?thesis using t by (auto simp: w'_def)
qed

lemma exec_fail_ok:
  assumes ok: "life_ok (o1 # new) w"
  shows "\<exists>t w'. aw_tasks w o1 = Some t \<and> ref_drop o1 w = Some w' \<and> life_ok new w' \<and> aw_ud w' = aw_ud w \<and>
    aw_tasks w' = (aw_tasks w)(o1 := None) \<and> aw_registered w' = (aw_registered w)(o1 := False) \<and>
    aw_freed w' = at_cap t # aw_freed w"
proof -
  obtain t where t: "aw_tasks w o1 = Some t" "at_ref t = 1" "count_list (aw_ud w) (Some o1) = 0"
    using new_task [OF ok, of o1] by auto
  define w' where "w' = w\<lparr>aw_tasks := (aw_tasks w)(o1 := None), aw_freed := at_cap t # aw_freed w,
    aw_registered := (aw_registered w)(o1 := False),
    aw_heap := snd (list_remove reap_list (Some o1) (aw_heap w))\<rparr>"
  have new: "o1 \<notin> set new" using ok by (simp add: life_ok_def)
  have "task_ok new x w'" for x
    using t new life_okD [OF ok, of x] by (cases "x = o1") (auto simp: task_ok_def w'_def split: option.splits)
  then have "life_ok new w'"
    using ok reap_remove_ok [of "aw_heap w" o1] by (simp add: life_ok_def w'_def)
  moreover have "ref_drop o1 w = Some w'" using t ref_drop_eq [OF t(1)] by (simp add: w'_def)
  ultimately show ?thesis using t by (auto simp: w'_def)
qed

text \<open>The exit signal of a program that is being launched deletes the object its \<open>exec\<close> is working with.\<close>

lemma early_exit:
  assumes ok: "life_ok new w" and o1: "o1 \<in> set new"
  shows "\<exists>w'. app_dispatch parent signal parent [W32 signal, W32 0, W32 v] o1 w = Some (- L4_ENOREPLY, w') \<and>
    aw_tasks w' o1 = None \<and> exec_running o1 w' = None \<and> ref_drop o1 w' = None"
proof -
  obtain t where t: "aw_tasks w o1 = Some t" "at_ref t = 1" using new_task [OF ok o1] by blast
  then show ?thesis
    by (simp add: app_dispatch_def terminate_eq [of _ o1 "t\<lparr>at_state := Zombie, at_exit := Some v\<rparr>"]
        upd_task_def app_remove_ref_def app_delete_def unregister_obj_def exec_running_def app_running_def
        ref_drop_def)
qed

text \<open>An \<open>exec\<close> during whose launch nothing happens.\<close>

lemma exec_ok:
  assumes ok: "world_ok w" and free: "aw_tasks w o1 = None" and s: "chkcap_all slots" "\<not> create < 0"
  shows "\<exists>w1 w'. exec_new o1 slots cap create w = Some (Inr (), w1) \<and>
    exec_running o1 w1 = Some (length (aw_ud w), w') \<and> world_ok w' \<and>
    aw_ud w' = aw_ud w @ [Some o1] \<and> aw_registered w' o1 = (cap \<noteq> 0) \<and>
    aw_tasks w' o1 = Some \<lparr>at_ref = 2, at_caps = True, at_state = Running, at_exit = None,
      at_observer = 0, at_cap = cap\<rparr>"
proof -
  obtain w1 where w1: "exec_new o1 slots cap create w = Some (Inr (), w1)" "life_ok [o1] w1" "aw_ud w1 = aw_ud w"
    "aw_registered w1 = (aw_registered w)(o1 := (cap \<noteq> 0))"
    "aw_tasks w1 = (aw_tasks w)(o1 := Some \<lparr>at_ref = 1, at_caps = True, at_state = Initializing, at_exit = None,
      at_observer = 0, at_cap = cap\<rparr>)"
    using exec_new_ok [OF ok free s, of cap] by blast
  with exec_running_ok [OF w1(2)] show ?thesis by fastforce
qed

section \<open>Histories\<close>

text \<open>
  What can happen to the tasks of a Ned: \<open>exec\<close> makes an object and launches its program, and then
  marks it running or, on an exception, drops it; a task sends its exit signal through its (still
  existing) gate; and Lua waits for, kills or forgets a task, also while a program is launched. The
  state is the world with the stack of objects being launched. A program can exit while \<open>exec\<close> still
  launches it, since it runs before \<open>launch\<close> returns; \<open>early\<close> says whether the histories contain
  such signals. The operations of the Lua thread and of the thread that dispatches the signals are
  steps: neither interrupts the other inside of one.
\<close>

type_synonym life = "app_world \<times> oid list"

inductive life_step :: "bool \<Rightarrow> int \<Rightarrow> u32 \<Rightarrow> life \<Rightarrow> life \<Rightarrow> bool" for early parent signal where
  life_new: "aw_tasks w o1 = None \<Longrightarrow> exec_new o1 slots cap create w = Some (Inr (), w') \<Longrightarrow>
    life_step early parent signal (w, new) (w', o1 # new)"
| life_running: "exec_running o1 w = Some (i, w') \<Longrightarrow> life_step early parent signal (w, o1 # new) (w', new)"
| life_fail: "ref_drop o1 w = Some w' \<Longrightarrow> life_step early parent signal (w, o1 # new) (w', new)"
| life_exit: "aw_registered w o1 \<Longrightarrow> (o1 \<in> set new \<longrightarrow> early) \<Longrightarrow>
    app_dispatch parent signal parent [W32 signal, W32 0, W32 v] o1 w = Some (r, w') \<Longrightarrow>
    life_step early parent signal (w, new) (w', new)"
| life_wait: "i < length (aw_ud w) \<Longrightarrow> task_wait_call thread i w = Some (r, w') \<Longrightarrow>
    life_step early parent signal (w, new) (w', new)"
| life_return: "i < length (aw_ud w) \<Longrightarrow> task_wait_return i w = Some (x, w') \<Longrightarrow>
    life_step early parent signal (w, new) (w', new)"
| life_kill: "i < length (aw_ud w) \<Longrightarrow> task_kill i w = Some (x, w') \<Longrightarrow>
    life_step early parent signal (w, new) (w', new)"
| life_gc: "i < length (aw_ud w) \<Longrightarrow> task_gc i w = Some w' \<Longrightarrow>
    life_step early parent signal (w, new) (w', new)"

inductive_cases life_stepE: "life_step early parent signal (w, new) (w', new')"

definition world_new :: app_world where
  "world_new = \<lparr>aw_heap = \<lparr>nh_p = \<lambda>_. None, nh_n = \<lambda>_. None, nh_l = \<lambda>_. None, nh_f = \<lambda>_. None\<rparr>,
     aw_tasks = \<lambda>_. None, aw_registered = \<lambda>_. False, aw_freed = [], aw_woken = [], aw_ud = []\<rparr>"

lemma world_ok_new: "world_ok world_new"
  using lists_at_empty by (auto simp: life_ok_def task_ok_def world_new_def list_rep_def)

lemma task_wait_call_ok:
  assumes ok: "life_ok new w" and i: "i < length (aw_ud w)"
  shows "\<exists>r w'. task_wait_call thread i w = Some (r, w') \<and> life_ok new w'"
proof (cases "aw_ud w ! i")
  case None
  with ok show ?thesis by (simp add: task_wait_call_def)
next
  case (Some o1)
  then obtain t where "aw_tasks w o1 = Some t" using held_task [OF ok i] by blast
  with Some observer_ok [OF ok this, of thread] show ?thesis by (auto simp: task_wait_call_def)
qed

lemma life_step_ok:
  assumes "life_step False parent signal (w, new) (w', new')" and ok: "life_ok new w"
  shows "life_ok new' w'"
  using assms(1)
proof (cases rule: life_stepE [consumes 1, case_names 1 2 3 4 5 6 7 8])
  case (1 o1 slots cap create)
  then have "chkcap_all slots" "\<not> create < 0" by (auto simp: exec_new_def App_task_new_def split: if_splits)
  with exec_new_ok [OF ok 1(2), of slots create cap] 1 show ?thesis by auto
next
  case (2 o1 i)
  with exec_running_ok [of o1 new' w] ok show ?thesis by auto
next
  case (3 o1)
  with exec_fail_ok [of o1 new' w] ok show ?thesis by auto
next
  case (4 o1 v r)
  with signal_ok [OF ok 4(2), of parent signal v] show ?thesis by simp
next
  case (5 i thread r)
  with task_wait_call_ok [OF ok 5(2), of thread] show ?thesis by simp
next
  case (6 i x)
  with task_wait_return_ok [OF ok 6(2)] show ?thesis by simp
next
  case (7 i x)
  with task_kill_ok [OF ok 7(2)] show ?thesis by auto
next
  case (8 i)
  with ud_zap_ok [OF ok 8(2)] show ?thesis by (simp add: task_gc_def)
qed

lemma life_steps_ok:
  "(life_step False parent signal)\<^sup>*\<^sup>* s s' \<Longrightarrow> life_ok (snd s) (fst s) \<Longrightarrow> life_ok (snd s') (fst s')"
  by (induction rule: rtranclp_induct) (metis life_step_ok prod.collapse)+

section \<open>Leaked tasks\<close>

text \<open>A killed task keeps the reference of \<open>running\<close>, which only its exit signal would drop.\<close>

definition leaked :: "oid \<Rightarrow> app_world \<Rightarrow> bool" where
  "leaked x w \<longleftrightarrow> (\<exists>t. aw_tasks w x = Some t \<and> at_state t = Running \<and> 0 < at_ref t) \<and>
     \<not> aw_registered w x \<and> count_list (aw_ud w) (Some x) = 0"

text \<open>Operations on one task leave the others alone.\<close>

definition frame :: "oid \<Rightarrow> app_world \<Rightarrow> app_world \<Rightarrow> bool" where
  "frame x w w' \<longleftrightarrow> aw_tasks w' x = aw_tasks w x \<and> aw_registered w' x = aw_registered w x \<and>
     count_list (aw_ud w') (Some x) = count_list (aw_ud w) (Some x)"

lemma frame_leaked: "frame x w w' \<Longrightarrow> leaked x w \<Longrightarrow> leaked x w'"
  by (simp add: frame_def leaked_def)

lemma frame_refl: "frame x w w"
  by (simp add: frame_def)

lemma frame_trans: "frame x w w1 \<Longrightarrow> frame x w1 w2 \<Longrightarrow> frame x w w2"
  by (simp add: frame_def)

lemma frame_ref_drop:
  assumes "ref_drop o1 w = Some w'" and "o1 \<noteq> x"
  shows "frame x w w'"
proof (cases "aw_tasks w o1")
  case None
  with assms show ?thesis by (simp add: ref_drop_def app_remove_ref_def)
next
  case (Some t)
  from assms show ?thesis
    unfolding ref_drop_eq [OF Some] by (auto simp: frame_def upd_task_def split: if_splits)
qed

lemma frame_terminate:
  assumes "terminate o1 w = Some w'" and "o1 \<noteq> x"
  shows "frame x w w'"
proof (cases "aw_tasks w o1")
  case None
  with assms show ?thesis by (simp add: terminate_def)
next
  case (Some t)
  from assms show ?thesis unfolding terminate_eq [OF Some] by (auto simp: frame_def)
qed

lemma frame_zap:
  assumes "ud_zap i w = Some w'" and "aw_ud w ! i \<noteq> Some x"
  shows "frame x w w'"
proof (cases "aw_ud w ! i")
  case None
  with assms show ?thesis by (simp add: ud_zap_def frame_refl)
next
  case (Some o1)
  let ?w = "w\<lparr>aw_ud := (aw_ud w)[i := None]\<rparr>"
  have "count_list ((aw_ud w)[i := None]) (Some x) = count_list (aw_ud w) (Some x)"
    by (rule count_list_update_other [of _ "Some o1"]) (use Some assms(2) in auto)
  then have "frame x w ?w" by (simp add: frame_def)
  moreover have "frame x ?w w'"
    using assms Some by (intro frame_ref_drop [of o1]) (auto simp: ud_zap_def)
  ultimately show ?thesis by (rule frame_trans)
qed

lemma not_held: "leaked x w \<Longrightarrow> i < length (aw_ud w) \<Longrightarrow> aw_ud w ! i \<noteq> Some x"
  using count_list_nth [of i "aw_ud w" "Some x"] by (auto simp: leaked_def)

lemma life_step_leaked:
  assumes "life_step early parent signal (w, new) (w', new')" and l: "leaked x w" "x \<notin> set new"
  shows "leaked x w' \<and> x \<notin> set new'"
  using assms(1)
proof (cases rule: life_stepE [consumes 1, case_names 1 7 8 2 3 4 5 6])
  case (1 o1 slots cap create)
  then have "o1 \<noteq> x" using l by (auto simp: leaked_def)
  with 1 have "frame x w w'"
    by (auto simp: exec_new_def App_task_new_def app_add_ref_def upd_task_def frame_def split: if_splits)
  with l \<open>o1 \<noteq> x\<close> 1(1) show ?thesis by (auto intro: frame_leaked)
next
  case (7 o1 i)
  then have "o1 \<noteq> x" using l by auto
  with 7 have "frame x w w'"
    by (auto simp: exec_running_def app_running_def app_add_ref_def upd_task_def ref_drop_def
        app_remove_ref_def app_delete_def unregister_obj_def frame_def split: bind_splits if_splits)
  with l 7(1) show ?thesis by (auto intro: frame_leaked)
next
  case (8 o1)
  then have "frame x w w'" using l by (auto intro: frame_ref_drop)
  with l 8(1) show ?thesis by (auto intro: frame_leaked)
next
  case (2 o1 v r)
  then have "o1 \<noteq> x" using l by (auto simp: leaked_def)
  with 2 have "frame x w w'"
    by (auto simp: app_dispatch_def terminate_def upd_task_def unregister_obj_def app_remove_ref_def
        app_delete_def frame_def split: bind_splits if_splits)
  with l 2(1) show ?thesis by (auto intro: frame_leaked)
next
  case (3 i thread r)
  with not_held [OF l(1) 3(2)] have "frame x w w'"
    by (auto simp: task_wait_call_def observer_dispatch_def upd_task_def frame_def
        split: option.splits bind_splits if_splits)
  with l 3(1) show ?thesis by (auto intro: frame_leaked)
next
  case (4 i r)
  with not_held [OF l(1) 4(2)] have "frame x w w'"
    by (auto simp: task_wait_return_def frame_refl split: option.splits bind_splits intro: frame_zap)
  with l 4(1) show ?thesis by (auto intro: frame_leaked)
next
  case (5 i r)
  note nh = not_held [OF l(1) 5(2)]
  have "frame x w w'"
  proof (cases "aw_ud w ! i")
    case None
    with 5 show ?thesis by (simp add: task_kill_def frame_refl)
  next
    case (Some o1)
    have keep: "aw_ud w1 = aw_ud w" if "terminate o1 w = Some w1" for w1
      using that by (auto simp: terminate_def upd_task_def unregister_obj_def split: bind_splits)
    from Some 5(3) obtain t where t: "aw_tasks w o1 = Some t"
      by (auto simp: task_kill_def split: bind_splits)
    show ?thesis
    proof (cases "at_state t = Zombie")
      case True
      with Some t 5(3) have "ud_zap i w = Some w'" by (auto simp: task_kill_def split: bind_splits)
      then show ?thesis using nh by (rule frame_zap)
    next
      case False
      with Some t 5(3) obtain w1 where w1: "terminate o1 w = Some w1" "ud_zap i w1 = Some w'"
        by (auto simp: task_kill_def split: bind_splits)
      have "frame x w w1" using Some nh by (intro frame_terminate [OF w1(1)]) auto
      moreover have "frame x w1 w'" using nh keep [OF w1(1)] by (intro frame_zap [OF w1(2)]) simp
      ultimately show ?thesis by (rule frame_trans)
    qed
  qed
  with l 5(1) show ?thesis by (auto intro: frame_leaked)
next
  case (6 i)
  with not_held [OF l(1) 6(2)] have "frame x w w'" by (auto simp: task_gc_def intro: frame_zap)
  with l 6(1) show ?thesis by (auto intro: frame_leaked)
qed

lemma life_steps_leaked:
  "(life_step early parent signal)\<^sup>*\<^sup>* s s' \<Longrightarrow> leaked x (fst s) \<and> x \<notin> set (snd s) \<Longrightarrow>
    leaked x (fst s') \<and> x \<notin> set (snd s')"
  by (induction rule: rtranclp_induct) (metis life_step_leaked prod.collapse)+

end
