(* ===== verification/Ned_Properties.thy ===== *)
theory Ned_Properties
  imports App_Task
begin

text \<open>The properties of Ned: the list of server objects and the life of tasks.\<close>

section \<open>The list of server objects\<close>

text \<open>C23: on every heap on which the lists hold the sequences \<open>f\<close>, the pointer operations are the list
  operations: \<open>add\<close> puts a free object in front and leaves an object that is on a list where it is; \<open>remove\<close>
  takes a member out and unlinks it, and does nothing for another object; \<open>remove(0)\<close> takes the first; all
  other lists are unchanged; the destructor ends, unlinks all members and does not throw.\<close>

theorem list_refinement:
  assumes "lists_at h f"
  shows "lists_at (list_add l x h) (if nh_l h x \<noteq> None then f else f(l := x # f l)) \<and>
    (list_remove l (Some x) h = (r, h') \<longrightarrow>
      r = (if x \<in> set (f l) then Some x else None) \<and> lists_at h' (f(l := remove1 x (f l)))) \<and>
    list_remove l None h = (case f l of [] \<Rightarrow> (None, h) | y # _ \<Rightarrow> list_remove l (Some y) h) \<and>
    list_destroy l h = Some (Inr (cleared (set (f l)) h))"
proof (intro conjI impI)
  show "lists_at (list_add l x h) (if nh_l h x \<noteq> None then f else f(l := x # f l))"
    by (rule lists_at_add [OF assms])
  show "list_remove l None h = (case f l of [] \<Rightarrow> (None, h) | y # _ \<Rightarrow> list_remove l (Some y) h)"
    using dll_first [OF lists_atD(2) [OF assms, of l]]
    by (auto simp: list_remove_None split: list.splits)
  show "list_destroy l h = Some (Inr (cleared (set (f l)) h))"
    by (rule list_destroy_lists [OF assms])
qed (use lists_at_remove [OF assms] in blast)+

definition empty_heap :: ned_heap where
  "empty_heap = \<lparr>nh_p = \<lambda>_. None, nh_n = \<lambda>_. None, nh_l = \<lambda>_. None, nh_f = \<lambda>_. None\<rparr>"

lemma list_refinement_witness:
  "\<exists>h'. lists_at (list_add 0 7 empty_heap) ((\<lambda>_. [])(0 := [7])) \<and>
    list_remove 0 (Some 7) (list_add 0 7 empty_heap) = (Some 7, h') \<and> lists_at h' (\<lambda>_. [])"
proof -
  have e: "lists_at empty_heap (\<lambda>_. [])" using lists_at_empty by (simp add: empty_heap_def)
  from list_refinement [OF e, of 0 7] have a: "lists_at (list_add 0 7 empty_heap) ((\<lambda>_. [])(0 := [7]))"
    by (simp add: empty_heap_def)
  obtain r h' where r: "list_remove 0 (Some 7) (list_add 0 7 empty_heap) = (r, h')" by fastforce
  have f: "(\<lambda>_. [])(0 := []) = (\<lambda>_ :: nat. [] :: nat list)" by auto
  from list_refinement [OF a, of 0 7 r h'] a r show ?thesis by (simp add: f)
qed

text \<open>\<open>add\<close> tests whether the object is on a list before it takes the lock; if two threads add the same
  object and both pass the test, the object becomes its own successor, and the destructor of the list
  throws.\<close>

theorem add_race:
  assumes "lists_at h f" and "nh_l h x = None"
  shows "nh_n (list_insert l x (list_insert l x h)) x = Some x \<and>
    list_destroy l (list_insert l x (list_insert l x h)) = Some (Inl ())"
  by (rule double_insert [OF assms])

lemma add_race_witness:
  "list_destroy 0 (list_insert 0 7 (list_insert 0 7 empty_heap)) = Some (Inl ())"
proof -
  have e: "lists_at empty_heap (\<lambda>_. [])" using lists_at_empty by (simp add: empty_heap_def)
  from add_race [OF e, of 7 0] show ?thesis by (simp add: empty_heap_def)
qed

section \<open>Tasks\<close>



text \<open>C26: waiting for a running task: the waiter blocks, the exit signal wakes exactly this waiter, and \<open>wait\<close>
  then returns the exit code of the signal; with no other holder the object is deleted and its userdata is
  empty.\<close>

theorem wait_gets_exit_code:
  assumes ok: "world_ok w" and i: "i < length (aw_ud w)" "aw_ud w ! i = Some x"
    and reg: "aw_registered w x" and one: "count_list (aw_ud w) (Some x) = 1" and th: "th \<noteq> 0"
  shows "\<exists>w1 w2 w3. task_wait_call th i w = Some (Some (- L4_ENOREPLY), w1) \<and>
    app_dispatch parent signal parent [W32 signal, W32 0, W32 v] x w1 = Some (- L4_ENOREPLY, w2) \<and>
    aw_woken w2 = th # aw_woken w \<and>
    task_wait_return i w2 = Some (L_int v, w3) \<and>
    aw_tasks w3 x = None \<and> aw_ud w3 ! i = None \<and> world_ok w3"
proof -
  from life_okD [OF ok, of x] reg one obtain t where t: "aw_tasks w x = Some t" "at_state t = Running"
    "at_ref t = 2"
    by (auto simp: task_ok_def split: option.splits) (metis app_state.exhaust)
  define w1 where "w1 = upd_task x (t\<lparr>at_observer := th\<rparr>) w"
  have w1: "task_wait_call th i w = Some (Some (- L4_ENOREPLY), w1)"
    using i(2) t by (simp add: task_wait_call_def observer_dispatch_def w1_def)
  have ok1: "world_ok w1" using task_wait_call_ok [OF ok i(1), of th] w1 by simp
  have t1: "aw_tasks w1 x = Some (t\<lparr>at_observer := th\<rparr>)" "at_ref (t\<lparr>at_observer := th\<rparr>) \<noteq> 1"
    using t by (simp_all add: w1_def upd_task_def)
  obtain w2 where w2: "app_dispatch parent signal parent [W32 signal, W32 0, W32 v] x w1 =
      Some (- L4_ENOREPLY, w2)" "world_ok w2"
    using signal_ok [OF ok1, of x parent signal v] reg by (auto simp: w1_def upd_task_def)
  from signal_eq [OF t1, of parent signal v] w2(1) have
    s: "aw_tasks w2 x = Some (t\<lparr>at_state := Zombie, at_exit := Some v, at_caps := False, at_ref := 1, at_observer := 0\<rparr>)"
      "aw_woken w2 = th # aw_woken w" "aw_ud w2 = aw_ud w"
    using t th by (auto simp: w1_def upd_task_def)
  obtain w3 where w3: "ud_zap i w2 = Some w3" "world_ok w3" using ud_zap_ok [OF w2(2), of i] i s(3) by auto
  have tw: "aw_tasks (w2\<lparr>aw_ud := (aw_ud w2)[i := None]\<rparr>) x =
      Some (t\<lparr>at_state := Zombie, at_exit := Some v, at_caps := False, at_ref := 1, at_observer := 0\<rparr>)"
    using s(1) by simp
  have "aw_tasks w3 x = None" "aw_ud w3 ! i = None"
    using w3(1) i s(3) ref_drop_eq [OF tw] by (auto simp: ud_zap_def)
  moreover have "task_wait_return i w2 = Some (L_int v, w3)"
    using i s(1,3) w3(1) by (simp add: task_wait_return_def exit_value_def)
  ultimately show ?thesis using w1 w2 s(2) w3 by blast
qed

lemma wait_gets_exit_code_witness:
  "\<exists>w w1 w2 w3. task_wait_call 4 0 w = Some (Some (- 1000), w1) \<and>
    app_dispatch 1 2 1 [W32 2, W32 0, W32 42] 5 w1 = Some (- 1000, w2) \<and>
    task_wait_return 0 w2 = Some (L_int 42, w3) \<and> aw_tasks w3 5 = None"
proof -
  have "aw_tasks world_new 5 = None" "chkcap_all (6, 7, 8)" "\<not> (0 :: int) < 0"
    by (simp_all add: world_new_def chkcap_all_def)
  from exec_ok [OF world_ok_new this, of 9] obtain w where
    w: "world_ok w" "aw_ud w = aw_ud world_new @ [Some 5]" "aw_registered w 5" by auto
  then have i: "0 < length (aw_ud w)" "aw_ud w ! 0 = Some 5" "count_list (aw_ud w) (Some 5) = 1" "(4 :: u32) \<noteq> 0"
    by (simp_all add: world_new_def)
  from wait_gets_exit_code [OF w(1) i(1,2) w(3) i(3,4), of 1 2 42] show ?thesis by blast
qed

text \<open>C27: killing a running task with one holder leaves the object behind for ever: it still counts the
  reference of the task, nobody holds it, no signal can reach it, and no later step deletes it.\<close>

theorem kill_leaks:
  assumes ok: "life_ok new w" and i: "i < length (aw_ud w)" "aw_ud w ! i = Some x"
    and run: "aw_tasks w x = Some t" "at_state t = Running" and one: "count_list (aw_ud w) (Some x) = 1"
    and kill: "task_kill i w = Some (r, w')"
    and later: "(life_step True parent signal)\<^sup>*\<^sup>* (w', new) (w'', new'')"
  shows "r = L_str ''killed'' \<and>
    (\<exists>t''. aw_tasks w'' x = Some t'' \<and> at_state t'' = Running \<and> 0 < at_ref t'') \<and>
    count_list (aw_ud w'') (Some x) = 0 \<and> \<not> aw_registered w'' x"
proof -
  have ref: "at_ref t = 2" "x \<notin> set new" using life_okD [OF ok, of x] run one by (auto simp: task_ok_def)
  have cnt: "count_list ((aw_ud w)[i := None]) (Some x) = 0"
    using count_list_update [OF i, of None] one by simp
  from i run kill ref have "r = L_str ''killed''" "leaked x w'"
    by (auto simp: task_kill_def terminate_eq [OF run(1)] ud_zap_def ref_drop_def app_remove_ref_def
        upd_task_def leaked_def cnt split: bind_splits)
  with life_steps_leaked [OF later, of x] ref(2) show ?thesis by (auto simp: leaked_def)
qed

lemma kill_leaks_witness:
  "\<exists>w r w'. world_ok w \<and> task_kill 0 w = Some (r, w') \<and>
    (\<exists>t. aw_tasks w' 5 = Some t) \<and> count_list (aw_ud w') (Some 5) = 0"
proof -
  have "aw_tasks world_new 5 = None" "chkcap_all (6, 7, 8)" "\<not> (0 :: int) < 0"
    by (simp_all add: world_new_def chkcap_all_def)
  from exec_ok [OF world_ok_new this, of 9] obtain w where
    w: "world_ok w" "aw_ud w = aw_ud world_new @ [Some 5]"
    "aw_tasks w 5 = Some \<lparr>at_ref = 2, at_caps = True, at_state = Running, at_exit = None, at_observer = 0, at_cap = 9\<rparr>"
    by blast
  then have i: "0 < length (aw_ud w)" "aw_ud w ! 0 = Some 5" "count_list (aw_ud w) (Some 5) = 1"
    by (simp_all add: world_new_def)
  obtain r w' where k: "task_kill 0 w = Some (r, w')" using task_kill_ok [OF w(1) i(1)] by blast
  from kill_leaks [OF w(1) i(1,2) w(3) _ i(3) k rtranclp.rtrancl_refl] w(1) k show ?thesis by auto
qed

end
