(* ===== verification/Kr_Memory.thy ===== *)
theory Kr_Memory
  imports Prelude
begin

text \<open>
  The page allocator of the L4Re kernel (dom0-l4re_kernel, page_alloc.cc) and the memory functions of
  its C library (mem.cc).

  The allocator hands out the 64 pages of a fixed heap. Which of them are taken is kept by the bitmap
  allocator \<open>Item_alloc\<close> of L4Re, which is not part of the repository: \<open>ialloc\<close> and \<open>ifree\<close> are
  parameters, with the contract of the locale \<open>item_alloc\<close>; the bitmap in a word at the end satisfies it.
  The locale \<open>page_provider\<close> is the contract of the page allocator that \<open>mmap\<close> relies on; the one gives
  the other.
\<close>

section \<open>The heap\<close>

definition Heap_pages :: nat where "Heap_pages = 64"

definition Heap_max :: u32 where "Heap_max = of_nat (L4_PAGESIZE * Heap_pages)"

definition Heap_base :: u32 where "Heap_base = 0xb0100000"

definition page_alloc :: "('b \<Rightarrow> int \<times> 'b) \<Rightarrow> 'b \<Rightarrow> u32 \<times> 'b" where
  "page_alloc ialloc b =
     (let (p, b) = ialloc b
      in if p < 0 then (0, b) else (Heap_base + word_of_int p * of_nat L4_PAGESIZE, b))"

definition page_free :: "(nat \<Rightarrow> 'b \<Rightarrow> 'b) \<Rightarrow> u32 \<Rightarrow> 'b \<Rightarrow> 'b" where
  "page_free ifree p b = ifree (unat ((p - Heap_base) div of_nat L4_PAGESIZE)) b"

definition page_addr :: "nat \<Rightarrow> u32" where
  "page_addr i = Heap_base + of_nat i * of_nat L4_PAGESIZE"

section \<open>mmap, munmap, mremap\<close>

definition MAP_FAILED :: u32 where "MAP_FAILED = - 1"

definition MAP_ANON :: u32 where "MAP_ANON = 0x20"

text \<open>\<open>palloc\<close> is the page allocator. The result is the address, \<open>errno\<close> if it is set, the allocator.\<close>

definition mmap ::
  "('b \<Rightarrow> u32 \<times> 'b) \<Rightarrow> u32 \<Rightarrow> u32 \<Rightarrow> int \<Rightarrow> 'b \<Rightarrow> u32 \<times> int option \<times> 'b" where
  "mmap palloc len flags offset b =
     (if offset < 0 then (MAP_FAILED, Some (- EINVAL), b)
      else if flags AND MAP_ANON = 0 then (MAP_FAILED, Some (- EINVAL), b)
      else
        let len = (len + (of_nat L4_PAGESIZE - 1)) AND NOT (of_nat L4_PAGESIZE - 1)
        in if len \<noteq> of_nat L4_PAGESIZE then (MAP_FAILED, Some ENOMEM, b)
           else
             let (addr, b) = palloc b
             in if addr = 0 then (MAP_FAILED, Some ENOMEM, b) else (addr, None, b))"

definition munmap :: "u32 \<Rightarrow> u32 \<Rightarrow> 'b \<Rightarrow> int \<times> int option \<times> 'b" where
  "munmap start len b = (- 1, Some EINVAL, b)"

definition mremap :: "u32 \<Rightarrow> u32 \<Rightarrow> u32 \<Rightarrow> int \<Rightarrow> 'b \<Rightarrow> u32 \<times> int option \<times> 'b" where
  "mremap old_address old_size new_size may_move b = (MAP_FAILED, Some EINVAL, b)"

text \<open>The results of \<open>n\<close> requests for one page.\<close>

fun mmap_seq :: "('b \<Rightarrow> u32 \<times> 'b) \<Rightarrow> nat \<Rightarrow> 'b \<Rightarrow> u32 list \<times> 'b" where
  "mmap_seq palloc 0 b = ([], b)"
| "mmap_seq palloc (Suc n) b =
     (let (r, _, b) = mmap palloc (of_nat L4_PAGESIZE) MAP_ANON 0 b;
          (rs, b) = mmap_seq palloc n b
      in (r # rs, b))"

section \<open>Address arithmetic\<close>

lemma page_addr_unat: "i < Heap_pages \<Longrightarrow> unat (page_addr i) = 2953838592 + i * 4096"
proof -
  assume "i < Heap_pages"
  then have i: "i < 64" by (simp add: Heap_pages_def)
  have "page_addr i = of_nat (2953838592 + i * 4096)"
    by (simp add: page_addr_def Heap_base_def)
  moreover have "unat (of_nat (2953838592 + i * 4096) :: u32) = 2953838592 + i * 4096"
    by (rule unat_of_nat_u32) (use i in simp)
  ultimately show ?thesis by simp
qed

lemma page_addr_inj: "inj_on page_addr {..<Heap_pages}"
proof (rule inj_onI)
  fix i j assume i: "i \<in> {..<Heap_pages}" and j: "j \<in> {..<Heap_pages}" and eq: "page_addr i = page_addr j"
  have "2953838592 + i * 4096 = 2953838592 + j * (4096 :: nat)"
    using i j eq page_addr_unat by (metis lessThan_iff)
  then show "i = j" by simp
qed

lemma page_addr_bounds:
  assumes "i < Heap_pages"
  shows "page_addr i \<noteq> 0" and "page_addr i \<noteq> MAP_FAILED" and "unat (page_addr i) mod 4096 = 0"
    and "2953838592 \<le> unat (page_addr i)" and "unat (page_addr i) + 4096 \<le> 2953838592 + 262144"
proof -
  from assms have i: "i < 64" by (simp add: Heap_pages_def)
  note u = page_addr_unat [OF assms]
  show "page_addr i \<noteq> 0"
  proof
    assume "page_addr i = 0"
    with u show False by simp
  qed
  show "page_addr i \<noteq> MAP_FAILED"
  proof
    assume "page_addr i = MAP_FAILED"
    moreover note unat_minus_1_u32
    ultimately show False using u i by (simp add: MAP_FAILED_def)
  qed
  show "unat (page_addr i) mod 4096 = 0"
    unfolding u by (simp add: mod_add_left_eq [symmetric])
  show "2953838592 \<le> unat (page_addr i)" "unat (page_addr i) + 4096 \<le> 2953838592 + 262144"
    using u i by simp_all
qed

lemma page_index:
  assumes "i < Heap_pages"
  shows "unat ((page_addr i - Heap_base) div of_nat L4_PAGESIZE) = i"
proof -
  have "unat (of_nat (i * 4096) :: u32) = i * 4096"
    by (rule unat_of_nat_u32) (use assms in \<open>simp add: Heap_pages_def\<close>)
  then show ?thesis by (simp add: page_addr_def unat_div)
qed

text \<open>Rounding a length up to whole pages yields one page exactly for lengths of 1 to 4096.\<close>

lemma round_one_page:
  "(len + (of_nat L4_PAGESIZE - 1)) AND NOT (of_nat L4_PAGESIZE - 1) = (of_nat L4_PAGESIZE :: u32) \<longleftrightarrow>
     0 < unat (len :: u32) \<and> unat len \<le> 4096"
proof -
  note l = unat_u32_less [of len]
  have s: "unat (len + 4095) = (unat len + 4095) mod 4294967296" by (simp add: unat_word_ariths)
  have "(len + 4095) AND NOT 4095 = (4096 :: u32) \<longleftrightarrow> unat ((len + 4095) AND NOT 4095) = 4096"
    by (simp add: word_unat_eq_iff)
  also have "\<dots> \<longleftrightarrow> 0 < unat len \<and> unat len \<le> 4096"
    unfolding unat_and_not_4095 s using l by (cases "unat len + 4095 < 4294967296") (auto simp: mod_if)
  finally show ?thesis by simp
qed

section \<open>The contract mmap relies on\<close>

text \<open>
  \<open>live b\<close> are the addresses that are handed out, \<open>pages\<close> all there are. An allocation hands out a new
  page while there is one; the null pointer says there is none.
\<close>

locale page_provider =
  fixes palloc :: "'b \<Rightarrow> u32 \<times> 'b" and pfree :: "u32 \<Rightarrow> 'b \<Rightarrow> 'b"
    and live :: "'b \<Rightarrow> u32 set" and pages :: "u32 set"
  assumes finite_pages: "finite pages"
    and no_null: "0 \<notin> pages" "MAP_FAILED \<notin> pages"
    and live_pages: "live b \<subseteq> pages"
    and palloc_new: "live b \<noteq> pages \<Longrightarrow>
      fst (palloc b) \<in> pages - live b \<and> live (snd (palloc b)) = insert (fst (palloc b)) (live b)"
    and palloc_full: "live b = pages \<Longrightarrow> fst (palloc b) = 0 \<and> live (snd (palloc b)) = live b"
    and pfree_live: "p \<in> pages \<Longrightarrow> live (pfree p b) = live b - {p}"
begin

lemma mmap_ok:
  assumes "flags AND MAP_ANON \<noteq> 0" and "0 \<le> offset" and "0 < unat len" and "unat len \<le> 4096"
  shows "(live b \<noteq> pages \<longrightarrow> (\<exists>p b'. mmap palloc len flags offset b = (p, None, b') \<and>
      p \<in> pages - live b \<and> live b' = insert p (live b))) \<and>
    (live b = pages \<longrightarrow> (\<exists>b'. mmap palloc len flags offset b = (MAP_FAILED, Some ENOMEM, b') \<and> live b' = live b))"
proof -
  have eq: "mmap palloc len flags offset b =
      (if fst (palloc b) = 0 then (MAP_FAILED, Some ENOMEM, snd (palloc b))
       else (fst (palloc b), None, snd (palloc b)))"
    using assms round_one_page [of len] by (simp add: mmap_def split_beta Let_def)
  show ?thesis
    unfolding eq using palloc_new [of b] palloc_full [of b] no_null(1) by (cases "live b = pages") auto
qed

lemma mmap_refused:
  assumes "flags AND MAP_ANON = 0 \<or> offset < 0 \<or> unat len = 0 \<or> 4096 < unat len"
  shows "\<exists>e. mmap palloc len flags offset b = (MAP_FAILED, Some e, b)"
  using assms round_one_page [of len] by (auto simp: mmap_def)

lemma mmap_seq_live:
  assumes "mmap_seq palloc n b = (rs, b')"
  shows "distinct (filter (\<lambda>r. r \<noteq> MAP_FAILED) rs) \<and>
    set (filter (\<lambda>r. r \<noteq> MAP_FAILED) rs) = live b' - live b \<and> live b \<subseteq> live b' \<and>
    length (filter (\<lambda>r. r \<noteq> MAP_FAILED) rs) = min n (card (pages - live b))"
  using assms
proof (induction n arbitrary: b rs)
  case 0
  then show ?case by simp
next
  case (Suc n)
  obtain r e b1 where m: "mmap palloc (of_nat L4_PAGESIZE) MAP_ANON 0 b = (r, e, b1)"
    by (metis prod_cases3)
  obtain rs1 where rs1: "mmap_seq palloc n b1 = (rs1, b')" "rs = r # rs1"
    using Suc.prems m by (cases "mmap_seq palloc n b1") auto
  note IH = Suc.IH [OF rs1(1)]
  have ok: "MAP_ANON AND MAP_ANON \<noteq> (0 :: u32)" "(0 :: int) \<le> 0"
    "0 < unat (of_nat L4_PAGESIZE :: u32)" "unat (of_nat L4_PAGESIZE :: u32) \<le> 4096"
    by (simp_all add: MAP_ANON_def)
  show ?case
  proof (cases "live b = pages")
    case True
    with mmap_ok [OF ok, of b] m have "r = MAP_FAILED" "live b1 = live b" by auto
    with IH rs1(2) True show ?thesis using live_pages [of b'] by simp
  next
    case False
    with mmap_ok [OF ok, of b] m have r: "r \<in> pages - live b" "live b1 = insert r (live b)" by auto
    with no_null(2) have "r \<noteq> MAP_FAILED" by auto
    have "pages - live b = insert r (pages - live b1)" "r \<notin> pages - live b1" using r by auto
    then have card: "card (pages - live b) = Suc (card (pages - live b1))"
      using finite_pages by (metis card_insert_disjoint finite_Diff)
    have fl: "filter (\<lambda>r. r \<noteq> MAP_FAILED) rs = r # filter (\<lambda>r. r \<noteq> MAP_FAILED) rs1"
      using rs1(2) \<open>r \<noteq> MAP_FAILED\<close> by simp
    from IH r have s: "r \<in> live b'" "r \<notin> live b" "live b \<subseteq> live b'"
      "set (filter (\<lambda>r. r \<noteq> MAP_FAILED) rs1) = live b' - insert r (live b)" by (simp_all del: set_filter)
    have "distinct (r # filter (\<lambda>r. r \<noteq> MAP_FAILED) rs1)"
      unfolding distinct.simps s(4) using IH by simp
    moreover have "set (r # filter (\<lambda>r. r \<noteq> MAP_FAILED) rs1) = live b' - live b"
      unfolding list.set s(4) using s(1,2) by blast
    moreover have "length (r # filter (\<lambda>r. r \<noteq> MAP_FAILED) rs1) = min (Suc n) (card (pages - live b))"
      unfolding card using IH by simp
    ultimately show ?thesis unfolding fl using s(3) by blast
  qed
qed

lemma mmap_after_free:
  assumes "p \<in> live b" and "flags AND MAP_ANON \<noteq> 0" and "0 \<le> offset" and "0 < unat len" and "unat len \<le> 4096"
  shows "\<exists>q b'. mmap palloc len flags offset (pfree p b) = (q, None, b') \<and>
    q \<notin> live b - {p} \<and> live b' = insert q (live b - {p})"
proof -
  have p: "p \<in> pages" using assms(1) live_pages by blast
  then have "live (pfree p b) \<noteq> pages" using pfree_live [OF p, of b] by auto
  with mmap_ok [OF assms(2-), of "pfree p b"] show ?thesis using pfree_live [OF p, of b] by auto
qed

end

section \<open>The bitmap allocator\<close>

locale item_alloc =
  fixes ialloc :: "'b \<Rightarrow> int \<times> 'b" and ifree :: "nat \<Rightarrow> 'b \<Rightarrow> 'b" and taken :: "'b \<Rightarrow> nat set"
  assumes taken_bound: "taken b \<subseteq> {..<Heap_pages}"
    and ialloc_new: "taken b \<noteq> {..<Heap_pages} \<Longrightarrow>
      \<exists>i<Heap_pages. i \<notin> taken b \<and> fst (ialloc b) = int i \<and> taken (snd (ialloc b)) = insert i (taken b)"
    and ialloc_full: "taken b = {..<Heap_pages} \<Longrightarrow> fst (ialloc b) < 0 \<and> taken (snd (ialloc b)) = taken b"
    and ifree_taken: "i < Heap_pages \<Longrightarrow> taken (ifree i b) = taken b - {i}"

text \<open>The page allocator over any such bitmap keeps the contract.\<close>

sublocale item_alloc \<subseteq> pages: page_provider "page_alloc ialloc" "page_free ifree"
  "\<lambda>b. page_addr ` taken b" "page_addr ` {..<Heap_pages}"
proof
  fix b p
  show "finite (page_addr ` {..<Heap_pages})" by simp
  show "0 \<notin> page_addr ` {..<Heap_pages}" "MAP_FAILED \<notin> page_addr ` {..<Heap_pages}"
    using page_addr_bounds(1,2) by (metis imageE lessThan_iff)+
  show "page_addr ` taken b \<subseteq> page_addr ` {..<Heap_pages}" using taken_bound by blast
  have inj: "page_addr i \<in> page_addr ` taken b \<longleftrightarrow> i \<in> taken b" if "i < Heap_pages" for i
    using that taken_bound by (intro inj_on_image_mem_iff [OF page_addr_inj]) auto
  show "fst (page_alloc ialloc b) \<in> page_addr ` {..<Heap_pages} - page_addr ` taken b \<and>
      page_addr ` taken (snd (page_alloc ialloc b)) = insert (fst (page_alloc ialloc b)) (page_addr ` taken b)"
    if ne: "page_addr ` taken b \<noteq> page_addr ` {..<Heap_pages}"
  proof -
    from ne have "taken b \<noteq> {..<Heap_pages}" by auto
    from ialloc_new [OF this] obtain i where i: "i < Heap_pages" "i \<notin> taken b" "fst (ialloc b) = int i"
      "taken (snd (ialloc b)) = insert i (taken b)" by blast
    then have "page_alloc ialloc b = (page_addr i, snd (ialloc b))"
      by (simp add: page_alloc_def page_addr_def split_beta)
    with i inj [OF i(1)] show ?thesis by auto
  qed
  show "fst (page_alloc ialloc b) = 0 \<and> page_addr ` taken (snd (page_alloc ialloc b)) = page_addr ` taken b"
    if "page_addr ` taken b = page_addr ` {..<Heap_pages}"
  proof -
    from that have "taken b = {..<Heap_pages}"
      using inj_on_image_eq_iff [OF page_addr_inj taken_bound order_refl] by simp
    from ialloc_full [OF this] show ?thesis by (simp add: page_alloc_def split_beta)
  qed
  show "page_addr ` taken (page_free ifree p b) = page_addr ` taken b - {p}" if "p \<in> page_addr ` {..<Heap_pages}"
  proof -
    from that obtain i where i: "i < Heap_pages" "p = page_addr i" by blast
    have "page_free ifree p b = ifree i b" unfolding page_free_def i(2) page_index [OF i(1)] ..
    moreover have "page_addr ` (taken b - {i}) = page_addr ` taken b - {page_addr i}"
      using inj_on_image_set_diff [OF page_addr_inj, of "taken b" "{i}"] taken_bound i(1) by auto
    ultimately show ?thesis using ifree_taken [OF i(1)] i(2) by simp
  qed
qed

context item_alloc begin

lemmas heap_seq = pages.mmap_seq_live
lemmas heap_reuse = pages.mmap_after_free
lemmas heap_refused = pages.mmap_refused

end

text \<open>A bitmap of 64 bits in one word.\<close>

definition bm_alloc :: "u64 \<Rightarrow> int \<times> u64" where
  "bm_alloc b = (case find (\<lambda>i. \<not> bit b i) [0..<Heap_pages] of
     None \<Rightarrow> (- 1, b) | Some i \<Rightarrow> (int i, set_bit i b))"

definition bm_free :: "nat \<Rightarrow> u64 \<Rightarrow> u64" where
  "bm_free i b = unset_bit i b"

definition bm_taken :: "u64 \<Rightarrow> nat set" where
  "bm_taken b = {i. bit b i}"

interpretation bitmap: item_alloc bm_alloc bm_free bm_taken
proof
  fix b :: u64 and i :: nat
  show bound: "bm_taken b \<subseteq> {..<Heap_pages}"
    using bit_imp_le_length [of b] by (auto simp: bm_taken_def Heap_pages_def)
  show "\<exists>i<Heap_pages. i \<notin> bm_taken b \<and> fst (bm_alloc b) = int i \<and>
      bm_taken (snd (bm_alloc b)) = insert i (bm_taken b)" if ne: "bm_taken b \<noteq> {..<Heap_pages}"
  proof (cases "find (\<lambda>i. \<not> bit b i) [0..<Heap_pages]")
    case None
    then have "{..<Heap_pages} \<subseteq> bm_taken b" by (auto simp: find_None_iff bm_taken_def)
    with bound ne show ?thesis by blast
  next
    case (Some i)
    then have "i < Heap_pages" "\<not> bit b i" by (auto simp: find_Some_iff)
    with Some show ?thesis
      by (intro exI [of _ i]) (auto simp: bm_alloc_def bm_taken_def bit_simps Heap_pages_def)
  qed
  show "fst (bm_alloc b) < 0 \<and> bm_taken (snd (bm_alloc b)) = bm_taken b" if full: "bm_taken b = {..<Heap_pages}"
  proof -
    from full have "find (\<lambda>i. \<not> bit b i) [0..<Heap_pages] = None"
      by (auto simp: find_None_iff bm_taken_def)
    then show ?thesis by (simp add: bm_alloc_def)
  qed
  show "bm_taken (bm_free i b) = bm_taken b - {i}"
    by (auto simp: bm_free_def bm_taken_def bit_simps)
qed

end
