(* ===== verification/Printf.thy ===== *)
theory Printf
  imports Prelude
begin

text \<open>
  The conversions of \<open>printf\<close> the programs use: numbers in decimal and hexadecimal digits, and
  padding to a width. Each can be read back.
\<close>

section \<open>Digits\<close>

text \<open>The digits of a number in a base of at least 2, the most significant one first.\<close>

function digits :: "nat \<Rightarrow> nat \<Rightarrow> nat list" where
  "digits b n = (if n < b \<or> b < 2 then [n] else digits b (n div b) @ [n mod b])"
  by pat_completeness auto
termination by (relation "measure snd") (auto intro: div_less_dividend)

declare digits.simps [simp del]

definition digit_char :: "nat \<Rightarrow> byte" where
  "digit_char d = char_of (if d < 10 then 48 + d else 87 + d)"

definition char_digit :: "byte \<Rightarrow> nat" where
  "char_digit c = (if of_char c < (58::nat) then of_char c - 48 else of_char c - 87)"

text \<open>\<open>%u\<close>, \<open>%i\<close>, \<open>%x\<close>; a width pads with spaces on the left.\<close>

definition print_u :: "nat \<Rightarrow> byte list" where
  "print_u n = map digit_char (digits 10 n)"

definition print_i :: "int \<Rightarrow> byte list" where
  "print_i i = (if i < 0 then ''-'' @ print_u (nat (- i)) else print_u (nat i))"

definition print_x :: "nat \<Rightarrow> byte list" where
  "print_x n = map digit_char (digits 16 n)"

definition pad_left :: "nat \<Rightarrow> byte list \<Rightarrow> byte list" where
  "pad_left n s = replicate (n - length s) (CHR '' '') @ s"

text \<open>Evaluation on numerals.\<close>

lemma digits_one: "n < b \<Longrightarrow> digits b n = [n]"
  by (subst digits.simps) simp

lemma digits_more: "2 \<le> b \<Longrightarrow> b \<le> n \<Longrightarrow> digits b n = digits b (n div b) @ [n mod b]"
  by (subst digits.simps) simp

lemmas print_eval = print_u_def print_i_def print_x_def pad_left_def digits_one digits_more digit_char_def
  char_of_def bit_0

section \<open>Reading back\<close>

definition read_digits :: "nat \<Rightarrow> byte list \<Rightarrow> nat" where
  "read_digits b s = foldl (\<lambda>n c. n * b + char_digit c) 0 s"

lemma char_digit_char [simp]: "d < 16 \<Longrightarrow> char_digit (digit_char d) = d"
  by (simp add: char_digit_def digit_char_def of_char_of)

lemma digits_less: "2 \<le> b \<Longrightarrow> \<forall>d \<in> set (digits b n). d < b"
proof (induction b n rule: digits.induct)
  case (1 b n)
  then show ?case by (subst digits.simps) auto
qed

lemma digits_not_Nil [simp]: "digits b n \<noteq> []"
  by (subst digits.simps) simp

lemma foldl_digits: "2 \<le> b \<Longrightarrow> foldl (\<lambda>n d. n * b + d) 0 (digits b n) = n"
proof (induction b n rule: digits.induct)
  case (1 b n)
  then show ?case by (subst digits.simps) auto
qed

lemma read_digits_map:
  "\<forall>d \<in> set ds. d < 16 \<Longrightarrow> read_digits b (map digit_char ds) = foldl (\<lambda>n d. n * b + d) 0 ds"
  unfolding read_digits_def by (induction ds rule: rev_induct) auto

lemma read_print_u [simp]: "read_digits 10 (print_u n) = n"
  using digits_less [of 10 n]
  by (auto simp: print_u_def foldl_digits intro!: read_digits_map [THEN trans])

lemma read_print_x [simp]: "read_digits 16 (print_x n) = n"
  using digits_less [of 16 n]
  by (auto simp: print_x_def foldl_digits intro!: read_digits_map [THEN trans])

lemma print_u_inj: "print_u m = print_u n \<longleftrightarrow> m = n"
  by (metis read_print_u)

lemma print_x_inj: "print_x m = print_x n \<longleftrightarrow> m = n"
  by (metis read_print_x)

text \<open>A number never holds a space, a minus sign or a newline, so what follows it can be told apart.\<close>

lemma digit_char_code: "d < 16 \<Longrightarrow> (48::nat) \<le> of_char (digit_char d) \<and> of_char (digit_char d) < (103::nat)"
  by (auto simp: digit_char_def of_char_of)

lemma set_print_u:
  assumes "c \<in> set (print_u n)"
  shows "(48::nat) \<le> of_char c \<and> of_char c < (103::nat)"
proof -
  from assms obtain d where "d \<in> set (digits 10 n)" "c = digit_char d" by (auto simp: print_u_def)
  with digits_less [of 10 n] digit_char_code [of d] show ?thesis by force
qed

lemma print_i_inj: "print_i i = print_i j \<longleftrightarrow> i = j"
proof -
  have m: "CHR ''-'' \<notin> set (print_u n)" for n
    using set_print_u [of "CHR ''-''" n] by (auto simp: of_char_def)
  have "print_u n \<noteq> CHR ''-'' # s" for n s
    using m [of n] by auto
  then show ?thesis
    by (auto simp: print_i_def print_u_inj dest: sym)
qed

end
