(* ===== verification/Kr_Regions.thy ===== *)
theory Kr_Regions
  imports Kr_Memory Printf
begin

text \<open>
  The region map of the L4Re kernel (dom0-l4re_kernel: region.cc, dispatcher.cc, \<open>insert_regions\<close> of
  main.cc and \<open>init_local_rm\<close> of page_alloc.cc).

  The L4Re kernel manages the address space of its program. At start it copies the regions and areas
  that the region mapper of its creator knows into its own map; page faults in them are forwarded to that
  mapper, faults in other regions are resolved by their dataspace. The map itself is a library class of
  L4Re and a parameter (\<open>region_lib\<close>), as are the answers of the creator's mapper.
\<close>

section \<open>Regions\<close>

abbreviation (input) Rm_Pager :: u32 where "Rm_Pager \<equiv> 0x04"
abbreviation (input) Rm_Reserved :: u32 where "Rm_Reserved \<equiv> 0x08"
abbreviation (input) L4_INVALID_CAP :: u32 where "L4_INVALID_CAP \<equiv> 0xfffff800"
abbreviation (input) L4_INVALID_CAP_BIT :: u32 where "L4_INVALID_CAP_BIT \<equiv> 0x800"

record region =
  r_start :: u32
  r_end :: u32

record region_handler =
  h_memory :: u32
  h_client :: u32
  h_offset :: u32
  h_flags :: u32

text \<open>
  The operations of \<open>L4Re::Util::Region_map\<close> that the code calls. \<open>attach\<close> and \<open>attach_area\<close>
  answer the address of the new region; the invalid address, all bits set, reports an error.
  \<open>attach_search\<close> is \<open>attach\<close> with its fifth argument \<open>Search\<close>.
\<close>

record 'r region_lib =
  lr_attach :: "u32 \<Rightarrow> u32 \<Rightarrow> region_handler \<Rightarrow> u32 \<Rightarrow> 'r \<Rightarrow> u32 \<times> 'r"
  lr_attach_search :: "u32 \<Rightarrow> u32 \<Rightarrow> region_handler \<Rightarrow> u32 \<Rightarrow> 'r \<Rightarrow> u32 \<times> 'r"
  lr_attach_area :: "u32 \<Rightarrow> u32 \<Rightarrow> u32 \<Rightarrow> 'r \<Rightarrow> u32 \<times> 'r"
  lr_set_limits :: "u32 \<Rightarrow> u32 \<Rightarrow> 'r \<Rightarrow> 'r"

section \<open>Initialisation\<close>

datatype mem_type = Conventional | Reserved | Other_type

record mem_desc =
  md_virtual :: bool
  md_type :: mem_type
  md_start :: u32
  md_end :: u32

definition add_mem_desc :: "'r region_lib \<Rightarrow> mem_desc \<Rightarrow> 'r \<Rightarrow> 'r" where
  "add_mem_desc lib m rm =
     (if \<not> md_virtual m then rm
      else case md_type m of
        Conventional \<Rightarrow> lr_set_limits lib (md_start m) (md_end m) rm
      | Reserved \<Rightarrow> snd (lr_attach_area lib (md_start m) (md_end m - md_start m + 1) Rm_Reserved rm)
      | Other_type \<Rightarrow> rm)"

definition Region_map_init :: "'r region_lib \<Rightarrow> mem_desc list \<Rightarrow> 'r \<Rightarrow> 'r" where
  "Region_map_init lib mds rm =
     snd (lr_attach_area lib 0 (of_nat L4_PAGESIZE) 0 (fold (add_mem_desc lib) mds rm))"

definition init_local_rm :: "'r region_lib \<Rightarrow> u32 \<Rightarrow> 'r \<Rightarrow> 'r" where
  "init_local_rm lib heap rm =
     snd (lr_attach lib Heap_base Heap_max
       \<lparr>h_memory = heap, h_client = heap, h_offset = 0, h_flags = 0\<rparr> 0 rm)"

section \<open>Copying the regions of the creator\<close>

text \<open>
  \<open>get_regions addr\<close> and \<open>get_areas addr\<close> are the answers of the creator's mapper; an error or an
  answer without entries is the empty list. The outcome \<open>Inl ()\<close> is the \<open>exit(1)\<close> of the code.
\<close>

definition env_handler :: "u32 \<Rightarrow> region_handler" where
  "env_handler rm_cap =
     \<lparr>h_memory = rm_cap, h_client = L4_INVALID_CAP, h_offset = 0, h_flags = Rm_Pager\<rparr>"

fun insert_batch :: "(region \<Rightarrow> 'r \<Rightarrow> u32 \<times> 'r) \<Rightarrow> region list \<Rightarrow> u32 \<Rightarrow> 'r \<Rightarrow> unit + u32 \<times> 'r" where
  "insert_batch put [] addr rm = Inr (addr, rm)"
| "insert_batch put (r # rs) addr rm =
     (let (x, rm) = put r rm
      in if x = 0 then Inl () else insert_batch put rs (r_end r + 1) rm)"

partial_function (option) insert_loop ::
  "(region \<Rightarrow> 'r \<Rightarrow> u32 \<times> 'r) \<Rightarrow> (u32 \<Rightarrow> region list) \<Rightarrow> u32 \<Rightarrow> 'r \<Rightarrow> (unit + u32 \<times> 'r) option" where
  "insert_loop put get addr rm =
     (if get addr = [] then Some (Inr (addr, rm))
      else case insert_batch put (get addr) addr rm of
        Inl _ \<Rightarrow> Some (Inl ())
      | Inr (addr, rm) \<Rightarrow> insert_loop put get addr rm)"

definition put_region :: "'r region_lib \<Rightarrow> u32 \<Rightarrow> region \<Rightarrow> 'r \<Rightarrow> u32 \<times> 'r" where
  "put_region lib rm_cap r = lr_attach lib (r_start r) (r_end r - r_start r + 1) (env_handler rm_cap) 0"

definition put_area :: "'r region_lib \<Rightarrow> region \<Rightarrow> 'r \<Rightarrow> u32 \<times> 'r" where
  "put_area lib r = lr_attach_area lib (r_start r) (r_end r - r_start r + 1) 0"

definition insert_regions ::
  "'r region_lib \<Rightarrow> u32 \<Rightarrow> (u32 \<Rightarrow> region list) \<Rightarrow> (u32 \<Rightarrow> region list) \<Rightarrow> 'r \<Rightarrow> (unit + 'r) option" where
  "insert_regions lib rm_cap get_regions get_areas rm = do {
     res \<leftarrow> insert_loop (put_region lib rm_cap) get_regions 0 rm;
     case res of
       Inl _ \<Rightarrow> Some (Inl ())
     | Inr (addr, rm) \<Rightarrow> do {
         res \<leftarrow> insert_loop (put_area lib) get_areas addr rm;
         case res of Inl _ \<Rightarrow> Some (Inl ()) | Inr (_, rm) \<Rightarrow> Some (Inr rm)
       }
   }"

section \<open>Page faults\<close>

text \<open>The calls that resolve a fault: a message to a pager, or \<open>map\<close> of a dataspace.\<close>

datatype map_call =
    Pager_fault u32 u32 u32
  | Ds_map u32 u32 bool u32 u32 u32

definition cap_is_valid :: "u32 \<Rightarrow> bool" where
  "cap_is_valid c \<longleftrightarrow> c AND L4_INVALID_CAP_BIT = 0"

definition Region_ops_map ::
  "(map_call \<Rightarrow> 'd \<Rightarrow> int \<times> 'd) \<Rightarrow> region_handler \<Rightarrow> u32 \<Rightarrow> region \<Rightarrow> bool \<Rightarrow> 'd \<Rightarrow> int \<times> 'd" where
  "Region_ops_map D h local_adr r writable d =
     (if h_flags h AND Rm_Reserved \<noteq> 0 \<or> \<not> cap_is_valid (h_memory h) then (- L4_ENOENT, d)
      else if h_flags h AND Rm_Pager \<noteq> 0
      then (L4_EOK, snd (D (Pager_fault (h_memory h) (local_adr OR (if writable then 2 else 0)) (- 3)) d))
      else D (Ds_map (h_memory h) (local_adr - r_start r + h_offset h) writable local_adr (r_start r) (r_end r)) d)"

text \<open>\<open>clear\<close> is the operation of the dataspace.\<close>

definition Region_ops_free ::
  "(u32 \<Rightarrow> u32 \<Rightarrow> u32 \<Rightarrow> 'd \<Rightarrow> 'd) \<Rightarrow> region_handler \<Rightarrow> u32 \<Rightarrow> u32 \<Rightarrow> 'd \<Rightarrow> 'd" where
  "Region_ops_free clear h start len d =
     (if h_flags h AND Rm_Reserved \<noteq> 0 \<or> \<not> cap_is_valid (h_memory h) then d
      else if h_flags h AND Rm_Pager \<noteq> 0 then d
      else clear (h_memory h) (h_offset h + start) len d)"

definition Region_ops_unmap :: "region_handler \<Rightarrow> u32 \<Rightarrow> u32 \<Rightarrow> u32 \<Rightarrow> 'd \<Rightarrow> 'd" where
  "Region_ops_unmap h vaddr offs len d = d"

definition Region_ops_take :: "region_handler \<Rightarrow> 'd \<Rightarrow> 'd" where "Region_ops_take h d = d"

definition Region_ops_release :: "region_handler \<Rightarrow> 'd \<Rightarrow> 'd" where "Region_ops_release h d = d"

text \<open>\<open>Some b\<close>: the message has a capability the kernel resolved to the local index \<open>b\<close>.\<close>

definition validate_ds :: "u32 option \<Rightarrow> int \<times> u32 option" where
  "validate_ds local_id = (case local_id of Some b \<Rightarrow> (L4_EOK, Some b) | None \<Rightarrow> (- L4_ENOENT, None))"

definition find_res :: "u32 \<Rightarrow> u32" where "find_res ds = ds"

text \<open>\<open>debug_dump\<close>: the limits, the areas with their flags, and the regions, in the order of the map.\<close>

definition hex10 :: "u32 \<Rightarrow> byte list" where "hex10 a = pad_left 10 (print_x (unat a))"

definition dump_range :: "region \<Rightarrow> byte list" where
  "dump_range r = ''  ['' @ hex10 (r_start r) @ ''-'' @ hex10 (r_end r) @ ''] -> ''"

definition dump_area :: "region \<times> u32 \<Rightarrow> byte list" where
  "dump_area = (\<lambda>(r, flags). dump_range r @ ''flags='' @ print_x (unat flags) @ [CHR 0x0A])"

definition dump_region :: "region \<times> region_handler \<Rightarrow> byte list" where
  "dump_region = (\<lambda>(r, h). dump_range r @ ''(offs='' @ print_x (unat (h_offset h)) @ '', ds='' @
     print_x (unat (h_memory h)) @ '', flags='' @ print_x (unat (h_flags h)) @ '')'' @ [CHR 0x0A])"

definition debug_dump :: "u32 \<Rightarrow> u32 \<Rightarrow> (region \<times> u32) list \<Rightarrow> (region \<times> region_handler) list \<Rightarrow> byte list" where
  "debug_dump lo hi areas regions =
     ''Region maping: limits ['' @ print_x (unat lo) @ ''-'' @ print_x (unat hi) @ '']'' @ [CHR 0x0A] @
     '' Area map:'' @ [CHR 0x0A] @ concat (map dump_area areas) @
     '' Region map:'' @ [CHR 0x0A] @ concat (map dump_region regions)"

section \<open>The dispatcher\<close>

text \<open>
  The request handlers of the region map are templates of the library; they are parameters, as are the
  protocol numbers. The answer is the result and the words put into the reply.
\<close>

record 'r rm_handlers =
  rq_rm :: "u32 list \<Rightarrow> 'r \<Rightarrow> (int \<times> u32 list) \<times> 'r"
  rq_pagefault :: "u32 list \<Rightarrow> 'r \<Rightarrow> (int \<times> u32 list) \<times> 'r"

record protocols =
  proto_rm :: int
  proto_debug :: int
  proto_exception :: int
  proto_page_fault :: int

definition handle_exception :: "int \<times> u32 list" where
  "handle_exception = (- L4_ENOREPLY, [0, 0])"

definition Dispatcher_dispatch ::
  "protocols \<Rightarrow> 'r rm_handlers \<Rightarrow> int \<Rightarrow> u32 list \<Rightarrow> 'r \<Rightarrow> (int \<times> u32 list) \<times> 'r" where
  "Dispatcher_dispatch P H label ios rm =
     (if label = proto_rm P then rq_rm H ios rm
      else if label = proto_debug P then ((L4_EOK, []), rm)
      else if label = proto_exception P then (handle_exception, rm)
      else if label = proto_page_fault P then rq_pagefault H ios rm
      else ((- L4_ENOSYS, [0, 0]), rm))"

section \<open>Which regions are copied\<close>

text \<open>
  The mapper answers, for an address, up to \<open>k\<close> of its regions that do not lie below it, in ascending
  order.
\<close>

definition region_page :: "nat \<Rightarrow> region list \<Rightarrow> u32 \<Rightarrow> region list" where
  "region_page k xs a = take k (filter (\<lambda>r. a \<le> r_end r) xs)"

fun ascending :: "region list \<Rightarrow> bool" where
  "ascending [] \<longleftrightarrow> True"
| "ascending (r # rs) \<longleftrightarrow> r_start r \<le> r_end r \<and> (\<forall>r' \<in> set rs. r_end r < r_start r') \<and> ascending rs"

lemma insert_batch_ok:
  assumes "\<forall>r \<in> set rs. \<forall>rm. fst (put r rm) \<noteq> 0"
  shows "insert_batch put rs addr rm =
    Inr (if rs = [] then addr else r_end (last rs) + 1, fold (\<lambda>r rm. snd (put r rm)) rs rm)"
  using assms by (induction rs arbitrary: addr rm) (auto simp: split_beta Let_def)

lemma ascending_append:
  "ascending (xs @ ys) \<longleftrightarrow> ascending xs \<and> ascending ys \<and> (\<forall>x \<in> set xs. \<forall>y \<in> set ys. r_end x < r_start y)"
  by (induction xs) auto

lemma ascending_range: "ascending xs \<Longrightarrow> r \<in> set xs \<Longrightarrow> r_start r \<le> r_end r"
  by (induction xs) auto

lemma ascending_filter: "ascending xs \<Longrightarrow> ascending (filter P xs)"
  by (induction xs) auto

lemma ascending_last_end:
  assumes "ascending xs" and "x \<in> set xs"
  shows "r_end x \<le> r_end (last xs)"
proof -
  from assms(2) have "xs \<noteq> []" by auto
  then have eq: "xs = butlast xs @ [last xs]" by simp
  with assms show ?thesis
    by (smt (verit, best) Un_iff ascending.simps(2) ascending_append empty_iff list.set(1,2) insert_iff
        order_less_imp_le order_trans set_append order_refl)
qed

text \<open>The rest of the regions behind a batch.\<close>

lemma less_inc_iff:
  fixes a b :: u32
  assumes "b \<noteq> - 1"
  shows "b + 1 \<le> a \<longleftrightarrow> b < a"
proof -
  have "unat b \<noteq> 4294967295" using assms unat_minus_1_u32 by (metis word_unat_eq_iff)
  then have "unat (b + 1) = unat b + 1" using unat_u32_less [of b] by (simp add: unat_word_ariths)
  then show ?thesis by (simp add: word_le_nat_alt word_less_nat_alt Suc_le_eq)
qed

lemma filter_behind_batch:
  assumes asc: "ascending xs" and k: "0 < k" and ne: "filter (\<lambda>r. a \<le> r_end r) xs \<noteq> []"
    and top: "\<forall>r \<in> set xs. r_end r \<noteq> - 1"
  shows "filter (\<lambda>r. r_end (last (region_page k xs a)) + 1 \<le> r_end r) xs =
    drop k (filter (\<lambda>r. a \<le> r_end r) xs)"
proof -
  define F where "F = filter (\<lambda>r. a \<le> r_end r) xs"
  define l where "l = last (take k F)"
  have tF: "take k F \<noteq> []" using k ne by (simp add: F_def)
  then have lin: "l \<in> set (take k F)" by (simp add: l_def)
  then have lF: "l \<in> set F" using set_take_subset by fast
  have aF: "ascending (take k F @ drop k F)" using ascending_filter [OF asc] by (simp add: F_def)
  have below: "r_end r \<le> r_end l" if "r \<in> set (take k F)" for r
    using ascending_last_end [of "take k F" r] aF that by (simp add: l_def ascending_append del: append_take_drop_id)
  have above: "r_end l < r_end r" if "r \<in> set (drop k F)" for r
  proof -
    have "r_end l < r_start r" "ascending (drop k F)"
      using aF that lin by (auto simp: ascending_append simp del: append_take_drop_id)
    with ascending_range [OF this(2) that] show ?thesis by simp
  qed
  have lt: "l \<in> set xs" "a \<le> r_end l" using lF by (auto simp: F_def)
  have inc: "r_end l + 1 \<le> r_end r \<longleftrightarrow> r_end l < r_end r" for r
    using less_inc_iff top lt(1) by blast
  have "filter (\<lambda>r. r_end l + 1 \<le> r_end r) xs = filter (\<lambda>r. r_end l < r_end r) F"
    unfolding inc F_def filter_filter using lt(2) by (intro filter_cong) auto
  also have "\<dots> = filter (\<lambda>r. r_end l < r_end r) (take k F @ drop k F)" by simp
  also have "\<dots> = drop k F"
    unfolding filter_append using below above by (simp add: filter_empty_conv filter_id_conv leD)
  finally show ?thesis by (simp add: l_def F_def region_page_def)
qed

lemma insert_loop_ok:
  assumes asc: "ascending xs" and k: "0 < k" and top: "\<forall>r \<in> set xs. r_end r \<noteq> - 1"
    and put: "\<forall>r \<in> set xs. \<forall>rm. fst (put r rm) \<noteq> 0"
  shows "insert_loop put (region_page k xs) a rm =
    Some (Inr (let F = filter (\<lambda>r. a \<le> r_end r) xs
      in (if F = [] then a else r_end (last F) + 1, fold (\<lambda>r rm. snd (put r rm)) F rm)))"
proof (induction "length (filter (\<lambda>r. a \<le> r_end r) xs)" arbitrary: a rm rule: less_induct)
  case less
  define F where "F = filter (\<lambda>r. a \<le> r_end r) xs"
  show ?case
  proof (cases "F = []")
    case True
    then show ?thesis by (subst insert_loop.simps) (simp add: region_page_def F_def)
  next
    case False
    have b: "region_page k xs a = take k F" by (simp add: region_page_def F_def)
    have ne: "take k F \<noteq> []" using k False by simp
    define a' where "a' = r_end (last (take k F)) + 1"
    define rm' where "rm' = fold (\<lambda>r rm. snd (put r rm)) (take k F) rm"
    have rest: "filter (\<lambda>r. a' \<le> r_end r) xs = drop k F"
      using filter_behind_batch [OF asc k _ top, of a] False by (simp add: F_def a'_def region_page_def)
    have "\<forall>r \<in> set (take k F). \<forall>rm. fst (put r rm) \<noteq> 0"
      using put set_take_subset [of k F] by (auto simp: F_def)
    from insert_batch_ok [OF this] have "insert_batch put (region_page k xs a) a rm = Inr (a', rm')"
      using ne by (simp add: b a'_def rm'_def)
    then have step: "insert_loop put (region_page k xs) a rm = insert_loop put (region_page k xs) a' rm'"
      using ne by (subst insert_loop.simps) (simp add: b)
    have "length (filter (\<lambda>r. a' \<le> r_end r) xs) < length (filter (\<lambda>r. a \<le> r_end r) xs)"
      using rest k False by (simp add: F_def [symmetric])
    note IH = less.hyps [OF this]
    have "fold (\<lambda>r rm. snd (put r rm)) (drop k F) rm' = fold (\<lambda>r rm. snd (put r rm)) F rm"
      unfolding rm'_def by (metis append_take_drop_id comp_apply fold_append)
    moreover have "(if drop k F = [] then a' else r_end (last (drop k F)) + 1) = r_end (last F) + 1"
      by (simp add: a'_def last_drop)
    ultimately show ?thesis
      unfolding step IH rest Let_def using False by (simp add: F_def [symmetric])
  qed
qed

text \<open>A region that ends with the address space keeps the loop going for ever.\<close>

lemma insert_loop_wraps:
  assumes last: "r \<in> set xs" "r_end r = - 1" and k: "0 < k" and put: "\<forall>r rm. fst (put r rm) \<noteq> 0"
  shows "insert_loop put (region_page k xs) a rm = None"
proof -
  have ne: "region_page k xs a \<noteq> []" for a
  proof -
    have "a \<le> r_end r" using last(2) by simp
    with last(1) have "filter (\<lambda>r. a \<le> r_end r) xs \<noteq> []" by (auto simp: filter_empty_conv)
    with k show ?thesis by (simp add: region_page_def)
  qed
  have "False" if "insert_loop put (region_page k xs) a rm = Some y" for y
  proof -
    define Q :: "((((region \<Rightarrow> 'a \<Rightarrow> u32 \<times> 'a) \<times> (u32 \<Rightarrow> region list)) \<times> u32) \<times> 'a) \<Rightarrow> unit + u32 \<times> 'a \<Rightarrow> bool"
      where "Q = (\<lambda>(((p, g), a), rm) _. p = put \<and> g = region_page k xs \<longrightarrow> False)"
    from that have "Q (((put, region_page k xs), a), rm) y"
    proof (rule insert_loop.raw_induct [rotated])
      fix loop p g and a' :: u32 and rm' :: 'a and z
      assume IH: "\<And>p g a rm y. loop p g a rm = Some y \<Longrightarrow> Q (((p, g), a), rm) y"
        and step: "(if g a' = [] then Some (Inr (a', rm'))
          else case insert_batch p (g a') a' rm' of Inl _ \<Rightarrow> Some (Inl ())
            | Inr (addr, rm) \<Rightarrow> loop p g addr rm) = Some z"
      show "Q (((p, g), a'), rm') z"
        unfolding Q_def
      proof clarsimp
        assume "p = put" "g = region_page k xs"
        with step ne [of a'] put obtain a2 rm2 where "loop put (region_page k xs) a2 rm2 = Some z"
          by (auto simp: insert_batch_ok)
        from IH [OF this] show False by (simp add: Q_def)
      qed
    qed
    then show False by (simp add: Q_def)
  qed
  then show ?thesis by (cases "insert_loop put (region_page k xs) a rm") auto
qed

end
