(* ===== verification/Kr_Stack.thy ===== *)
theory Kr_Stack
  imports Kr_Memory
begin

text \<open>
  The stack of the program the L4Re kernel starts: class \<open>L4Re_stack\<close> (dom0-l4re_kernel, loader.h),
  what \<open>push_envp\<close> and \<open>push_argv\<close> of loader.cc put on it, and how the \<open>main\<close> functions of the L4Re
  kernel and of Ned read the vectors of their own stack.

  The stack memory is one object that starts at \<open>st_base\<close>; a push below it is \<open>None\<close>. Words are
  stored in little-endian order.
\<close>

section \<open>L4Re\_stack\<close>

record l4re_stack =
  st_addr :: u32
  st_size :: u32
  st_sp :: u32
  st_base :: u32
  st_mem :: membuf

definition set_target_stack :: "u32 \<Rightarrow> u32 \<Rightarrow> l4re_stack \<Rightarrow> l4re_stack" where
  "set_target_stack addr len s = s\<lparr>st_addr := addr, st_size := len\<rparr>"

text \<open>\<open>mem\<close> is the memory that is attached at the local address.\<close>

definition set_local_addr :: "u32 \<Rightarrow> membuf \<Rightarrow> l4re_stack \<Rightarrow> l4re_stack" where
  "set_local_addr addr mem s = s\<lparr>st_sp := addr + st_size s, st_base := addr, st_mem := mem\<rparr>"

definition push_object :: "byte list \<Rightarrow> l4re_stack \<Rightarrow> l4re_stack option" where
  "push_object src s =
     (let sp = st_sp s - of_nat (length src)
      in if unat (st_sp s) < unat (st_base s) + length src then None
         else map_option (\<lambda>mem. s\<lparr>st_sp := sp, st_mem := mem\<rparr>)
           (mwrite (st_mem s) (unat sp - unat (st_base s)) src))"

definition push_word :: "u32 \<Rightarrow> l4re_stack \<Rightarrow> l4re_stack option" where
  "push_word v = push_object (enc32 v)"

text \<open>
  \<open>align\<close> counts the bits up to the first power of two that is larger than the argument; a shift by the
  width of the word is undefined.
\<close>

function align_bits :: "u32 \<Rightarrow> nat \<Rightarrow> nat option" where
  "align_bits len bits =
     (if 32 \<le> bits then None
      else if 2 ^ bits \<le> unat len then align_bits len (Suc bits) else Some bits)"
  by pat_completeness auto
termination by (relation "measure (\<lambda>(_, b). 32 - b)") auto

declare align_bits.simps [simp del]

definition align :: "u32 \<Rightarrow> l4re_stack \<Rightarrow> l4re_stack option" where
  "align len s =
     map_option (\<lambda>bits. s\<lparr>st_sp := st_sp s AND push_bit bits (NOT 0)\<rparr>) (align_bits len 0)"

section \<open>push\_envp, push\_argv\<close>

fun push_words :: "u32 list \<Rightarrow> l4re_stack \<Rightarrow> l4re_stack option" where
  "push_words [] s = Some s"
| "push_words (w # ws) s = do { s \<leftarrow> push_word w s; push_words ws s }"

text \<open>\<open>envp\<close> and \<open>argv\<close> are the pointers of \<open>Global::envp\<close> (up to its null) and \<open>Global::argv\<close>.\<close>

definition push_envp :: "u32 list \<Rightarrow> l4re_stack \<Rightarrow> l4re_stack option" where
  "push_envp envp s = do { s \<leftarrow> push_word 0 s; push_words envp s }"

text \<open>The loop runs from \<open>argc - 1\<close> down to 0.\<close>

definition push_argv :: "u32 list \<Rightarrow> l4re_stack \<Rightarrow> l4re_stack option" where
  "push_argv argv s = do {
     s \<leftarrow> push_word 0 s;
     s \<leftarrow> push_words (rev argv) s;
     push_word (of_nat (length argv)) s
   }"

section \<open>Reading the vectors\<close>

text \<open>
  \<open>ws\<close> are the words from \<open>&argv[0]\<close> upwards. \<open>None\<close> is reading beyond them. The result is the
  position of \<open>envp\<close> (its words up to the null) and the value of the auxiliary entry 0xf0.
\<close>

fun skip_to_null :: "u32 list \<Rightarrow> (u32 list \<times> u32 list) option" where
  "skip_to_null [] = None"
| "skip_to_null (w # ws) =
     (if w = 0 then Some ([], ws) else map_option (\<lambda>(vs, rest). (w # vs, rest)) (skip_to_null ws))"

fun find_aux :: "u32 list \<Rightarrow> u32 \<Rightarrow> u32 option" where
  "find_aux [] l4re_aux = None"
| "find_aux (k # ws) l4re_aux =
     (if k = 0 then Some l4re_aux
      else case ws of [] \<Rightarrow> None
        | v # ws \<Rightarrow> find_aux ws (if k = 0xf0 then v else l4re_aux))"

record main_vectors =
  mv_argv :: "u32 list"
  mv_envp :: "u32 list"
  mv_aux :: u32

definition read_vectors :: "nat \<Rightarrow> u32 list \<Rightarrow> main_vectors option" where
  "read_vectors argc ws =
     (if length ws < argc + 1 then None
      else do {
        (envp, auxp) \<leftarrow> skip_to_null (drop (argc + 1) ws);
        aux \<leftarrow> find_aux auxp 0;
        Some \<lparr>mv_argv = take argc ws, mv_envp = envp, mv_aux = aux\<rparr>
      })"

text \<open>
  The name of the L4Re kernel in the kernel debugger: a 15-byte array with a hash sign and the name of
  the binary behind \<open>rom/\<close> if it occurs.
\<close>

fun strstr :: "byte list \<Rightarrow> byte list \<Rightarrow> byte list option" where
  "strstr [] pat = (if pat = [] then Some [] else None)"
| "strstr (c # s) pat = (if take (length pat) (c # s) = pat then Some (c # s) else strstr s pat)"

definition strncpy :: "byte list \<Rightarrow> nat \<Rightarrow> byte list" where
  "strncpy src n = take n src @ replicate (n - length src) NUL"

definition object_name :: "byte list \<Rightarrow> byte list" where
  "object_name binary =
     (let t = strstr binary ''rom/'';
          s = CHR ''#'' # strncpy (case t of Some t \<Rightarrow> drop 4 t | None \<Rightarrow> binary) 14
      in s[14 := NUL])"

section \<open>Pushing and reading back\<close>

text \<open>
  A usable stack: word aligned and inside its memory. \<open>stack_room\<close> is the space left, \<open>stack_words\<close>
  the words from the stack pointer to the end of the memory.
\<close>

definition stack_room :: "l4re_stack \<Rightarrow> nat" where
  "stack_room s = unat (st_sp s) - unat (st_base s)"

definition stack_ok :: "l4re_stack \<Rightarrow> bool" where
  "stack_ok s \<longleftrightarrow> st_base s \<le> st_sp s \<and> stack_room s \<le> msize (st_mem s) \<and>
     unat (st_base s) + msize (st_mem s) < 4294967296"

definition stack_words :: "l4re_stack \<Rightarrow> u32 list" where
  "stack_words s =
     map (\<lambda>i. dec32 (map (mcell (st_mem s)) [stack_room s + 4 * i..<stack_room s + 4 * i + 4]))
       [0..<(msize (st_mem s) - stack_room s) div 4]"

lemma stack_okD:
  assumes "stack_ok s"
  shows "unat (st_base s) \<le> unat (st_sp s)" and "unat (st_sp s) = unat (st_base s) + stack_room s"
    and "stack_room s \<le> msize (st_mem s)" and "unat (st_base s) + msize (st_mem s) < 4294967296"
  using assms by (auto simp: stack_ok_def stack_room_def word_le_nat_alt)

lemma push_object_ok:
  assumes ok: "stack_ok s" and fits: "length src \<le> stack_room s"
  shows "\<exists>s'. push_object src s = Some s' \<and> stack_ok s' \<and> stack_room s' = stack_room s - length src \<and>
    mwrite (st_mem s) (stack_room s - length src) src = Some (st_mem s') \<and>
    st_base s' = st_base s \<and> st_addr s' = st_addr s \<and> st_size s' = st_size s"
proof -
  note d = stack_okD [OF ok]
  have l: "unat (of_nat (length src) :: u32) = length src"
    using d fits by (intro unat_of_nat_u32) simp
  have sp: "unat (st_sp s - of_nat (length src)) = unat (st_sp s) - length src"
    using l d(2) fits by (simp add: unat_sub word_le_nat_alt)
  have off: "unat (st_sp s - of_nat (length src)) - unat (st_base s) = stack_room s - length src"
    using sp d(2) by simp
  have guard: "\<not> unat (st_sp s) < unat (st_base s) + length src"
    using d(2) fits by simp
  obtain mem where mem: "mwrite (st_mem s) (stack_room s - length src) src = Some mem"
    using mwrite_total [of "stack_room s - length src" src "st_mem s"] d(3) fits by auto
  define s' where "s' = s\<lparr>st_sp := st_sp s - of_nat (length src), st_mem := mem\<rparr>"
  have "push_object src s = Some s'"
    using guard mem by (simp add: push_object_def Let_def off s'_def)
  moreover have "stack_room s' = stack_room s - length src"
    using off by (simp add: s'_def stack_room_def)
  moreover have "stack_ok s'"
    using d fits mwrite_msize [OF mem] calculation(2) sp
    unfolding stack_ok_def word_le_nat_alt by (auto simp: s'_def)
  ultimately show ?thesis using mem by (intro exI [of _ s']) (simp add: s'_def)
qed

lemma push_word_ok:
  assumes ok: "stack_ok s" and fits: "4 \<le> stack_room s"
  shows "\<exists>s'. push_word w s = Some s' \<and> stack_ok s' \<and> stack_room s' = stack_room s - 4 \<and>
    stack_words s' = w # stack_words s"
proof -
  obtain s' where s': "push_object (enc32 w) s = Some s'" "stack_ok s'" "stack_room s' = stack_room s - 4"
    "mwrite (st_mem s) (stack_room s - 4) (enc32 w) = Some (st_mem s')"
    using push_object_ok [OF ok, of "enc32 w"] fits by auto
  have ms: "msize (st_mem s') = msize (st_mem s)" by (rule mwrite_msize [OF s'(4)])
  have n: "(msize (st_mem s) - (stack_room s - 4)) div 4 = Suc ((msize (st_mem s) - stack_room s) div 4)"
    using fits stack_okD(3) [OF ok] by (simp add: Suc_diff_le [symmetric] flip: div_add_self1)
  have head: "map (mcell (st_mem s')) [stack_room s - 4..<stack_room s] = enc32 w"
    using mread_mwrite_same [OF s'(4)] fits by (simp add: mread_def split: if_splits)
  have cell: "mcell (st_mem s') i = mcell (st_mem s) i" if "stack_room s \<le> i" for i
    using s'(4) that fits by (auto simp: mwrite_eq_Some_iff)
  have tail: "map (mcell (st_mem s')) [stack_room s - 4 + 4 * Suc i..<stack_room s - 4 + 4 * Suc i + 4] =
      map (mcell (st_mem s)) [stack_room s + 4 * i..<stack_room s + 4 * i + 4]" for i
  proof -
    have "stack_room s - 4 + 4 * Suc i = stack_room s + 4 * i" using fits by simp
    then show ?thesis by (auto simp: cell)
  qed
  have "stack_words s' = w # stack_words s"
    unfolding stack_words_def s'(3) ms n
    by (simp only: upt_conv_Cons [OF zero_less_Suc] list.map map_Suc_upt [symmetric] map_map o_def tail)
      (use head fits in simp)
  with s' show ?thesis by (auto simp: push_word_def)
qed

lemma push_words_ok:
  assumes "stack_ok s" and "4 * length ws \<le> stack_room s"
  shows "\<exists>s'. push_words ws s = Some s' \<and> stack_ok s' \<and> stack_room s' = stack_room s - 4 * length ws \<and>
    stack_words s' = rev ws @ stack_words s"
  using assms
proof (induction ws arbitrary: s)
  case Nil
  then show ?case by simp
next
  case (Cons w ws)
  obtain s1 where s1: "push_word w s = Some s1" "stack_ok s1" "stack_room s1 = stack_room s - 4"
    "stack_words s1 = w # stack_words s"
    using push_word_ok [OF Cons.prems(1), of w] Cons.prems(2) by auto
  obtain s2 where "push_words ws s1 = Some s2" "stack_ok s2" "stack_room s2 = stack_room s1 - 4 * length ws"
    "stack_words s2 = rev ws @ stack_words s1"
    using Cons.IH [OF s1(2)] s1(3) Cons.prems(2) by fastforce
  with s1 show ?case by auto
qed

lemma skip_to_null_append: "0 \<notin> set vs \<Longrightarrow> skip_to_null (vs @ 0 # rest) = Some (vs, rest)"
  by (induction vs) auto

lemma push_vectors_ok:
  assumes ok: "stack_ok s" and room: "4 * (length envp + length argv + 3) \<le> stack_room s"
  shows "\<exists>s1 s2. push_envp envp s = Some s1 \<and> push_argv argv s1 = Some s2 \<and> stack_ok s2 \<and>
    stack_words s2 = of_nat (length argv) # argv @ 0 # rev envp @ 0 # stack_words s"
proof -
  obtain a where a: "push_word 0 s = Some a" "stack_ok a" "stack_room a = stack_room s - 4"
    "stack_words a = 0 # stack_words s"
    using push_word_ok [OF ok, of 0] room by auto
  obtain b where b: "push_words envp a = Some b" "stack_ok b" "stack_room b = stack_room a - 4 * length envp"
    "stack_words b = rev envp @ stack_words a"
    using push_words_ok [OF a(2), of envp] a(3) room by fastforce
  obtain c where c: "push_word 0 b = Some c" "stack_ok c" "stack_room c = stack_room b - 4"
    "stack_words c = 0 # stack_words b"
    using push_word_ok [OF b(2), of 0] b(3) a(3) room by fastforce
  obtain d where d: "push_words (rev argv) c = Some d" "stack_ok d" "stack_room d = stack_room c - 4 * length argv"
    "stack_words d = argv @ stack_words c"
    using push_words_ok [OF c(2), of "rev argv"] c(3) b(3) a(3) room by fastforce
  obtain e where e: "push_word (of_nat (length argv)) d = Some e" "stack_ok e"
    "stack_words e = of_nat (length argv) # stack_words d"
    using push_word_ok [OF d(2), of "of_nat (length argv)"] d(3) c(3) b(3) a(3) room by fastforce
  show ?thesis
    using a b c d e by (intro exI [of _ b] exI [of _ e]) (simp add: push_envp_def push_argv_def)
qed

lemma read_vectors_append:
  assumes "0 \<notin> set envp" and "find_aux rest 0 = Some aux"
  shows "read_vectors (length argv) (argv @ 0 # envp @ 0 # rest) =
    Some \<lparr>mv_argv = argv, mv_envp = envp, mv_aux = aux\<rparr>"
  using assms by (simp add: read_vectors_def skip_to_null_append)

section \<open>Alignment\<close>

text \<open>The number of bits is that of the argument: the first power of two above it.\<close>

lemma align_bits_Some:
  assumes "unat len < 2 ^ 31" and "bits = 0 \<or> 2 ^ (bits - 1) \<le> unat len" and "bits \<le> 31"
  shows "\<exists>b. align_bits len bits = Some b \<and> b \<le> 31 \<and> unat len < 2 ^ b \<and> (b = 0 \<or> 2 ^ (b - 1) \<le> unat len)"
  using assms
proof (induction len bits rule: align_bits.induct)
  case (1 len bits)
  show ?case
  proof (cases "2 ^ bits \<le> unat len")
    case True
    have "bits \<noteq> 31" using True "1.prems"(1) by auto
    with "1.prems"(3) have b: "\<not> 32 \<le> bits" "Suc bits \<le> 31" by auto
    have eq: "align_bits len bits = align_bits len (Suc bits)"
      by (subst align_bits.simps) (use True b in simp)
    show ?thesis unfolding eq by (rule "1.IH") (use True b "1.prems" in auto)
  next
    case False
    then show ?thesis using "1.prems" by (subst align_bits.simps) auto
  qed
qed

lemma unat_clear_low: "b < 32 \<Longrightarrow> unat (x AND push_bit b (NOT 0) :: u32) = unat x div 2 ^ b * 2 ^ b"
proof -
  assume b: "b < 32"
  have "x AND push_bit b (NOT 0) = push_bit b (drop_bit b x)"
    by (rule bit_word_eqI) (auto simp: bit_simps)
  moreover have "unat (push_bit b (drop_bit b x)) = unat x div 2 ^ b * 2 ^ b"
  proof -
    have "unat x div 2 ^ b * 2 ^ b < 4294967296"
      using unat_u32_less [of x] by (meson div_times_less_eq_dividend le_less_trans)
    moreover have "unat (push_bit b (drop_bit b x)) = unat x div 2 ^ b * 2 ^ b mod 4294967296"
    proof -
      have "unat (push_bit b (drop_bit b x)) = take_bit 32 (push_bit b (drop_bit b (unat x)))"
        by (simp only: unsigned_push_bit_eq unat_drop_bit_eq) simp
      then show ?thesis by (simp only: take_bit_eq_mod push_bit_eq_mult drop_bit_eq_div) simp
    qed
    ultimately show ?thesis by simp
  qed
  ultimately show ?thesis by simp
qed

lemma align_ok:
  assumes "unat len < 2 ^ 31"
  shows "\<exists>s' b. align len s = Some s' \<and> unat len < 2 ^ b \<and> (b = 0 \<or> 2 ^ (b - 1) \<le> unat len) \<and>
    unat (st_sp s') = unat (st_sp s) div 2 ^ b * 2 ^ b"
proof -
  obtain b where b: "align_bits len 0 = Some b" "b \<le> 31" "unat len < 2 ^ b" "b = 0 \<or> 2 ^ (b - 1) \<le> unat len"
    using align_bits_Some [OF assms, of 0] by auto
  then show ?thesis using unat_clear_low [of b "st_sp s"] by (auto simp: align_def)
qed

end
