(* ===== verification/Kr_Loader.thy ===== *)
theory Kr_Loader
  imports Kr_Regions Kr_Stack
begin

text \<open>
  The loader of the L4Re kernel (dom0-l4re_kernel, loader.cc and the methods of loader.h) and its
  counterpart in Ned (dom0-ned, app_model.cc), which load a program through the same services: the
  capability allocator, the memory allocator, a region mapper, dataspaces and the name space.

  These services are the parameter \<open>E\<close>: a call yields an error code, a value (an address or a capability)
  and the new state. \<open>chksys\<close> and \<open>chkcap\<close> throw; an exception is the left summand. The contract of
  a region mapper is the locale \<open>vma_env\<close>.
\<close>

section \<open>Services\<close>

datatype env_call =
    Cap_alloc_alloc
  | Cap_alloc_free u32
  | Mem_alloc_alloc u32 u32 u32  \<comment> \<open>size, dataspace, flags\<close>
  | Ma_alloc u32 u32 u32  \<comment> \<open>the allocator that is called, size, dataspace\<close>
  | Rm_attach u32 u32 u32 u32 u32  \<comment> \<open>address, size, flags, dataspace, offset\<close>
  | Rm_detach u32
  | Rm_reserve_area u32 u32 u32 u8
  | Ds_copy_in u32 u32 u32 u32 u32
  | Ns_query "byte list"
  | Factory_create_thread u32
  | Thread_control u32 u32 u32  \<comment> \<open>thread, pager, UTCB\<close>
  | Sched_run_thread u32 u32
  | Sched_run_on u32 u32 u32  \<comment> \<open>the scheduler that is called, thread, priority\<close>
  | Thread_ex_regs u32 u32  \<comment> \<open>thread, stack pointer\<close>

type_synonym 'e service = "env_call \<Rightarrow> 'e \<Rightarrow> int \<times> u32 \<times> 'e"

type_synonym ('a, 'e) throws = "'e \<Rightarrow> (int + 'a) \<times> 'e"

definition chksys :: "'e service \<Rightarrow> env_call \<Rightarrow> (u32, 'e) throws" where
  "chksys E c e = (let (r, v, e) = E c e in if r < 0 then (Inl r, e) else (Inr v, e))"

definition chkcap :: "'e service \<Rightarrow> env_call \<Rightarrow> int \<Rightarrow> (u32, 'e) throws" where
  "chkcap E c err e = (let (r, v, e) = E c e in if cap_is_valid v then (Inr v, e) else (Inl err, e))"

definition andthen :: "('a, 'e) throws \<Rightarrow> ('a \<Rightarrow> ('b, 'e) throws) \<Rightarrow> ('b, 'e) throws" where
  "andthen m f e = (case m e of (Inl x, e) \<Rightarrow> (Inl x, e) | (Inr v, e) \<Rightarrow> f v e)"

definition return :: "'a \<Rightarrow> ('a, 'e) throws" where
  "return v e = (Inr v, e)"

lemmas throws_defs = chksys_def chkcap_def andthen_def return_def

abbreviation (input) Rm_Read_only :: u32 where "Rm_Read_only \<equiv> 0x01"
abbreviation (input) Rm_Search_addr :: u32 where "Rm_Search_addr \<equiv> 0x20"
abbreviation (input) Rm_Eager_map :: u32 where "Rm_Eager_map \<equiv> 0x80"
abbreviation (input) Mem_alloc_Pinned :: u32 where "Mem_alloc_Pinned \<equiv> 0x02"
abbreviation (input) LDR_FLAG_EAGER_MAP :: u32 where "LDR_FLAG_EAGER_MAP \<equiv> 0x1"
abbreviation (input) LDR_FLAG_ALL_SEGS_COW :: u32 where "LDR_FLAG_ALL_SEGS_COW \<equiv> 0x2"
abbreviation (input) LDR_FLAG_PINNED_SEGS :: u32 where "LDR_FLAG_PINNED_SEGS \<equiv> 0x4"

definition l4_trunc_page :: "u32 \<Rightarrow> u32" where
  "l4_trunc_page a = a AND NOT 4095"

definition l4_round_page :: "u32 \<Rightarrow> u32" where
  "l4_round_page a = (a + 4095) AND NOT 4095"

section \<open>The loader of the L4Re kernel\<close>

text \<open>\<open>ldr_flags\<close> are the flags of \<open>Global::l4re_aux\<close>.\<close>

definition kr_alloc_ds :: "'e service \<Rightarrow> u32 \<Rightarrow> u32 \<Rightarrow> (u32, 'e) throws" where
  "kr_alloc_ds E ldr_flags len =
     andthen (chkcap E Cap_alloc_alloc (- L4_ENOMEM)) (\<lambda>mem.
     andthen (chksys E (Mem_alloc_alloc len mem
       (if ldr_flags AND LDR_FLAG_PINNED_SEGS \<noteq> 0 then Mem_alloc_Pinned else 0))) (\<lambda>_.
     return mem))"

definition kr_open_file :: "'e service \<Rightarrow> byte list \<Rightarrow> (u32, 'e) throws" where
  "kr_open_file E name = chkcap E (Ns_query name) 0"

definition kr_prog_attach_ds ::
  "'e service \<Rightarrow> u32 \<Rightarrow> u32 \<Rightarrow> u32 \<Rightarrow> u32 \<Rightarrow> u32 \<Rightarrow> u32 \<Rightarrow> (u32, 'e) throws" where
  "kr_prog_attach_ds E ldr_flags addr len ds offset flags =
     chksys E (Rm_attach addr len
       (if ldr_flags AND LDR_FLAG_EAGER_MAP \<noteq> 0 then flags OR Rm_Eager_map else flags) ds offset)"

text \<open>The region of the fallback is detached when its \<open>Auto_region\<close> goes out of scope.\<close>

definition copy_ds :: "'e service \<Rightarrow> u32 \<Rightarrow> u32 \<Rightarrow> u32 \<Rightarrow> u32 \<Rightarrow> u32 \<Rightarrow> (unit, 'e) throws" where
  "copy_ds E dst dst_offs src src_offs len e =
     (let (r, _, e) = E (Ds_copy_in dst dst_offs src src_offs len) e
      in if r < 0
         then andthen (chksys E (Rm_attach 0 len (Rm_Search_addr OR Rm_Read_only) src src_offs)) (\<lambda>data e.
           let (_, _, e) = E (Rm_detach data) e in return () e) e
         else return () e)"

definition local_attach_ds :: "'e service \<Rightarrow> u32 \<Rightarrow> u32 \<Rightarrow> u32 \<Rightarrow> (u32, 'e) throws" where
  "local_attach_ds E ds len offset =
     (let pg_offset = l4_trunc_page offset;
          in_pg_offset = offset - pg_offset;
          pg_size = l4_round_page (len + in_pg_offset)
      in andthen (chksys E (Rm_attach 0 pg_size (Rm_Search_addr OR Rm_Read_only) ds pg_offset)) (\<lambda>vaddr.
         return (vaddr + in_pg_offset)))"

definition local_detach_ds :: "'e service \<Rightarrow> u32 \<Rightarrow> u32 \<Rightarrow> (unit, 'e) throws" where
  "local_detach_ds E addr len =
     andthen (chksys E (Rm_detach (l4_trunc_page addr))) (\<lambda>_. return ())"

definition prog_reserve_area :: "'e service \<Rightarrow> u32 \<Rightarrow> u32 \<Rightarrow> u32 \<Rightarrow> u8 \<Rightarrow> 'e \<Rightarrow> int \<times> u32 \<times> 'e" where
  "prog_reserve_area E start len flags alignment = E (Rm_reserve_area start len flags alignment)"

definition kr_alloc_app_stack :: "'e service \<Rightarrow> l4re_stack \<Rightarrow> (u32 \<times> l4re_stack, 'e) throws" where
  "kr_alloc_app_stack E s =
     andthen (chkcap E Cap_alloc_alloc (- L4_ENOMEM)) (\<lambda>stack.
     andthen (chksys E (Mem_alloc_alloc (st_size s) stack 0)) (\<lambda>_.
     andthen (chksys E (Rm_attach (st_addr s) (st_size s) Rm_Search_addr stack 0)) (\<lambda>a.
     return (stack, set_local_addr a (mzero (unat (st_size s))) (set_target_stack a (st_size s) s)))))"

definition kr_all_segs_cow :: "u32 \<Rightarrow> bool" where
  "kr_all_segs_cow ldr_flags \<longleftrightarrow> ldr_flags AND LDR_FLAG_ALL_SEGS_COW \<noteq> 0"

section \<open>The loader of Ned\<close>

text \<open>
  The allocator and the scheduler are those of the program information, whose flex pages \<open>mem_alloc\<close> and
  \<open>scheduler\<close> are cut to the capability; programs are attached with the mapper of the task, the rest with
  that of Ned.
\<close>

abbreviation (input) L4_FPAGE_ADDR_MASK :: u32 where "L4_FPAGE_ADDR_MASK \<equiv> NOT 0xfff"

definition am_alloc_ds :: "'e service \<Rightarrow> u32 \<Rightarrow> u32 \<Rightarrow> (u32, 'e) throws" where
  "am_alloc_ds E mem_alloc len =
     andthen (chkcap E Cap_alloc_alloc (- L4_ENOMEM)) (\<lambda>mem.
     andthen (chksys E (Ma_alloc (mem_alloc AND L4_FPAGE_ADDR_MASK) len mem)) (\<lambda>_.
     return mem))"

definition am_run_thread :: "'e service \<Rightarrow> u32 \<Rightarrow> u32 \<Rightarrow> u32 \<Rightarrow> 'e \<Rightarrow> int \<times> 'e" where
  "am_run_thread E scheduler thread sp e =
     (let (tag, _, e) = E (Sched_run_on (scheduler AND L4_FPAGE_ADDR_MASK) thread sp) e in (tag, e))"

definition am_open_file :: "'e service \<Rightarrow> byte list \<Rightarrow> (u32, 'e) throws" where
  "am_open_file E name = chkcap E (Ns_query name) 0"

definition am_prog_attach_ds :: "'e service \<Rightarrow> u32 \<Rightarrow> u32 \<Rightarrow> u32 \<Rightarrow> u32 \<Rightarrow> u32 \<Rightarrow> (u32, 'e) throws" where
  "am_prog_attach_ds E addr len ds offset flags =
     chksys E (Rm_attach addr len (if cap_is_valid ds then flags else flags OR Rm_Reserved) ds offset)"

text \<open>\<open>set_stack\<close> attaches the stack locally and sets its local top.\<close>

definition am_set_stack :: "'e service \<Rightarrow> u32 \<Rightarrow> u32 \<Rightarrow> (u32, 'e) throws" where
  "am_set_stack E ds len =
     andthen (chksys E (Rm_attach 0 len Rm_Search_addr ds 0)) (\<lambda>vma. return (vma + len))"

definition am_alloc_app_stack :: "'e service \<Rightarrow> u32 \<Rightarrow> u32 \<Rightarrow> (u32 \<times> u32, 'e) throws" where
  "am_alloc_app_stack E mem_alloc len =
     andthen (chkcap E Cap_alloc_alloc (- L4_ENOMEM)) (\<lambda>stack.
     andthen (chksys E (Ma_alloc (mem_alloc AND L4_FPAGE_ADDR_MASK) len stack)) (\<lambda>_.
     andthen (am_set_stack E stack len) (\<lambda>top.
     return (stack, top))))"

text \<open>
  \<open>check_access\<close> makes sure that the pages behind an access to the stack exist. \<open>alloc\<close> is the
  \<open>allocate\<close> call on the dataspace; \<open>last_checked\<close> is \<open>_last_checked\<close>.
\<close>

definition check_access ::
  "(u32 \<Rightarrow> u32 \<Rightarrow> 'e \<Rightarrow> int \<times> 'e) \<Rightarrow> u32 \<Rightarrow> u32 \<Rightarrow> u32 \<Rightarrow> u32 \<Rightarrow> (u32, 'e) throws" where
  "check_access alloc vma addr sz last_checked e =
     (if last_checked \<noteq> l4_trunc_page addr
      then let offs = l4_trunc_page (addr - vma);
               end = l4_round_page (addr + sz - vma);
               (r, e) = alloc offs (end - offs) e
           in if r < 0 then (Inl r, e) else (Inr (l4_trunc_page addr), e)
      else (Inr last_checked, e))"

text \<open>
  The rest of the services are written as in the L4Re kernel: reserving an area, copying between
  dataspaces and the temporary mappings. Ned never asks for writable copies of all segments.
\<close>

definition am_prog_reserve_area :: "'e service \<Rightarrow> u32 \<Rightarrow> u32 \<Rightarrow> u32 \<Rightarrow> u8 \<Rightarrow> 'e \<Rightarrow> int \<times> u32 \<times> 'e" where
  "am_prog_reserve_area = prog_reserve_area"

definition am_copy_ds :: "'e service \<Rightarrow> u32 \<Rightarrow> u32 \<Rightarrow> u32 \<Rightarrow> u32 \<Rightarrow> u32 \<Rightarrow> (unit, 'e) throws" where
  "am_copy_ds = copy_ds"

definition am_local_attach_ds :: "'e service \<Rightarrow> u32 \<Rightarrow> u32 \<Rightarrow> u32 \<Rightarrow> (u32, 'e) throws" where
  "am_local_attach_ds = local_attach_ds"

definition am_local_detach_ds :: "'e service \<Rightarrow> u32 \<Rightarrow> u32 \<Rightarrow> (unit, 'e) throws" where
  "am_local_detach_ds = local_detach_ds"

definition am_all_segs_cow :: bool where "am_all_segs_cow = False"

text \<open>What the constructor enters into the program information.\<close>

record am_defaults =
  ad_utcbs_start :: u32
  ad_utcbs_log2size :: nat
  ad_kip :: u32

abbreviation (input) L4_PAGESHIFT :: nat where "L4_PAGESHIFT \<equiv> 12"

definition App_model_new :: am_defaults where
  "App_model_new = \<lparr>ad_utcbs_start = 0xb3000000, ad_utcbs_log2size = L4_PAGESHIFT, ad_kip = 0xa0000000\<rparr>"

section \<open>Starting the loader thread\<close>

record kr_env =
  ke_rm :: u32
  ke_main_thread :: u32
  ke_mem_alloc :: u32
  ke_first_free_cap :: u32
  ke_first_free_utcb :: u32

text \<open>The static variables of loader.cc; \<open>kl_top\<close> is the word on the top of the loader stack.\<close>

record kr_loader =
  kl_stack_ds :: u32
  kl_stack_p :: u32
  kl_top :: u32
  kl_binary :: u32
  kl_pager :: u32
  kl_app_thread :: u32

abbreviation (input) Loader_vma_start :: u32 where "Loader_vma_start \<equiv> 0xb0200000"
abbreviation (input) Loader_stack_size :: u32 where "Loader_stack_size \<equiv> 8192"
abbreviation (input) L4_CAP_SHIFT :: nat where "L4_CAP_SHIFT \<equiv> 12"
abbreviation (input) L4_UTCB_OFFSET :: u32 where "L4_UTCB_OFFSET \<equiv> 512"
abbreviation (input) L4_INVALID_PTR :: u32 where "L4_INVALID_PTR \<equiv> - 1"

text \<open>
  \<open>Loader::start\<close>. Only the capability and the local attachment of the stack are checked; the results of
  the memory allocation and of the remote attachment are not. \<open>adjust_sp\<close> is the function of the loader
  library. The map is returned besides.
\<close>

definition Loader_start ::
  "'e service \<Rightarrow> 'r region_lib \<Rightarrow> (u32 \<Rightarrow> u32) \<Rightarrow> u32 \<Rightarrow> kr_env \<Rightarrow> 'r \<Rightarrow>
   (bool \<times> kr_env \<times> kr_loader option \<times> 'r, 'e) throws" where
  "Loader_start E lib adjust_sp bin env rm e =
     (let (_, stack_ds, e) = E Cap_alloc_alloc e;
          (_, _, e) = E (Mem_alloc_alloc Loader_stack_size stack_ds 0) e
      in if \<not> cap_is_valid stack_ds then return (False, env, None, rm) e
         else
           let (stack_p, rm) = lr_attach_search lib Loader_vma_start Loader_stack_size
                 \<lparr>h_memory = stack_ds, h_client = stack_ds, h_offset = 0, h_flags = 0\<rparr> 0 rm
           in if stack_p = L4_INVALID_PTR then return (False, env, None, rm) e
              else
                let (r, v, e) = E (Rm_attach stack_p Loader_stack_size 0 stack_ds 0) e;
                    stack_p = (if r < 0 then stack_p else v);
                    sp = stack_p + Loader_stack_size - 4;
                    app_thread = push_bit L4_CAP_SHIFT (ke_first_free_cap env);
                    env = env\<lparr>ke_first_free_cap := drop_bit L4_CAP_SHIFT app_thread + 1\<rparr>;
                    pager = ke_main_thread env;
                    ld = \<lparr>kl_stack_ds = stack_ds, kl_stack_p = sp, kl_top = 0, kl_binary = bin,
                          kl_pager = pager, kl_app_thread = app_thread\<rparr>;
                    utcb = ke_first_free_utcb env
                in andthen (chksys E (Factory_create_thread app_thread)) (\<lambda>_.
                   andthen (chksys E (Thread_control app_thread pager utcb)) (\<lambda>_.
                   andthen (chksys E (Sched_run_thread app_thread 2)) (\<lambda>_.
                   andthen (chksys E (Thread_ex_regs app_thread (adjust_sp sp))) (\<lambda>_.
                   return (True, env\<lparr>ke_first_free_utcb := utcb + L4_UTCB_OFFSET\<rparr>, Some ld, rm))))) e)"

text \<open>\<open>__start\<close>: \<open>launch\<close> is the loader library; every exception it throws becomes \<open>false\<close>.\<close>

definition Loader_start_thread :: "(u32 \<Rightarrow> u32 \<Rightarrow> (bool, 'e) throws) \<Rightarrow> kr_loader \<Rightarrow> 'e \<Rightarrow> bool \<times> 'e" where
  "Loader_start_thread launch ld e =
     (case launch (kl_binary ld) (kl_pager ld) e of
        (Inl _, e) \<Rightarrow> (False, e)
      | (Inr _, e) \<Rightarrow> (True, e))"

text \<open>The program environment the loader hands on, and the last step on the loader stack.\<close>

definition add_env :: "kr_loader \<Rightarrow> kr_env \<Rightarrow> kr_env" where
  "add_env ld env = env\<lparr>ke_rm := kl_pager ld, ke_main_thread := kl_app_thread ld\<rparr>"

definition unmap_stack_and_start :: "'e service \<Rightarrow> kr_loader \<Rightarrow> 'e \<Rightarrow> 'e" where
  "unmap_stack_and_start E ld e =
     (let (_, _, e) = E (Rm_detach (kl_stack_p ld - 1)) e;
          (_, _, e) = E (Cap_alloc_free (kl_stack_ds ld)) e
      in e)"

text \<open>
  The registers \<open>switch_stack\<close> sets on x86: the stack and frame pointers, \<open>edx\<close> and the program counter;
  \<open>unmap\<close> is the address of \<open>unmap_stack_and_start\<close>, which ends with a switch to the entry point of
  the program.
\<close>

record cpu =
  cpu_esp :: u32
  cpu_ebp :: u32
  cpu_edx :: u32
  cpu_pc :: u32

definition switch_stack :: "u32 \<Rightarrow> u32 \<Rightarrow> cpu \<Rightarrow> cpu" where
  "switch_stack stack func c = c\<lparr>cpu_esp := stack, cpu_ebp := 0, cpu_edx := 0, cpu_pc := func\<rparr>"

record entry_data =
  ed_entry :: u32
  ed_stack :: u32
  ed_pager :: u32

definition start_prog :: "u32 \<Rightarrow> u32 \<Rightarrow> u32 \<Rightarrow> entry_data \<Rightarrow> cpu \<Rightarrow> entry_data \<times> cpu" where
  "start_prog sp entry unmap d c =
     (let d = d\<lparr>ed_stack := sp, ed_entry := entry\<rparr> in (d, switch_stack (ed_stack d) unmap c))"

definition unmap_and_enter :: "'e service \<Rightarrow> kr_loader \<Rightarrow> entry_data \<Rightarrow> cpu \<Rightarrow> 'e \<Rightarrow> cpu \<times> 'e" where
  "unmap_and_enter E ld d c e = (switch_stack (ed_stack d) (ed_entry d) c, unmap_stack_and_start E ld e)"

section \<open>Start of the L4Re kernel\<close>

text \<open>The initial thread-local storage; 0 is the null pointer.\<close>

definition libc_alloc_initial_tls :: "'e service \<Rightarrow> u32 \<Rightarrow> kr_env \<Rightarrow> 'e \<Rightarrow> u32 \<times> kr_env \<times> 'e" where
  "libc_alloc_initial_tls E len env e =
     (let ds = push_bit L4_CAP_SHIFT (ke_first_free_cap env);
          env = env\<lparr>ke_first_free_cap := ke_first_free_cap env + 1\<rparr>;
          (r, _, e) = E (Mem_alloc_alloc len ds 0) e
      in if r < 0 then (0, env, e)
         else
           let (r, addr, e) = E (Rm_attach 0xb0000000 len Rm_Search_addr ds 0) e
           in if r < 0 then (0, env, e) else (addr, env, e))"

text \<open>The result is the capability of the heap.\<close>

definition page_alloc_init :: "'e service \<Rightarrow> (u32, 'e) throws" where
  "page_alloc_init E e =
     (let (_, heap, e) = E Cap_alloc_alloc e
      in andthen (chksys E (Mem_alloc_alloc Heap_max heap 0)) (\<lambda>_.
         andthen (chksys E (Rm_attach Heap_base Heap_max 0 heap 0)) (\<lambda>_.
         return heap)) e)"

abbreviation (input) Max_local_rm_caps :: u32 where "Max_local_rm_caps \<equiv> 1024"
abbreviation (input) L4_SCHED_MAX_PRIO :: u32 where "L4_SCHED_MAX_PRIO \<equiv> 255"

datatype kr_outcome = Kr_exit int | Kr_return int | Kr_hangs | Kr_serving

text \<open>The function of the loader thread; a program that has been started does not return here.\<close>

definition loader_thread :: "(u32 \<Rightarrow> u32 \<Rightarrow> (bool, 'e) throws) \<Rightarrow> kr_loader \<Rightarrow> 'e \<Rightarrow> kr_outcome option \<times> 'e" where
  "loader_thread launch ld e =
     (let (ok, e) = Loader_start_thread launch ld e in (if ok then None else Some (Kr_exit 1), e))"

text \<open>
  \<open>main\<close> up to the server loop, in two parts: \<open>kr_boot\<close> sets up the region map, the rest starts the
  loader. \<open>ws\<close> are the words of the vectors, \<open>binary\<close> the name in the auxiliary structure,
  \<open>get_regions\<close> and \<open>get_areas\<close> the answers of the creator's mapper. An exception returns 1; the
  loop over the regions may not end.
\<close>

definition kr_boot ::
  "'e service \<Rightarrow> 'r region_lib \<Rightarrow> (u32 \<Rightarrow> region list) \<Rightarrow> (u32 \<Rightarrow> region list) \<Rightarrow> mem_desc list \<Rightarrow>
   nat \<Rightarrow> u32 list \<Rightarrow> kr_env \<Rightarrow> 'r \<Rightarrow> 'e \<Rightarrow> ((kr_outcome + kr_env \<times> 'r) \<times> 'e) option" where
  "kr_boot E lib get_regions get_areas mds argc ws env rm e = do {
     mv \<leftarrow> read_vectors argc ws;
     if mv_aux mv = 0 then Some (Inl (Kr_exit 1), e)
     else
       let env = env\<lparr>ke_first_free_cap := ke_first_free_cap env + Max_local_rm_caps\<rparr>
       in if \<not> cap_is_valid (ke_mem_alloc env) then Some (Inl (Kr_return (- 1)), e)
          else case page_alloc_init E e of
            (Inl _, e) \<Rightarrow> Some (Inl (Kr_return 1), e)
          | (Inr heap, e) \<Rightarrow>
              let (_, _, e) = E Cap_alloc_alloc e;
                  rm = Region_map_init lib mds rm
              in case insert_regions lib (ke_rm env) get_regions get_areas rm of
                   None \<Rightarrow> Some (Inl Kr_hangs, e)
                 | Some (Inl _) \<Rightarrow> Some (Inl (Kr_exit 1), e)
                 | Some (Inr rm) \<Rightarrow> Some (Inr (env, init_local_rm lib heap rm), e)
   }"

text \<open>The result of \<open>loader.start\<close> is not looked at.\<close>

definition kr_main ::
  "'e service \<Rightarrow> 'r region_lib \<Rightarrow> (u32 \<Rightarrow> u32) \<Rightarrow> (u32 \<Rightarrow> region list) \<Rightarrow> (u32 \<Rightarrow> region list) \<Rightarrow> mem_desc list \<Rightarrow>
   byte list \<Rightarrow> nat \<Rightarrow> u32 list \<Rightarrow> kr_env \<Rightarrow> 'r \<Rightarrow> 'e \<Rightarrow> (kr_outcome \<times> 'e) option" where
  "kr_main E lib adjust_sp get_regions get_areas mds binary argc ws env rm e = do {
     (res, e) \<leftarrow> kr_boot E lib get_regions get_areas mds argc ws env rm e;
     case res of
       Inl out \<Rightarrow> Some (out, e)
     | Inr (env, rm) \<Rightarrow>
         case andthen (kr_open_file E binary) (\<lambda>bin. Loader_start E lib adjust_sp bin env rm) e of
           (Inl _, e) \<Rightarrow> Some (Kr_return 1, e)
         | (Inr (_, env, _, rm), e) \<Rightarrow>
             let (_, _, e) = E (Sched_run_thread (ke_main_thread env) L4_SCHED_MAX_PRIO) e
             in Some (Kr_serving, e)
   }"

section \<open>The contract of a region mapper\<close>

record vma =
  vm_start :: u32
  vm_size :: u32
  vm_ds :: u32
  vm_offset :: u32

definition in_vma :: "u32 \<Rightarrow> vma \<Rightarrow> bool" where
  "in_vma a v \<longleftrightarrow> unat (vm_start v) \<le> unat a \<and> unat a < unat (vm_start v) + unat (vm_size v)"

text \<open>
  Attaching with \<open>Search_addr\<close> yields a page aligned range that does not wrap and does not overlap
  another; detaching any address of a range removes it.
\<close>

locale vma_env =
  fixes E :: "'e service" and vmas :: "'e \<Rightarrow> vma set"
  assumes attach_new: "E (Rm_attach a len (Rm_Search_addr OR Rm_Read_only) ds offset) e = (r, v, e') \<Longrightarrow>
      0 \<le> r \<Longrightarrow> 0 < unat len \<Longrightarrow>
      unat v mod 4096 = 0 \<and> unat v + unat len < 4294967296 \<and>
      vmas e' = insert \<lparr>vm_start = v, vm_size = len, vm_ds = ds, vm_offset = offset\<rparr> (vmas e) \<and>
      (\<forall>w \<in> vmas e. \<forall>x. in_vma x w \<longrightarrow>
        \<not> in_vma x \<lparr>vm_start = v, vm_size = len, vm_ds = ds, vm_offset = offset\<rparr>)"
    and detach_vma: "in_vma a w \<Longrightarrow> w \<in> vmas e \<Longrightarrow> (\<forall>w' \<in> vmas e. in_vma a w' \<longrightarrow> w' = w) \<Longrightarrow>
      \<exists>r v e'. E (Rm_detach a) e = (r, v, e') \<and> 0 \<le> r \<and> vmas e' = vmas e - {w}"

end
