(* ===== verification/Kr_Vma.thy ===== *)
theory Kr_Vma
  imports Kr_Loader
begin

text \<open>
  Temporary mappings of the loaders: what \<open>local_attach_ds\<close> and \<open>local_detach_ds\<close> do under the contract
  of a region mapper, and a mapper that keeps its regions in a list and satisfies the contract.
\<close>

section \<open>Page arithmetic\<close>

lemma unat_trunc: "unat (l4_trunc_page a) = unat a div 4096 * 4096"
  unfolding l4_trunc_page_def by (rule unat_and_not_4095)

lemma unat_in_page: "unat (a - l4_trunc_page a) = unat a mod 4096"
proof -
  have "l4_trunc_page a \<le> a" by (simp add: word_le_nat_alt unat_trunc)
  then show ?thesis by (simp add: unat_sub unat_trunc minus_div_mult_eq_mod)
qed

lemma unat_round:
  assumes "unat a + 4095 < 4294967296"
  shows "unat (l4_round_page a) = (unat a + 4095) div 4096 * 4096" and "unat a \<le> unat (l4_round_page a)"
proof -
  have "unat (a + 4095) = unat a + 4095" using assms by (simp add: unat_word_ariths)
  then show *: "unat (l4_round_page a) = (unat a + 4095) div 4096 * 4096"
    unfolding l4_round_page_def unat_and_not_4095 by simp
  show "unat a \<le> unat (l4_round_page a)" unfolding * by linarith
qed

section \<open>Temporary mappings\<close>

context vma_env begin

lemma local_attach_ok:
  assumes run: "local_attach_ds E ds len offset e = (Inr a, e')"
    and len: "0 < unat len" "unat len + 8192 \<le> 4294967296" and offs: "unat offset + unat len \<le> 4294967296"
  shows "\<exists>w. vmas e' = insert w (vmas e) \<and> w \<notin> vmas e \<and> vm_ds w = ds \<and>
    unat (vm_offset w) mod 4096 = 0 \<and> unat (vm_start w) = unat a div 4096 * 4096 \<and>
    (\<forall>i < unat len. in_vma (a + of_nat i) w \<and>
      unat (a + of_nat i) - unat (vm_start w) + unat (vm_offset w) = unat offset + i) \<and>
    (\<forall>w' \<in> vmas e. \<forall>x. in_vma x w' \<longrightarrow> \<not> in_vma x w)"
proof -
  define po where "po = l4_trunc_page offset"
  define ip where "ip = offset - po"
  define ps where "ps = l4_round_page (len + ip)"
  have ip: "unat ip = unat offset mod 4096" by (simp add: ip_def po_def unat_in_page)
  then have ip4: "unat ip < 4096" by simp
  have sum: "unat (len + ip) = unat len + unat ip"
    using ip4 len(2) by (simp add: unat_word_ariths)
  have ps: "unat len + unat ip \<le> unat ps"
    using unat_round(2) [of "len + ip"] sum ip4 len(2) by (simp add: ps_def)
  obtain r v e1 where att: "E (Rm_attach 0 ps (Rm_Search_addr OR Rm_Read_only) ds po) e = (r, v, e1)"
    by (metis prod_cases3)
  with run have r: "0 \<le> r" "a = v + ip" "e' = e1"
    by (auto simp: local_attach_ds_def Let_def throws_defs po_def [symmetric] ip_def [symmetric]
        ps_def [symmetric] split: if_splits)
  define w where "w = \<lparr>vm_start = v, vm_size = ps, vm_ds = ds, vm_offset = po\<rparr>"
  have pos: "0 < unat ps" using ps len(1) by simp
  note new = attach_new [OF att r(1) pos, folded w_def]
  have au: "unat (a + of_nat i) = unat v + unat ip + i" if "i < unat len" for i
  proof -
    have "unat v + unat ip + i < 4294967296" using that new ps by simp
    moreover have "unat (of_nat i :: u32) = i"
      using that unat_u32_less [of len] by (intro unat_of_nat_u32) simp
    ultimately show ?thesis by (simp add: r(2) unat_word_ariths)
  qed
  have start: "unat (vm_start w) = unat a div 4096 * 4096"
  proof -
    have "unat a = unat v + unat ip" using au [of 0] len(1) by simp
    moreover obtain k where "unat v = 4096 * k" using new by (auto simp: mod_eq_0_iff_dvd elim: dvdE)
    ultimately show ?thesis using ip4 by (simp add: w_def)
  qed
  have "in_vma v w" using pos by (simp add: in_vma_def w_def)
  then have "w \<notin> vmas e" using new by blast
  moreover have "in_vma (a + of_nat i) w \<and>
      unat (a + of_nat i) - unat (vm_start w) + unat (vm_offset w) = unat offset + i" if "i < unat len" for i
  proof -
    have "unat po + unat ip = unat offset" by (simp add: ip po_def unat_trunc)
    with au [OF that] ps that show ?thesis by (simp add: in_vma_def w_def)
  qed
  moreover have "unat (vm_offset w) mod 4096 = 0" by (simp add: w_def po_def unat_trunc)
  ultimately show ?thesis
    using new start r(3) by (intro exI [of _ w]) (auto simp: w_def)
qed

lemma local_attach_detach:
  assumes run: "local_attach_ds E ds len offset e = (Inr a, e')"
    and len: "0 < unat len" "unat len + 8192 \<le> 4294967296" and offs: "unat offset + unat len \<le> 4294967296"
  shows "\<exists>e''. local_detach_ds E a len' e' = (Inr (), e'') \<and> vmas e'' = vmas e"
proof -
  from local_attach_ok [OF assms] obtain w where w: "vmas e' = insert w (vmas e)" "w \<notin> vmas e"
    "unat (vm_start w) = unat a div 4096 * 4096" "\<forall>i < unat len. in_vma (a + of_nat i) w"
    "\<forall>w' \<in> vmas e. \<forall>x. in_vma x w' \<longrightarrow> \<not> in_vma x w" by blast
  from w(4) len(1) have "in_vma (a + of_nat 0) w" by blast
  then have "in_vma a w" by simp
  then have tr: "in_vma (l4_trunc_page a) w" using w(3) by (simp add: in_vma_def unat_trunc)
  have "\<forall>w' \<in> vmas e'. in_vma (l4_trunc_page a) w' \<longrightarrow> w' = w" using w(1,5) tr by blast
  moreover have "w \<in> vmas e'" using w(1) by simp
  ultimately obtain r v e2 where
    "E (Rm_detach (l4_trunc_page a)) e' = (r, v, e2)" "0 \<le> r" "vmas e2 = vmas e' - {w}"
    using detach_vma [OF tr] by meson
  then show ?thesis using w(1,2) by (simp add: local_detach_ds_def throws_defs)
qed

end

section \<open>A mapper with a list of regions\<close>

definition vma_end :: "vma \<Rightarrow> nat" where "vma_end v = unat (vm_start v) + unat (vm_size v)"

definition vma_free :: "vma \<Rightarrow> vma list \<Rightarrow> bool" where
  "vma_free v vs \<longleftrightarrow> list_all (\<lambda>w. vma_end v \<le> unat (vm_start w) \<or> vma_end w \<le> unat (vm_start v)) vs"

definition next_addr :: "vma list \<Rightarrow> u32" where
  "next_addr vs = of_nat (4096 * Suc (fold (\<lambda>w m. max m (vma_end w div 4096)) vs 0))"

definition ref_mapper :: "vma list service" where
  "ref_mapper c vs =
     (case c of
        Rm_attach a len flags ds offset \<Rightarrow>
          (let v = next_addr vs; w = \<lparr>vm_start = v, vm_size = len, vm_ds = ds, vm_offset = offset\<rparr>
           in if unat v mod 4096 = 0 \<and> vma_end w < 4294967296 \<and> vma_free w vs then (0, v, w # vs)
              else (- L4_ENOMEM, 0, vs))
      | Rm_detach a \<Rightarrow>
          if list_ex (in_vma a) vs then (0, 0, filter (\<lambda>w. \<not> in_vma a w) vs) else (- L4_ENOENT, 0, vs)
      | _ \<Rightarrow> (0, 0, vs))"

lemma vma_free_disjoint:
  assumes "vma_free v vs" and "w \<in> set vs" and "in_vma x w" and "in_vma x v"
  shows False
  using assms by (force simp: vma_free_def in_vma_def vma_end_def list_all_iff)

interpretation mapper: vma_env ref_mapper set
proof
  fix a len ds offset r v e'
  fix e :: "vma list"
  assume att: "ref_mapper (Rm_attach a len (Rm_Search_addr OR Rm_Read_only) ds offset) e = (r, v, e')"
    and r: "0 \<le> r" and "0 < unat len"
  define w where "w = \<lparr>vm_start = v, vm_size = len, vm_ds = ds, vm_offset = offset\<rparr>"
  from att r have f: "unat v mod 4096 = 0" "vma_end w < 4294967296" "vma_free w e" "e' = w # e"
    by (auto simp: ref_mapper_def Let_def w_def split: if_splits)
  have "vma_end w = unat v + unat len" by (simp add: vma_end_def w_def)
  moreover have "\<forall>w' \<in> set e. \<forall>x. in_vma x w' \<longrightarrow> \<not> in_vma x w"
    using vma_free_disjoint [OF f(3)] by blast
  ultimately show "unat v mod 4096 = 0 \<and> unat v + unat len < 4294967296 \<and>
      set e' = insert \<lparr>vm_start = v, vm_size = len, vm_ds = ds, vm_offset = offset\<rparr> (set e) \<and>
      (\<forall>w \<in> set e. \<forall>x. in_vma x w \<longrightarrow>
        \<not> in_vma x \<lparr>vm_start = v, vm_size = len, vm_ds = ds, vm_offset = offset\<rparr>)"
    unfolding w_def [symmetric] using f by simp
next
  fix a w and e :: "vma list"
  assume w: "in_vma a w" "w \<in> set e" "\<forall>w' \<in> set e. in_vma a w' \<longrightarrow> w' = w"
  have "list_ex (in_vma a) e" using w(1,2) unfolding list_ex_iff by blast
  moreover have "set (filter (\<lambda>w. \<not> in_vma a w) e) = set e - {w}"
    unfolding set_filter using w by blast
  ultimately show "\<exists>r v e'. ref_mapper (Rm_detach a) e = (r, v, e') \<and> 0 \<le> r \<and> set e' = set e - {w}"
    by (simp add: ref_mapper_def)
qed

section \<open>The stack of a new program\<close>

text \<open>
  The accesses of the loader library to the stack of a program that Ned loads, each announced by
  \<open>check_access\<close>. The stack grows down: an access ends below the start of the one before.
\<close>

fun check_accesses ::
  "(u32 \<Rightarrow> u32 \<Rightarrow> 'e \<Rightarrow> int \<times> 'e) \<Rightarrow> u32 \<Rightarrow> (u32 \<times> u32) list \<Rightarrow> u32 \<Rightarrow> (u32, 'e) throws" where
  "check_accesses alloc vma [] lc e = (Inr lc, e)"
| "check_accesses alloc vma ((a, sz) # as) lc e =
     andthen (check_access alloc vma a sz lc) (check_accesses alloc vma as) e"

fun descending :: "nat \<Rightarrow> (u32 \<times> u32) list \<Rightarrow> bool" where
  "descending hi [] \<longleftrightarrow> True"
| "descending hi ((a, sz) # as) \<longleftrightarrow> unat a + unat sz \<le> hi \<and> descending (unat a) as"

text \<open>\<open>lc\<close> is the page of the last access, which started at \<open>hi\<close>; it is backed from its start to there.\<close>

definition checked_to :: "('e \<Rightarrow> nat \<Rightarrow> bool) \<Rightarrow> u32 \<Rightarrow> nat \<Rightarrow> u32 \<Rightarrow> 'e \<Rightarrow> bool" where
  "checked_to backed vma hi lc e \<longleftrightarrow> lc = 0 \<or>
     (unat lc = hi div 4096 * 4096 \<and> unat vma \<le> unat lc \<and> (\<forall>x. unat lc \<le> x \<and> x < hi \<longrightarrow> backed e (x - unat vma)))"

lemma check_access_step:
  assumes grow: "\<And>offs n e r e'. alloc offs n e = (r, e') \<Longrightarrow> 0 \<le> r \<Longrightarrow>
      (\<forall>x. backed e x \<longrightarrow> backed e' x) \<and> (\<forall>x. unat offs \<le> x \<and> x < unat offs + unat n \<longrightarrow> backed e' x)"
    and vma: "unat vma mod 4096 = 0" "4096 \<le> unat vma" "unat vma \<le> unat a"
    and hi: "unat a + unat sz \<le> hi" "hi + 4096 \<le> 4294967296"
    and run: "check_access alloc vma a sz lc e = (Inr lc', e')" and inv: "checked_to backed vma hi lc e"
  shows "checked_to backed vma (unat a) lc' e' \<and> (\<forall>x. backed e x \<longrightarrow> backed e' x) \<and>
    (\<forall>x < unat sz. backed e' (unat a - unat vma + x))"
proof -
  obtain k where k: "unat vma = 4096 * k" using vma(1) by (auto simp: mod_eq_0_iff_dvd elim: dvdE)
  have below: "unat vma \<le> unat a div 4096 * 4096" using vma(3) k by simp
  show ?thesis
  proof (cases "lc = l4_trunc_page a")
    case True
    with run have eq: "lc' = lc" "e' = e" by (simp_all add: check_access_def)
    have lc: "unat lc = unat a div 4096 * 4096" by (simp add: True unat_trunc)
    with below vma(2) have "lc \<noteq> 0" by (intro notI) simp
    with inv have b: "\<forall>x. unat lc \<le> x \<and> x < hi \<longrightarrow> backed e (x - unat vma)" by (simp add: checked_to_def)
    have le: "unat lc \<le> unat a" unfolding lc by simp
    have "backed e (unat a - unat vma + x)" if "x < unat sz" for x
      using b [rule_format, of "unat a + x"] le hi(1) that vma(3) by simp
    moreover have "checked_to backed vma (unat a) lc e"
      unfolding checked_to_def using b lc below hi(1) by auto
    ultimately show ?thesis using eq by simp
  next
    case False
    define offs where "offs = l4_trunc_page (a - vma)"
    define fin where "fin = l4_round_page (a + sz - vma)"
    obtain r e1 where al: "alloc offs (fin - offs) e = (r, e1)" by fastforce
    with run False have r: "0 \<le> r" "lc' = l4_trunc_page a" "e' = e1"
      by (auto simp: check_access_def Let_def offs_def [symmetric] fin_def [symmetric] split: if_splits)
    have av: "unat (a - vma) = unat a - unat vma" using vma(3) by (simp add: unat_sub word_le_nat_alt)
    have "unat (a + sz) = unat a + unat sz" using hi by (simp add: unat_word_ariths)
    then have asv: "unat (a + sz - vma) = unat a + unat sz - unat vma"
      using vma(3) by (simp add: unat_sub word_le_nat_alt)
    have o': "unat offs = unat a div 4096 * 4096 - unat vma"
      unfolding offs_def unat_trunc av using k le_Suc_ex [OF vma(3)] by auto
    have f: "unat a + unat sz - unat vma \<le> unat fin"
      using unat_round(2) [of "a + sz - vma"] asv hi vma(2) unfolding fin_def by simp
    have of: "unat offs \<le> unat fin" using o' f by simp
    then have d: "unat offs + unat (fin - offs) = unat fin" by (simp add: unat_sub word_le_nat_alt)
    note g = grow [OF al r(1), unfolded d]
    have b: "backed e1 (x - unat vma)" if "unat a div 4096 * 4096 \<le> x" "x < unat a + unat sz" for x
    proof -
      have "unat offs \<le> x - unat vma" "x - unat vma < unat fin" using that o' f below by auto
      with g show ?thesis by blast
    qed
    have "checked_to backed vma (unat a) lc' e1"
      unfolding checked_to_def r(2) unat_trunc using b below by auto
    moreover have "backed e1 (unat a - unat vma + x)" if "x < unat sz" for x
      using b [of "unat a + x"] that vma(3) by (simp add: trans_le_add1)
    ultimately show ?thesis using g r(3) by blast
  qed
qed

lemma check_accesses_backed:
  assumes grow: "\<And>offs n e r e'. alloc offs n e = (r, e') \<Longrightarrow> 0 \<le> r \<Longrightarrow>
      (\<forall>x. backed e x \<longrightarrow> backed e' x) \<and> (\<forall>x. unat offs \<le> x \<and> x < unat offs + unat n \<longrightarrow> backed e' x)"
    and vma: "unat vma mod 4096 = 0" "4096 \<le> unat vma"
    and "\<forall>(a, sz) \<in> set as. unat vma \<le> unat a" and "descending hi as" and "hi + 4096 \<le> 4294967296"
    and "check_accesses alloc vma as lc e = (Inr lc', e')" and "checked_to backed vma hi lc e"
  shows "(\<forall>x. backed e x \<longrightarrow> backed e' x) \<and>
    (\<forall>(a, sz) \<in> set as. \<forall>x < unat sz. backed e' (unat a - unat vma + x))"
  using assms(4-8)
proof (induction as arbitrary: hi lc e)
  case Nil
  then show ?case by simp
next
  case (Cons h as)
  obtain a sz where h: "h = (a, sz)" by fastforce
  from Cons.prems(4) h obtain l1 e1 where
    one: "check_access alloc vma a sz lc e = (Inr l1, e1)" and rest: "check_accesses alloc vma as l1 e1 = (Inr lc', e')"
    by (auto simp: andthen_def split: prod.splits sum.splits)
  have a: "unat vma \<le> unat a" "unat a + unat sz \<le> hi" "descending (unat a) as"
    using Cons.prems(1,2) h by auto
  note step = check_access_step [OF grow vma a(1,2) Cons.prems(3) one Cons.prems(5)]
  have "unat a + 4096 \<le> 4294967296" using a(2) Cons.prems(3) by simp
  from Cons.IH [OF _ a(3) this rest] step Cons.prems(1)
  have IH: "(\<forall>x. backed e1 x \<longrightarrow> backed e' x) \<and>
      (\<forall>(a, sz) \<in> set as. \<forall>x < unat sz. backed e' (unat a - unat vma + x))" by simp
  with step show ?case unfolding h by auto
qed

text \<open>A stack dataspace that remembers its pages.\<close>

definition page_ds :: "u32 \<Rightarrow> u32 \<Rightarrow> nat set \<Rightarrow> int \<times> nat set" where
  "page_ds offs n ps = (0, ps \<union> {unat offs..<unat offs + unat n})"

lemma page_ds_ascending:
  "(4096 :: nat) \<notin> snd (check_accesses page_ds 8192 [(12200, 80), (12280, 20)] 0 {})"
  by (simp add: andthen_def check_access_def page_ds_def Let_def l4_trunc_page_def l4_round_page_def)

end
