(* ===== verification/Kr_Properties.thy ===== *)
theory Kr_Properties
  imports Kr_Vma
begin

text \<open>
  The properties of the L4Re kernel: the region map it builds at start, the resolution of page faults, the
  page allocator behind \<open>mmap\<close>, the vectors on the stack of the program, and the temporary mappings of the
  loader.
\<close>

section \<open>The region map\<close>

text \<open>C29: at start every region the creator's mapper reports is attached once, in ascending order and however
  the answers are cut, with a handler that forwards faults to that mapper; of the areas, those that
  lie above the last region follow, the others are left out. Then the kernel goes on.\<close>

theorem boot_regions:
  assumes asc: "ascending xs" "ascending ys" and k: "0 < k" "0 < m"
    and top: "\<forall>r \<in> set xs \<union> set ys. r_end r \<noteq> - 1 \<and> r_start r \<noteq> 0"
    and attach: "\<And>a len h rm. a \<noteq> 0 \<Longrightarrow> fst (lr_attach lib a len h 0 rm) \<noteq> 0"
    and area: "\<And>a len rm. a \<noteq> 0 \<Longrightarrow> fst (lr_attach_area lib a len 0 rm) \<noteq> 0"
  shows "insert_regions lib cap (region_page k xs) (region_page m ys) rm =
    Some (Inr (fold (\<lambda>r rm. snd (put_area lib r rm))
        (filter (\<lambda>r. (if xs = [] then 0 else r_end (last xs) + 1) \<le> r_end r) ys)
      (fold (\<lambda>r rm. snd (put_region lib cap r rm)) xs rm)))"
proof -
  have r: "insert_loop (put_region lib cap) (region_page k xs) 0 rm =
      Some (Inr (if xs = [] then 0 else r_end (last xs) + 1, fold (\<lambda>r rm. snd (put_region lib cap r rm)) xs rm))"
    by (subst insert_loop_ok [OF asc(1) k(1)]) (use top attach in \<open>auto simp: put_region_def Let_def\<close>)
  define a where "a = (if xs = [] then 0 else r_end (last xs) + 1)"
  define rm1 where "rm1 = fold (\<lambda>r rm. snd (put_region lib cap r rm)) xs rm"
  have "insert_loop (put_area lib) (region_page m ys) a rm1 =
      Some (Inr (let F = filter (\<lambda>r. a \<le> r_end r) ys
        in (if F = [] then a else r_end (last F) + 1, fold (\<lambda>r rm. snd (put_area lib r rm)) F rm1)))"
    by (rule insert_loop_ok [OF asc(2) k(2)]) (use top area in \<open>auto simp: put_area_def\<close>)
  with r show ?thesis
    unfolding insert_regions_def a_def [symmetric] rm1_def [symmetric] by (simp add: Let_def)
qed

text \<open>A map that logs the calls, for concrete instances.\<close>

definition log_lib :: "(u32 \<times> u32) list region_lib" where
  "log_lib = \<lparr>lr_attach = (\<lambda>a len _ _ rm. (a, rm @ [(a, len)])), lr_attach_search = (\<lambda>a len _ _ rm. (a, rm @ [(a, len)])),
     lr_attach_area = (\<lambda>a len _ rm. (a, rm @ [(a, len)])), lr_set_limits = (\<lambda>_ _ rm. rm)\<rparr>"

lemma boot_regions_witness:
  "insert_regions log_lib 5
      (region_page 1 [\<lparr>r_start = 0x1000, r_end = 0x1fff\<rparr>, \<lparr>r_start = 0x4000, r_end = 0x5fff\<rparr>])
      (region_page 1 [\<lparr>r_start = 0x2000, r_end = 0x2fff\<rparr>, \<lparr>r_start = 0x8000, r_end = 0x8fff\<rparr>]) [] =
    Some (Inr [(0x1000, 0x1000), (0x4000, 0x2000), (0x8000, 0x1000)])"
proof -
  have a: "ascending [\<lparr>r_start = 0x1000, r_end = 0x1fff\<rparr>, \<lparr>r_start = 0x4000, r_end = 0x5fff\<rparr>]"
    "ascending [\<lparr>r_start = 0x2000, r_end = 0x2fff\<rparr>, \<lparr>r_start = 0x8000, r_end = 0x8fff\<rparr>]"
    "(0 :: nat) < 1" by simp_all
  show ?thesis
    by (subst boot_regions [OF a(1,2,3,3)]) (simp_all add: log_lib_def put_region_def put_area_def)
qed

text \<open>C30: if the last region ends with the address space, the next start address wraps to 0 and the loop starts
  over: the kernel never gets past it.\<close>

theorem boot_regions_wrap:
  assumes "r \<in> set xs" and "r_end r = - 1" and "0 < k" and attach: "\<And>a len h rm. fst (lr_attach lib a len h 0 rm) \<noteq> 0"
  shows "insert_regions lib cap (region_page k xs) get_areas rm = None"
proof -
  have "insert_loop (put_region lib cap) (region_page k xs) 0 rm = None"
    by (rule insert_loop_wraps [OF assms(1-3)]) (simp add: put_region_def attach)
  then show ?thesis by (simp add: insert_regions_def)
qed

definition sink_lib :: "unit region_lib" where
  "sink_lib = \<lparr>lr_attach = (\<lambda>_ _ _ _ _. (1, ())), lr_attach_search = (\<lambda>_ _ _ _ _. (1, ())),
     lr_attach_area = (\<lambda>_ _ _ _. (1, ())), lr_set_limits = (\<lambda>_ _ _. ())\<rparr>"

lemma boot_regions_wrap_witness:
  "insert_regions sink_lib 5 (region_page 8 [\<lparr>r_start = 0xfffff000, r_end = - 1\<rparr>]) (\<lambda>_. []) () = None"
  by (rule boot_regions_wrap [of "\<lparr>r_start = 0xfffff000, r_end = - 1\<rparr>"]) (simp_all add: sink_lib_def)

text \<open>A fault in a region with a dataspace maps exactly the byte of the dataspace the address stands for, within
  the range the region covers; a fault in a region copied at start goes to the creator's mapper as a
  fault message with the address and the kind of access; reserved regions and invalid capabilities
  answer \<open>-L4_ENOENT\<close> without a call.\<close>

theorem fault_resolution:
  assumes inside: "r_start r \<le> a" "a \<le> r_end r" and valid: "cap_is_valid c"
    and offs: "unat off + unat (r_end r - r_start r) < 4294967296"
  shows "(\<exists>o'. Region_ops_map D \<lparr>h_memory = c, h_client = cl, h_offset = off, h_flags = 0\<rparr> a r wr d =
        D (Ds_map c o' wr a (r_start r) (r_end r)) d \<and>
      unat o' = unat off + (unat a - unat (r_start r)) \<and> unat o' \<le> unat off + unat (r_end r - r_start r)) \<and>
    Region_ops_map D (env_handler c) a r wr d =
      (L4_EOK, snd (D (Pager_fault c (a OR (if wr then 2 else 0)) (- 3)) d)) \<and>
    Region_ops_map D \<lparr>h_memory = c, h_client = cl, h_offset = off, h_flags = Rm_Reserved\<rparr> a r wr d = (- L4_ENOENT, d) \<and>
    Region_ops_map D \<lparr>h_memory = L4_INVALID_CAP, h_client = cl, h_offset = off, h_flags = fl\<rparr> a r wr d = (- L4_ENOENT, d)"
proof -
  have le: "r_start r \<le> r_end r" using inside by simp
  have s: "unat (a - r_start r) = unat a - unat (r_start r)" "unat (r_end r - r_start r) = unat (r_end r) - unat (r_start r)"
    using inside le by (simp_all add: unat_sub)
  have "unat a - unat (r_start r) \<le> unat (r_end r - r_start r)"
    using inside s(2) by (simp add: word_le_nat_alt)
  moreover from this have "unat (a - r_start r + off) = unat off + (unat a - unat (r_start r))"
    using offs s(1) by (simp add: unat_word_ariths)
  ultimately show ?thesis
    using valid by (auto simp: Region_ops_map_def env_handler_def cap_is_valid_def)
qed

definition log_map :: "map_call \<Rightarrow> map_call list \<Rightarrow> int \<times> map_call list" where
  "log_map c d = (0, c # d)"

lemma fault_resolution_witness:
  "snd (Region_ops_map log_map (env_handler 0x1000) 0x4004 \<lparr>r_start = 0x4000, r_end = 0x4fff\<rparr> True []) =
    [Pager_fault 0x1000 0x4006 (- 3)]"
proof -
  have "\<lparr>r_start = 0x4000, r_end = 0x4fff\<rparr> = (\<lparr>r_start = 0x4000, r_end = 0x4fff\<rparr> :: region)" by simp
  have v: "cap_is_valid 0x1000" by (simp add: cap_is_valid_def)
  from fault_resolution [of "\<lparr>r_start = 0x4000, r_end = 0x4fff\<rparr>" "0x4004" "0x1000" 0 log_map 0 True "[]" 0] v
  show ?thesis by (simp add: log_map_def)
qed

section \<open>Memory of the kernel\<close>

text \<open>C32: starting with an empty heap, \<open>n\<close> requests for a page deliver \<open>min n 64\<close> distinct, page aligned pages inside
  the heap and fail after that; a freed page can be had again; requests of no or more than one page, without
  \<open>MAP_ANON\<close> or with a negative offset fail and change nothing.\<close>

theorem mmap_pages:
  assumes "item_alloc ialloc ifree taken"
  shows "(taken b = {} \<and> mmap_seq (page_alloc ialloc) n b = (rs, b') \<longrightarrow>
      distinct (filter (\<lambda>r. r \<noteq> MAP_FAILED) rs) \<and> length (filter (\<lambda>r. r \<noteq> MAP_FAILED) rs) = min n 64 \<and>
      (\<forall>r \<in> set rs. r \<noteq> MAP_FAILED \<longrightarrow>
        unat r mod 4096 = 0 \<and> 0xb0100000 \<le> unat r \<and> unat r + 4096 \<le> 0xb0140000)) \<and>
    (i \<in> taken b \<longrightarrow> (\<exists>q b''. mmap (page_alloc ialloc) 1 MAP_ANON 0 (page_free ifree (page_addr i) b) = (q, None, b''))) \<and>
    (flags AND MAP_ANON = 0 \<or> offset < 0 \<or> unat len = 0 \<or> 4096 < unat len \<longrightarrow>
      (\<exists>e. mmap (page_alloc ialloc) len flags offset b = (MAP_FAILED, Some e, b)))"
proof (intro conjI impI)
  assume seq: "taken b = {} \<and> mmap_seq (page_alloc ialloc) n b = (rs, b')"
  note l = item_alloc.heap_seq [OF assms conjunct2 [OF seq]]
  have "card (page_addr ` {..<Heap_pages}) = 64"
    by (simp add: card_image [OF page_addr_inj]) (simp add: Heap_pages_def)
  with l seq show "distinct (filter (\<lambda>r. r \<noteq> MAP_FAILED) rs)" "length (filter (\<lambda>r. r \<noteq> MAP_FAILED) rs) = min n 64"
    by simp_all
  have sub: "set (filter (\<lambda>r. r \<noteq> MAP_FAILED) rs) \<subseteq> page_addr ` {..<Heap_pages}"
    using l item_alloc.taken_bound [OF assms, of b'] by blast
  show "\<forall>r \<in> set rs. r \<noteq> MAP_FAILED \<longrightarrow>
      unat r mod 4096 = 0 \<and> 0xb0100000 \<le> unat r \<and> unat r + 4096 \<le> 0xb0140000"
  proof (intro ballI impI)
    fix r assume "r \<in> set rs" "r \<noteq> MAP_FAILED"
    with sub obtain j where "j < Heap_pages" "r = page_addr j" by auto
    with page_addr_bounds(3-5) [of j] show "unat r mod 4096 = 0 \<and> 0xb0100000 \<le> unat r \<and> unat r + 4096 \<le> 0xb0140000"
      by simp
  qed
next
  assume "i \<in> taken b"
  then have "page_addr i \<in> page_addr ` taken b" by simp
  from item_alloc.heap_reuse [OF assms this, of MAP_ANON 0 1]
  show "\<exists>q b''. mmap (page_alloc ialloc) 1 MAP_ANON 0 (page_free ifree (page_addr i) b) = (q, None, b'')"
    by (auto simp: MAP_ANON_def)
next
  assume "flags AND MAP_ANON = 0 \<or> offset < 0 \<or> unat len = 0 \<or> 4096 < unat len"
  from item_alloc.heap_refused [OF assms this]
  show "\<exists>e. mmap (page_alloc ialloc) len flags offset b = (MAP_FAILED, Some e, b)" .
qed

lemma mmap_pages_witness:
  "\<exists>rs b'. mmap_seq (page_alloc bm_alloc) 70 0 = (rs, b') \<and> length (filter (\<lambda>r. r \<noteq> MAP_FAILED) rs) = 64"
proof -
  obtain rs b' where s: "mmap_seq (page_alloc bm_alloc) 70 0 = (rs, b')" by fastforce
  have "bm_taken 0 = {}" by (simp add: bm_taken_def)
  with mmap_pages [OF bitmap.item_alloc_axioms, of 0 70 rs b'] s show ?thesis by auto
qed

section \<open>The stack of the program\<close>

text \<open>C33: after \<open>push_envp\<close> and \<open>push_argv\<close> the stack holds the argument count and vectors from which a program
  reads its arguments in order, the environment strings in reverse order and the auxiliary entry of the
  words that were on the stack before; the pushes do not leave the stack while there is room.\<close>

theorem launch_vectors:
  assumes "stack_ok s" and "4 * (length envp + length argv + 3) \<le> stack_room s" and "0 \<notin> set envp"
    and "find_aux (stack_words s) 0 = Some aux"
  shows "\<exists>s1 s2 ws. push_envp envp s = Some s1 \<and> push_argv argv s1 = Some s2 \<and> stack_ok s2 \<and>
    stack_words s2 = of_nat (length argv) # ws \<and>
    read_vectors (length argv) ws = Some \<lparr>mv_argv = argv, mv_envp = rev envp, mv_aux = aux\<rparr>"
proof -
  from push_vectors_ok [OF assms(1,2)] obtain s1 s2 where
    "push_envp envp s = Some s1" "push_argv argv s1 = Some s2" "stack_ok s2"
    "stack_words s2 = of_nat (length argv) # argv @ 0 # rev envp @ 0 # stack_words s" by blast
  moreover have "0 \<notin> set (rev envp)" using assms(3) by simp
  ultimately show ?thesis using read_vectors_append [OF _ assms(4), of "rev envp" argv] by blast
qed

lemma launch_vectors_witness:
  "\<exists>s1 s2 ws. push_envp [21, 22] \<lparr>st_addr = 0, st_size = 64, st_sp = 4156, st_base = 4096, st_mem = mzero 64\<rparr> = Some s1 \<and>
    push_argv [11, 12, 13] s1 = Some s2 \<and> stack_words s2 = 3 # ws \<and>
    read_vectors 3 ws = Some \<lparr>mv_argv = [11, 12, 13], mv_envp = [22, 21], mv_aux = 0\<rparr>"
proof -
  let ?s = "\<lparr>st_addr = 0, st_size = 64, st_sp = 4156, st_base = 4096, st_mem = mzero 64\<rparr>"
  have ok: "stack_ok ?s" "stack_room ?s = 60" by (simp_all add: stack_ok_def stack_room_def mzero_def)
  have "[60..<64] = [60, 61, 62, 63 :: nat]" by (simp add: upt_rec)
  then have w: "stack_words ?s = [0]"
    by (simp add: stack_words_def stack_room_def mzero_def dec32_def)
  have h: "4 * (length [21, 22 :: u32] + length [11, 12, 13 :: u32] + 3) \<le> stack_room ?s" "0 \<notin> set [21, 22 :: u32]"
    "find_aux (stack_words ?s) 0 = Some 0" by (simp_all add: ok(2) w)
  have "length [11, 12, 13 :: u32] = 3" by simp
  from launch_vectors [OF ok(1) h, unfolded this] show ?thesis by auto
qed

section \<open>Temporary mappings\<close>

text \<open>C34: the address \<open>local_attach_ds\<close> returns stands for byte \<open>offset\<close> of the dataspace, and all \<open>len\<close> bytes from
  there lie in one region that overlaps no other; \<open>local_detach_ds\<close> with that address removes
  exactly this region.\<close>

theorem temporary_mapping:
  assumes "vma_env E vmas" and "local_attach_ds E ds len offset e = (Inr a, e')"
    and "0 < unat len" and "unat len + 8192 \<le> 4294967296" and "unat offset + unat len \<le> 4294967296"
  shows "(\<exists>w. vmas e' = insert w (vmas e) \<and> w \<notin> vmas e \<and> vm_ds w = ds \<and>
      (\<forall>i < unat len. in_vma (a + of_nat i) w \<and>
        unat (a + of_nat i) - unat (vm_start w) + unat (vm_offset w) = unat offset + i) \<and>
      (\<forall>w' \<in> vmas e. \<forall>x. in_vma x w' \<longrightarrow> \<not> in_vma x w)) \<and>
    (\<exists>e''. local_detach_ds E a len e' = (Inr (), e'') \<and> vmas e'' = vmas e)"
  using vma_env.local_attach_ok [OF assms] vma_env.local_attach_detach [OF assms] by blast

lemma temporary_mapping_witness:
  "\<exists>a e' e''. local_attach_ds ref_mapper 7 100 5000 [] = (Inr a, e') \<and> length e' = 1 \<and>
    local_detach_ds ref_mapper a 100 e' = (Inr (), e'') \<and> set e'' = {}"
proof -
  have "next_addr [] = 4096" by (simp add: next_addr_def)
  then obtain a e' where att: "local_attach_ds ref_mapper 7 100 5000 [] = (Inr a, e')" "length e' = 1"
    by (simp add: local_attach_ds_def l4_trunc_page_def l4_round_page_def throws_defs ref_mapper_def
        vma_end_def vma_free_def)
  from temporary_mapping [OF mapper.vma_env_axioms att(1)] att show ?thesis by auto
qed

section \<open>The stack of a new program\<close>

text \<open>C35: Ned writes to the stack of a new program through a local attachment at \<open>vma\<close>. If every access ends
  below the start of the one before, as on a stack that grows down, each byte accessed lies in a page
  for which \<open>check_access\<close> has called \<open>allocate\<close>, although it remembers only the page of the last access. In
  the other order this fails: of 20 bytes that run from the remembered page into the next one, the ninth is
  not allocated.\<close>

theorem stack_accesses_backed:
  assumes "\<And>offs n e r e'. alloc offs n e = (r, e') \<Longrightarrow> 0 \<le> r \<Longrightarrow>
      (\<forall>x. backed e x \<longrightarrow> backed e' x) \<and> (\<forall>x. unat offs \<le> x \<and> x < unat offs + unat n \<longrightarrow> backed e' x)"
    and "unat vma mod 4096 = 0" and "4096 \<le> unat vma"
    and "\<forall>(a, sz) \<in> set as. unat vma \<le> unat a" and "descending hi as" and "hi + 4096 \<le> 4294967296"
    and "check_accesses alloc vma as 0 e = (Inr lc, e')"
  shows "(\<forall>(a, sz) \<in> set as. \<forall>x < unat sz. backed e' (unat a - unat vma + x)) \<and>
    12280 - 8192 + 8 \<notin> snd (check_accesses page_ds 8192 [(12200, 80), (12280, 20)] 0 {})"
proof
  show "\<forall>(a, sz) \<in> set as. \<forall>x < unat sz. backed e' (unat a - unat vma + x)"
    by (rule check_accesses_backed [of alloc backed vma as hi 0 e lc, THEN conjunct2])
      (use assms in \<open>auto simp: checked_to_def\<close>)
  show "12280 - 8192 + 8 \<notin> snd (check_accesses page_ds 8192 [(12200, 80), (12280, 20)] 0 {})"
    using page_ds_ascending by (simp del: check_accesses.simps)
qed

lemma stack_accesses_backed_witness:
  "\<exists>lc ps. check_accesses page_ds 8192 [(16300, 84), (12200, 4100)] 0 {} = (Inr lc, ps) \<and>
    (\<forall>x < 84. 8108 + x \<in> ps) \<and> (\<forall>x < 4100. 4008 + x \<in> ps)"
proof -
  obtain lc ps where run: "check_accesses page_ds 8192 [(16300, 84), (12200, 4100)] 0 {} = (Inr lc, ps)"
    by (simp add: andthen_def check_access_def page_ds_def Let_def l4_trunc_page_def l4_round_page_def)
  have "\<forall>(a, sz) \<in> set [(16300 :: u32, 84 :: u32), (12200, 4100)]. \<forall>x < unat sz. unat a - unat (8192 :: u32) + x \<in> ps"
    by (rule stack_accesses_backed [of page_ds "\<lambda>e x. x \<in> e" _ _ 16384, OF _ _ _ _ _ _ run, THEN conjunct1])
      (auto simp: page_ds_def)
  with run show ?thesis by (intro exI [of _ lc] exI [of _ ps]) simp
qed

end
