(* ===== verification/Kr_Start.thy ===== *)
theory Kr_Start
  imports Kr_Loader
begin

text \<open>
  What the start of the L4Re kernel asks of its environment, and in which order: the services of
  \<open>Kr_Loader\<close> with a record of the calls and their results. It shows when the thread that loads the
  program is set running.
\<close>

section \<open>Recording the calls\<close>

type_synonym call_log = "(env_call \<times> int) list"

definition logged :: "'e service \<Rightarrow> (call_log \<times> 'e) service" where
  "logged E c = (\<lambda>(l, e). let (r, v, e) = E c e in (r, v, l @ [(c, r)], e))"

lemma logged_eq: "logged E c (l, e) = (r, v, l', e') \<longleftrightarrow> E c e = (r, v, e') \<and> l' = l @ [(c, r)]"
  by (auto simp: logged_def split: prod.splits)

text \<open>Calls that set up memory and capabilities, as opposed to those that make threads run.\<close>

fun thread_call :: "env_call \<Rightarrow> bool" where
  "thread_call (Factory_create_thread _) = True"
| "thread_call (Thread_control _ _ _) = True"
| "thread_call (Sched_run_thread _ _) = True"
| "thread_call (Thread_ex_regs _ _) = True"
| "thread_call _ = False"

definition quiet :: "call_log \<Rightarrow> bool" where
  "quiet l \<longleftrightarrow> (\<forall>(c, r) \<in> set l. \<not> thread_call c)"

lemma quiet_simps [simp]:
  "quiet []" "quiet ((c, r) # l) \<longleftrightarrow> \<not> thread_call c \<and> quiet l" "quiet (l @ l') \<longleftrightarrow> quiet l \<and> quiet l'"
  by (auto simp: quiet_def)

section \<open>The parts of the start\<close>

lemma logged_split:
  "P (logged E c s) \<longleftrightarrow> (\<forall>r v e'. E c (snd s) = (r, v, e') \<longrightarrow> P (r, v, fst s @ [(c, r)], e'))"
  by (cases s) (auto simp: logged_def split: prod.splits)

lemma page_alloc_init_log:
  assumes "page_alloc_init (logged E) (l, e) = (res, l', e')"
  shows "\<exists>cs. l' = l @ cs \<and> quiet cs"
  using assms
  by (auto simp: page_alloc_init_def throws_defs Let_def logged_def split: prod.splits if_splits)

lemma kr_boot_log:
  assumes "kr_boot (logged E) lib get_regions get_areas mds argc ws env rm (l, e) = Some (res, l', e')"
  shows "(\<exists>cs. l' = l @ cs \<and> quiet cs) \<and>
    (\<forall>env' rm'. res = Inr (env', rm') \<longrightarrow>
      env' = env\<lparr>ke_first_free_cap := ke_first_free_cap env + Max_local_rm_caps\<rparr>) \<and>
    (\<forall>out. res = Inl out \<longrightarrow> out \<noteq> Kr_serving)"
proof -
  obtain h l1 e1 where p: "page_alloc_init (logged E) (l, e) = (h, l1, e1)" by (metis prod_cases3)
  from page_alloc_init_log [OF this] obtain cs where cs: "l1 = l @ cs" "quiet cs" by blast
  show ?thesis
    using assms p cs
    by (auto simp: kr_boot_def Let_def logged_def split: bind_splits if_splits sum.splits option.splits prod.splits)
qed

text \<open>
  Calls made one after the other until one fails: \<open>f\<close> is the error of the last, \<open>None\<close> if all have
  succeeded.
\<close>

fun runs :: "env_call list \<Rightarrow> call_log \<Rightarrow> int option \<Rightarrow> bool" where
  "runs [] ts f \<longleftrightarrow> ts = [] \<and> f = None"
| "runs (c # cs) ts f \<longleftrightarrow>
     (case ts of
        [] \<Rightarrow> False
      | (c', r) # ts' \<Rightarrow> c' = c \<and> (if r < 0 then ts' = [] \<and> f = Some r else runs cs ts' f))"

definition launch_seq :: "u32 \<Rightarrow> u32 \<Rightarrow> u32 \<Rightarrow> u32 \<Rightarrow> env_call list" where
  "launch_seq t pager utcb sp =
     [Factory_create_thread t, Thread_control t pager utcb, Sched_run_thread t 2, Thread_ex_regs t sp]"

lemma Loader_start_log:
  assumes "Loader_start (logged E) lib adjust_sp bin env rm (l, e) = (res, l', e')"
  shows "\<exists>cs ts. l' = l @ cs @ ts \<and> quiet cs \<and>
    (ts = [] \<and> (\<exists>rm'. res = Inr (False, env, None, rm')) \<or>
     (\<exists>sp f. runs (launch_seq (push_bit L4_CAP_SHIFT (ke_first_free_cap env)) (ke_main_thread env)
         (ke_first_free_utcb env) sp) ts f \<and>
       (case f of
          Some r \<Rightarrow> res = Inl r
        | None \<Rightarrow> \<exists>env' ld rm'. res = Inr (True, env', Some ld, rm') \<and> ke_main_thread env' = ke_main_thread env)))"
proof -
  obtain r1 ds e1 where a1: "E Cap_alloc_alloc e = (r1, ds, e1)" by (metis prod_cases3)
  obtain r2 v2 e2 where a2: "E (Mem_alloc_alloc Loader_stack_size ds 0) e1 = (r2, v2, e2)" by (metis prod_cases3)
  let ?cs = "[(Cap_alloc_alloc, r1), (Mem_alloc_alloc Loader_stack_size ds 0, r2)]"
  obtain sp rm1 where a3: "lr_attach_search lib Loader_vma_start Loader_stack_size
      \<lparr>h_memory = ds, h_client = ds, h_offset = 0, h_flags = 0\<rparr> 0 rm = (sp, rm1)" by fastforce
  show ?thesis
  proof (cases "cap_is_valid ds \<and> sp \<noteq> L4_INVALID_PTR")
    case False
    have "l' = l @ ?cs @ [] \<and> res = Inr (False, env, None, if cap_is_valid ds then rm1 else rm)"
      using assms a1 a2 a3 False
      by (cases "cap_is_valid ds") (simp_all add: Loader_start_def logged_def Let_def return_def)
    then show ?thesis by (intro exI [of _ ?cs] exI [of _ "[]"]) simp
  next
    case True
    obtain r4 v4 e4 where a4: "E (Rm_attach sp Loader_stack_size 0 ds 0) e2 = (r4, v4, e4)" by (metis prod_cases3)
    let ?t = "push_bit L4_CAP_SHIFT (ke_first_free_cap env)" and ?p = "ke_main_thread env"
      and ?u = "ke_first_free_utcb env" and ?sp = "adjust_sp ((if r4 < 0 then sp else v4) + Loader_stack_size - 4)"
    obtain s1 w1 f1 where b1: "E (Factory_create_thread ?t) e4 = (s1, w1, f1)" by (metis prod_cases3)
    obtain s2 w2 f2 where b2: "E (Thread_control ?t ?p ?u) f1 = (s2, w2, f2)" by (metis prod_cases3)
    obtain s3 w3 f3 where b3: "E (Sched_run_thread ?t 2) f2 = (s3, w3, f3)" by (metis prod_cases3)
    obtain s4 w4 f4 where b4: "E (Thread_ex_regs ?t ?sp) f3 = (s4, w4, f4)" by (metis prod_cases3)
    let ?seq = "[(Factory_create_thread ?t, s1), (Thread_control ?t ?p ?u, s2), (Sched_run_thread ?t 2, s3),
      (Thread_ex_regs ?t ?sp, s4)]"
    define ts where "ts = take (if s1 < 0 then 1 else if s2 < 0 then 2 else if s3 < 0 then 3 else 4) ?seq"
    define f where "f = (if s1 < 0 then Some s1 else if s2 < 0 then Some s2 else if s3 < 0 then Some s3
      else if s4 < 0 then Some s4 else None)"
    have "runs (launch_seq ?t ?p ?u ?sp) ts f" by (simp add: launch_seq_def ts_def f_def)
    moreover have "l' = l @ (?cs @ [(Rm_attach sp Loader_stack_size 0 ds 0, r4)]) @ ts \<and>
      (case f of
          Some r \<Rightarrow> res = Inl r
        | None \<Rightarrow> \<exists>env' ld rm'. res = Inr (True, env', Some ld, rm') \<and> ke_main_thread env' = ke_main_thread env)"
      using assms True a1 a2 a3 a4 b1 b2 b3 b4
      by (auto simp: Loader_start_def logged_def Let_def throws_defs ts_def f_def split: if_splits)
    ultimately show ?thesis
      by (intro exI [of _ "?cs @ [(Rm_attach sp Loader_stack_size 0 ds 0, r4)]"] exI [of _ ts] conjI disjI2
          exI [of _ ?sp] exI [of _ f]) simp_all
  qed
qed

text \<open>C31: What the L4Re kernel does with threads when it starts, whatever its environment answers. Nothing is
  asked of a thread before the set-up; then a thread with a capability above the kernel's own is created,
  given its pager, scheduled and set running, in this order. The first of these calls that fails is the
  last one made, and \<open>main\<close> returns 1. If the kernel comes to serve, then either all of them have succeeded, or
  the stack of the thread could not be had and none was made: the kernel serves without a program.
\<close>

theorem kernel_start_order:
  assumes "kr_main (logged E) lib adjust_sp get_regions get_areas mds binary argc ws env rm ([], e) = Some (out, calls, e')"
  shows "\<exists>cs ts sp f. calls = cs @ ts \<and> quiet cs \<and>
    (let seq = launch_seq (push_bit L4_CAP_SHIFT (ke_first_free_cap env + Max_local_rm_caps)) (ke_main_thread env)
         (ke_first_free_utcb env) sp
     in ts = [] \<and> out \<noteq> Kr_serving \<or>
        runs seq ts (Some f) \<and> out = Kr_return 1 \<or>
        (\<exists>us r. ts = us @ [(Sched_run_thread (ke_main_thread env) L4_SCHED_MAX_PRIO, r)] \<and>
          (us = [] \<or> runs seq us None) \<and> out = Kr_serving))"
proof -
  from assms obtain res l1 e1 where boot: "kr_boot (logged E) lib get_regions get_areas mds argc ws env rm ([], e) =
      Some (res, l1, e1)"
    by (auto simp: kr_main_def split: bind_splits)
  from kr_boot_log [OF this] obtain cs where cs: "l1 = cs" "quiet cs" by auto
  show ?thesis
  proof (cases res)
    case (Inl out')
    with assms boot kr_boot_log [OF boot] cs show ?thesis
      by (intro exI [of _ cs] exI [of _ "[]"]) (auto simp: kr_main_def)
  next
    case (Inr er)
    then obtain env1 rm1 where r: "res = Inr (env1, rm1)" by (cases er) auto
    with kr_boot_log [OF boot] have env1: "ke_first_free_cap env1 = ke_first_free_cap env + Max_local_rm_caps"
      "ke_main_thread env1 = ke_main_thread env" "ke_first_free_utcb env1 = ke_first_free_utcb env" by auto
    obtain r2 bin e2 where q: "E (Ns_query binary) e1 = (r2, bin, e2)" by (metis prod_cases3)
    have opened: "kr_open_file (logged E) binary (l1, e1) =
        (if cap_is_valid bin then Inr bin else Inl 0, l1 @ [(Ns_query binary, r2)], e2)"
      using q by (simp add: kr_open_file_def chkcap_def logged_def)
    let ?cs = "cs @ [(Ns_query binary, r2)]"
    show ?thesis
    proof (cases "cap_is_valid bin")
      case False
      with assms boot r opened cs show ?thesis
        by (intro exI [of _ ?cs] exI [of _ "[]"]) (auto simp: kr_main_def andthen_def)
    next
      case True
      obtain lres l3 e3 where ls: "Loader_start (logged E) lib adjust_sp bin env1 rm1 (?cs, e2) = (lres, l3, e3)"
        by (metis prod_cases3)
      from Loader_start_log [OF this] obtain ds ts where
        l3: "l3 = ?cs @ ds @ ts" "quiet ds" and ts: "ts = [] \<and> (\<exists>rm'. lres = Inr (False, env1, None, rm')) \<or>
          (\<exists>sp f. runs (launch_seq (push_bit L4_CAP_SHIFT (ke_first_free_cap env1)) (ke_main_thread env1)
              (ke_first_free_utcb env1) sp) ts f \<and>
            (case f of
               Some r \<Rightarrow> lres = Inl r
             | None \<Rightarrow> \<exists>env' ld rm'. lres = Inr (True, env', Some ld, rm') \<and> ke_main_thread env' = ke_main_thread env1))"
        by blast
      have quiet: "quiet (?cs @ ds)" using cs(2) l3(2) by simp
      have main: "kr_main (logged E) lib adjust_sp get_regions get_areas mds binary argc ws env rm ([], e) =
          (case lres of
             Inl _ \<Rightarrow> Some (Kr_return 1, l3, e3)
           | Inr (_, env, _, rm) \<Rightarrow>
               let (_, _, s) = logged E (Sched_run_thread (ke_main_thread env) L4_SCHED_MAX_PRIO) (l3, e3)
               in Some (Kr_serving, s))"
        using boot r opened True ls cs(1) by (simp add: kr_main_def andthen_def)
      show ?thesis
      proof (cases lres)
        case (Inl x)
        with ts obtain sp where "runs (launch_seq (push_bit L4_CAP_SHIFT (ke_first_free_cap env1)) (ke_main_thread env1)
              (ke_first_free_utcb env1) sp) ts (Some x)"
          by (auto split: option.splits)
        with Inl main assms l3(1) quiet show ?thesis
          by (intro exI [of _ "?cs @ ds"] exI [of _ ts] exI [of _ sp] exI [of _ x]) (simp add: env1 Let_def)
      next
        case (Inr y)
        obtain r3 v3 e4 where fin: "E (Sched_run_thread (ke_main_thread env) L4_SCHED_MAX_PRIO) e3 = (r3, v3, e4)"
          by (metis prod_cases3)
        from ts Inr obtain b env2 ld rm2 sp where y: "y = (b, env2, ld, rm2)" "ke_main_thread env2 = ke_main_thread env"
          and us: "ts = [] \<or> runs (launch_seq (push_bit L4_CAP_SHIFT (ke_first_free_cap env1)) (ke_main_thread env1)
              (ke_first_free_utcb env1) sp) ts None"
          using env1(2) by (auto split: option.splits) blast
        from main assms Inr y fin l3(1) have "out = Kr_serving"
          "calls = (?cs @ ds) @ ts @ [(Sched_run_thread (ke_main_thread env) L4_SCHED_MAX_PRIO, r3)]"
          by (simp_all add: logged_def)
        with quiet us show ?thesis
          by (intro exI [of _ "?cs @ ds"] exI [of _ "ts @ [(Sched_run_thread (ke_main_thread env) L4_SCHED_MAX_PRIO, r3)]"]
              exI [of _ sp] exI [of _ 0]) (auto simp: env1 Let_def)
      qed
    qed
  qed
qed

text \<open>An environment in which every call succeeds.\<close>

definition calm :: "unit service" where
  "calm c e = (0, (case c of Rm_attach a _ _ _ _ \<Rightarrow> a | _ \<Rightarrow> 0x1000), ())"

definition calm_lib :: "unit region_lib" where
  "calm_lib = \<lparr>lr_attach = (\<lambda>a _ _ _ _. (a, ())), lr_attach_search = (\<lambda>a _ _ _ _. (a, ())),
     lr_attach_area = (\<lambda>a _ _ _. (a, ())), lr_set_limits = (\<lambda>_ _ _. ())\<rparr>"

definition calm_env :: kr_env where
  "calm_env = \<lparr>ke_rm = 0x3000, ke_main_thread = 0x4000, ke_mem_alloc = 0x5000, ke_first_free_cap = 0x40,
     ke_first_free_utcb = 0xb3000000\<rparr>"

lemma kernel_start_order_witness:
  "\<exists>cs us r. kr_main (logged calm) calm_lib id (\<lambda>_. []) (\<lambda>_. []) [] ''rom/hello'' 0 [0, 0, 0xf0, 0x7000, 0]
       calm_env () ([], ()) = Some (Kr_serving, cs @ us @ [(Sched_run_thread 0x4000 L4_SCHED_MAX_PRIO, r)], ()) \<and> quiet cs"
proof -
  have v: "cap_is_valid 0x1000" "cap_is_valid 0x5000" by (simp_all add: cap_is_valid_def)
  have vec: "read_vectors 0 [0, 0, 0xf0, 0x7000, 0] = Some \<lparr>mv_argv = [], mv_envp = [], mv_aux = 0x7000\<rparr>"
    by (simp add: read_vectors_def)
  have ins: "insert_regions calm_lib x (\<lambda>_. []) (\<lambda>_. []) () = Some (Inr ())" for x
    by (simp add: insert_regions_def insert_loop.simps)
  obtain b l where boot: "kr_boot (logged calm) calm_lib (\<lambda>_. []) (\<lambda>_. []) [] 0 [0, 0, 0xf0, 0x7000, 0] calm_env () ([], ()) =
      Some (Inr (b, ()), l, ())"
    using v ins by (simp add: kr_boot_def vec Let_def logged_def calm_def page_alloc_init_def throws_defs calm_env_def)
  then obtain l' where run: "kr_main (logged calm) calm_lib id (\<lambda>_. []) (\<lambda>_. []) [] ''rom/hello'' 0 [0, 0, 0xf0, 0x7000, 0]
       calm_env () ([], ()) = Some (Kr_serving, l', ())"
    using v by (simp add: kr_main_def kr_open_file_def Loader_start_def throws_defs Let_def logged_def calm_def calm_lib_def)
  have main: "ke_main_thread calm_env = 0x4000" by (simp add: calm_env_def)
  from kernel_start_order [OF run, unfolded main] run show ?thesis by (fastforce simp: Let_def)
qed

end
