(* ===== verification/Ned_Caps.thy ===== *)
theory Ned_Caps
  imports Kr_Regions
begin

text \<open>
  Capabilities as Lua values in Ned (dom0-ned: lua_cap.h, lua_cap.cc, lua_ns.cc, lua_factory.cc,
  lua_env.cc).

  A C function called from Lua gets its arguments as a list and answers a value or raises an error
  (\<open>Inl\<close>); a function value is a closure with its upvalues. \<open>None\<close> is undefined behaviour. A
  capability is a userdata of class \<open>Cap\<close>; no function changes one that a program already holds, so it
  is modelled by its contents. The name space, the object factory and the capability allocator are
  parameters.
\<close>

type_synonym u16 = "16 word"

abbreviation (input) L4_CAP_FPAGE_W :: u32 where "L4_CAP_FPAGE_W \<equiv> 0x1"
abbreviation (input) L4_CAP_FPAGE_S :: u32 where "L4_CAP_FPAGE_S \<equiv> 0x2"
abbreviation (input) L4_CAP_FPAGE_R :: u32 where "L4_CAP_FPAGE_R \<equiv> 0x4"
abbreviation (input) L4_CAP_FPAGE_D :: u32 where "L4_CAP_FPAGE_D \<equiv> 0x8"
abbreviation (input) L4_CAP_FPAGE_RWS :: u8 where "L4_CAP_FPAGE_RWS \<equiv> 0x7"
abbreviation (input) L4_FPAGE_RO :: u16 where "L4_FPAGE_RO \<equiv> 0x4"

section \<open>Class Cap\<close>

record lua_cap =
  lc_cap :: u32
  lc_rights :: u16
  lc_flags :: u16

definition Cap_new :: "u32 \<Rightarrow> u16 \<Rightarrow> lua_cap" where
  "Cap_new c flags = \<lparr>lc_cap = c, lc_rights = L4_FPAGE_RO, lc_flags = flags\<rparr>"

definition cap_set :: "u32 \<Rightarrow> lua_cap \<Rightarrow> lua_cap" where
  "cap_set c n = n\<lparr>lc_cap := c\<rparr>"

definition ext_rights :: "lua_cap \<Rightarrow> u32" where
  "ext_rights n = ucast (lc_rights n) AND 0xf0"

definition all_rights :: "lua_cap \<Rightarrow> u32" where
  "all_rights n = ucast (lc_rights n)"

definition cap_rights :: "lua_cap \<Rightarrow> u32" where
  "cap_rights n = ucast (lc_rights n AND 0xf)"

definition trim_rights :: "u32 \<Rightarrow> lua_cap \<Rightarrow> lua_cap" where
  "trim_rights keep n = n\<lparr>lc_rights := ucast (ucast (lc_rights n) AND (keep OR push_bit 4 (NOT 0)) :: u32)\<rparr>"

definition set_flags :: "u32 \<Rightarrow> lua_cap \<Rightarrow> lua_cap" where
  "set_flags flags n = n\<lparr>lc_flags := lc_flags n OR ucast flags\<rparr>"

definition set_rights :: "u8 \<Rightarrow> lua_cap \<Rightarrow> lua_cap" where
  "set_rights r n = n\<lparr>lc_rights := ucast r OR L4_FPAGE_RO\<rparr>"

text \<open>The test for self-assignment does not change the result.\<close>

definition cap_assign :: "lua_cap \<Rightarrow> lua_cap \<Rightarrow> lua_cap" where
  "cap_assign other n = n\<lparr>lc_cap := lc_cap other, lc_rights := lc_rights other\<rparr>"

section \<open>Lua values\<close>

datatype lval =
    LNil | LBool bool | LInt u32 | LStr "byte list" | LCap lua_cap
  | LTable | LUserdata  \<comment> \<open>a table; a userdata of another class\<close>
  | LUser nat  \<comment> \<open>a function of the program\<close>
  | LLookup lval lval lval  \<comment> \<open>\<open>__lookup\<close> with its upvalues\<close>
  | LLink lval lval lval  \<comment> \<open>\<open>__register_link\<close> with its upvalues\<close>

type_synonym lresult = "string + lval"

definition lua_isfunction :: "lval \<Rightarrow> bool" where
  "lua_isfunction v = (case v of LUser _ \<Rightarrow> True | LLookup _ _ _ \<Rightarrow> True | LLink _ _ _ \<Rightarrow> True | _ \<Rightarrow> False)"

text \<open>
  The conversions of the Lua library. \<open>lua_tolstring\<close> of a value that is no string and no number
  delivers no characters; \<open>luaL_checkstring\<close> raises an error then.
\<close>

record conversions =
  cv_tonumber :: "byte list \<Rightarrow> u32 option"
  cv_tostr :: "u32 \<Rightarrow> byte list"

definition lua_isnumber :: "conversions \<Rightarrow> lval \<Rightarrow> bool" where
  "lua_isnumber cv v =
     (case v of LInt _ \<Rightarrow> True | LStr s \<Rightarrow> cv_tonumber cv s \<noteq> None | _ \<Rightarrow> False)"

definition lua_tointeger :: "conversions \<Rightarrow> lval \<Rightarrow> u32" where
  "lua_tointeger cv v =
     (case v of LInt i \<Rightarrow> i | LStr s \<Rightarrow> (case cv_tonumber cv s of Some i \<Rightarrow> i | None \<Rightarrow> 0) | _ \<Rightarrow> 0)"

definition lua_checkstring :: "conversions \<Rightarrow> lval \<Rightarrow> byte list option" where
  "lua_checkstring cv v = (case v of LStr s \<Rightarrow> Some s | LInt i \<Rightarrow> Some (cv_tostr cv i) | _ \<Rightarrow> None)"

text \<open>A C string ends at the first terminator, also one that is in the middle of a Lua string.\<close>

definition c_str :: "byte list \<Rightarrow> byte list" where
  "c_str s = takeWhile (\<lambda>c. c \<noteq> NUL) s"

definition lua_tolstring :: "conversions \<Rightarrow> lval \<Rightarrow> byte list" where
  "lua_tolstring cv v = (case lua_checkstring cv v of Some s \<Rightarrow> s | None \<Rightarrow> [])"

text \<open>The argument at position \<open>i\<close>; beyond the last it is none, which reads as nil.\<close>

definition lua_arg :: "lval list \<Rightarrow> nat \<Rightarrow> lval" where
  "lua_arg args i = (if i < length args then args ! i else LNil)"

section \<open>Rights of a capability\<close>

definition cap_with_rights :: "lua_cap \<Rightarrow> u32 \<Rightarrow> lua_cap" where
  "cap_with_rights n r = (if all_rights n = r then n else set_rights (ucast r) n)"

definition mode_letter :: "byte \<Rightarrow> u32 \<Rightarrow> u32" where
  "mode_letter c rights =
     (if c = CHR ''r'' \<or> c = CHR ''R'' then rights OR L4_CAP_FPAGE_R
      else if c = CHR ''w'' \<or> c = CHR ''W'' then rights OR L4_CAP_FPAGE_W
      else if c = CHR ''s'' \<or> c = CHR ''S'' then rights OR L4_CAP_FPAGE_S
      else if c = CHR ''d'' \<or> c = CHR ''D'' then rights OR L4_CAP_FPAGE_D
      else if c = CHR ''n'' \<or> c = CHR ''N'' then rights OR 0x10
      else if c = CHR ''c'' \<or> c = CHR ''C'' then rights OR 0x20
      else rights)"

definition parse_mode :: "byte list \<Rightarrow> u32" where
  "parse_mode s = fold mode_letter (c_str s) L4_CAP_FPAGE_R"

text \<open>
  The methods \<open>mode\<close>, \<open>rights\<close> and \<open>m\<close>. An argument that is neither a number nor a string makes
  \<open>lua_tostring\<close> return the null pointer, which the loop reads.
\<close>

definition set_mode_call :: "conversions \<Rightarrow> lua_cap \<Rightarrow> lval list \<Rightarrow> lresult option" where
  "set_mode_call cv n args =
     (case args of
        [] \<Rightarrow> Some (Inr (LInt (cap_rights n)))
      | v # _ \<Rightarrow>
          if v = LNil then Some (Inr (LInt (cap_rights n)))
          else if lua_isnumber cv v then Some (Inr (LCap (cap_with_rights n (lua_tointeger cv v))))
          else case v of
            LStr s \<Rightarrow> Some (Inr (LCap (cap_with_rights n (parse_mode s))))
          | _ \<Rightarrow> None)"

text \<open>The method \<open>svr\<close>.\<close>

definition full_call :: "lua_cap \<Rightarrow> lresult" where
  "full_call n = Inr (LCap (cap_with_rights n 0xef))"

definition is_valid_call :: "lua_cap \<Rightarrow> lresult" where
  "is_valid_call n = Inr (LBool (cap_is_valid (lc_cap n)))"

text \<open>\<open>L4.cast\<close>: \<open>known\<close> says that the type has a method table; the function argument is called without arguments.\<close>

definition cast_call :: "bool \<Rightarrow> (lval \<Rightarrow> lval) \<Rightarrow> lval list \<Rightarrow> lresult" where
  "cast_call known call0 args =
     (if 2 < length args then Inl ''too man arguments to L4.cast (expected 2:type and cap)''
      else
        let v = lua_arg args 1; v = (if lua_isfunction v then call0 v else v)
        in case v of
             LCap c \<Rightarrow> if known then Inr (LCap (cap_assign c (Cap_new L4_INVALID_CAP 0))) else Inr LNil
           | _ \<Rightarrow> Inl ''L4::Cap expected'')"

section \<open>Name spaces\<close>

text \<open>
  \<open>cap_alloc\<close> answers a capability slot; \<open>query\<close>, \<open>register\<close>, \<open>unlink\<close> and \<open>link\<close> are the operations of
  \<open>L4Re::Namespace\<close> on the name space given by its capability.
\<close>

record 'e namespace =
  ns_cap_alloc :: "'e \<Rightarrow> u32 \<times> 'e"
  ns_cap_free :: "u32 \<Rightarrow> 'e \<Rightarrow> 'e"
  ns_query :: "u32 \<Rightarrow> byte list \<Rightarrow> u32 \<Rightarrow> 'e \<Rightarrow> int \<times> 'e"
  ns_register :: "u32 \<Rightarrow> byte list \<Rightarrow> u32 \<Rightarrow> u32 \<Rightarrow> 'e \<Rightarrow> int \<times> 'e"
  ns_unlink :: "u32 \<Rightarrow> byte list \<Rightarrow> 'e \<Rightarrow> int \<times> 'e"
  ns_link :: "u32 \<Rightarrow> byte list \<Rightarrow> u32 \<Rightarrow> byte list \<Rightarrow> u32 \<Rightarrow> 'e \<Rightarrow> int \<times> 'e"

text \<open>
  A slot that is not handed on is freed by its \<open>Auto_cap\<close>, also when an error is raised: Ned is linked
  with \<open>lua++\<close>, whose errors are C++ exceptions.
\<close>

definition lookup_fun :: "conversions \<Rightarrow> 'e namespace \<Rightarrow> lval \<Rightarrow> lval \<Rightarrow> lval \<Rightarrow> 'e \<Rightarrow> lresult \<times> 'e" where
  "lookup_fun cv NS ns name rights e =
     (case ns of
        LCap ns \<Rightarrow>
          (let (obj, e) = ns_cap_alloc NS e
           in if \<not> cap_is_valid obj then (Inl ''out of caps'', e)
              else
                let (r, e) = ns_query NS (lc_cap ns) (lua_tolstring cv name) obj e
                in if r = - L4_ENOENT then (Inr LNil, ns_cap_free NS obj e)
                   else if r < 0 then (Inl ''runtime error'', ns_cap_free NS obj e)
                   else (Inr (LCap (set_rights (ucast (lua_tointeger cv rights))
                       (cap_set obj (Cap_new L4_INVALID_CAP 0)))), e))
      | _ \<Rightarrow> (Inl ''L4::Cap expected'', e))"

text \<open>\<open>query\<close> takes the name space, a name and optionally the rights; the values are checked by the lookup.\<close>

definition query_call :: "lval list \<Rightarrow> lresult" where
  "query_call args =
     (if length args < 2 then Inl ''expected at least two arguments in name-space query''
      else Inr (LLookup (args ! 0) (args ! 1) (if 2 < length args then args ! 2 else LInt 4)))"

text \<open>
  \<open>link\<close> copies its three arguments for the closure; a copy that has been pushed takes the place of an
  argument that was not given.
\<close>

definition link_call :: "lval list \<Rightarrow> lresult" where
  "link_call args =
     (case lua_arg args 0 of
        LCap ns \<Rightarrow>
          (let stack = args @ [LCap ns]; name = lua_arg stack 1; stack = stack @ [name]
           in Inr (LLink (LCap ns) name (lua_arg stack 2)))
      | _ \<Rightarrow> Inl ''L4::Cap expected'')"

definition register_link_fun ::
  "conversions \<Rightarrow> 'e namespace \<Rightarrow> lval \<Rightarrow> lval \<Rightarrow> lval \<Rightarrow> lval list \<Rightarrow> 'e \<Rightarrow> lresult \<times> 'e" where
  "register_link_fun cv NS src src_name flags args e =
     (case (src, lua_arg args 0) of
        (LCap src, LCap dst) \<Rightarrow>
          (let (r, e) = ns_link NS (lc_cap dst) (lua_tolstring cv (lua_arg args 1))
                 (lc_cap src) (lua_tolstring cv src_name) (lua_tointeger cv flags OR 4) e
           in if r < 0 then (Inl ''runtime error'', e) else (Inr LNil, e))
      | _ \<Rightarrow> (Inl ''L4::Cap expected'', e))"

abbreviation (input) Ns_Overwrite :: u32 where "Ns_Overwrite \<equiv> 0x100"

text \<open>
  \<open>__register(ns, key, value)\<close> on the arguments behind the name space; it answers the last one. A string
  registers the invalid capability.
\<close>

definition register_call ::
  "conversions \<Rightarrow> 'e namespace \<Rightarrow> lua_cap \<Rightarrow> lval list \<Rightarrow> 'e \<Rightarrow> lresult \<times> 'e" where
  "register_call cv NS ns args e =
     (case lua_checkstring cv (lua_arg args 0) of
        None \<Rightarrow> (Inl ''string expected'', e)
      | Some key \<Rightarrow>
          let reg = (\<lambda>c rights.
            let (r, e) = ns_register NS (lc_cap ns) key c (Ns_Overwrite OR rights) e
            in if r < 0 then (Inl ''runtime error'', e) else (Inr (last args), e))
          in if length args < 2 then (Inl ''unexpected value to register in namespace'', e)
             else case args ! 1 of
               LNil \<Rightarrow>
                 let (r, e) = ns_unlink NS (lc_cap ns) key e
                 in if 0 \<le> r \<or> r = - L4_ENOENT then (Inr (last args), e) else (Inl ''runtime error'', e)
             | LStr _ \<Rightarrow> reg L4_INVALID_CAP 0x0f
             | LCap n \<Rightarrow> reg (lc_cap n) (cap_rights n)
             | _ \<Rightarrow> (Inl ''unexpected value to register in namespace'', e))"

section \<open>Factories\<close>

datatype fac_arg = Fac_int u32 | Fac_str "byte list" | Fac_nil

text \<open>Arguments of other types are left out.\<close>

definition fac_args :: "conversions \<Rightarrow> lval \<Rightarrow> fac_arg list" where
  "fac_args cv v =
     (if lua_isnumber cv v then [Fac_int (lua_tointeger cv v)]
      else case v of LStr s \<Rightarrow> [Fac_str s] | LNil \<Rightarrow> [Fac_nil] | _ \<Rightarrow> [])"

definition alloc_call ::
  "('e \<Rightarrow> u32 \<times> 'e) \<Rightarrow> (u32 \<Rightarrow> 'e \<Rightarrow> 'e) \<Rightarrow>
   (u32 \<Rightarrow> u32 \<Rightarrow> u32 \<Rightarrow> fac_arg list \<Rightarrow> 'e \<Rightarrow> int \<times> 'e) \<Rightarrow> conversions \<Rightarrow> lua_cap \<Rightarrow> u32 \<Rightarrow> lval list \<Rightarrow> 'e \<Rightarrow> lresult \<times> 'e" where
  "alloc_call cap_alloc cap_free create cv n objt args e =
     (let (obj, e) = cap_alloc e
      in if \<not> cap_is_valid obj then (Inl ''out of caps'', e)
         else
           let (r, e) = create (lc_cap n) obj objt (concat (map (fac_args cv) args)) e
           in if r < 0 then (Inl ''runtime error'', cap_free obj e)
              else (Inr (LCap (cap_set obj (Cap_new L4_INVALID_CAP 0))), e))"

section \<open>The environment table\<close>

text \<open>\<open>L4.Env\<close> is filled in this order; a later entry with the same name replaces an earlier one.\<close>

definition register_cap :: "byte list \<Rightarrow> u32 \<Rightarrow> (byte list \<rightharpoonup> lua_cap) \<Rightarrow> byte list \<rightharpoonup> lua_cap" where
  "register_cap name c m = m(name \<mapsto> set_rights L4_CAP_FPAGE_RWS (cap_set c (Cap_new L4_INVALID_CAP 0)))"

record l4re_env =
  en_parent :: u32
  en_mem_alloc :: u32
  en_rm :: u32
  en_log :: u32
  en_factory :: u32
  en_scheduler :: u32
  en_initial :: "(byte list \<times> u32) list"  \<comment> \<open>the entries before the end mark\<close>

definition env_init :: "l4re_env \<Rightarrow> byte list \<rightharpoonup> lua_cap" where
  "env_init env =
     fold (\<lambda>(name, c). register_cap name c) (en_initial env)
      (register_cap ''scheduler'' (en_scheduler env)
      (register_cap ''factory'' (en_factory env)
      (register_cap ''log'' (en_log env)
      (register_cap ''rm'' (en_rm env)
      (register_cap ''mem_alloc'' (en_mem_alloc env)
      (register_cap ''parent'' (en_parent env) Map.empty))))))"

end
