(* ===== verification/Ned_Launch.thy ===== *)
theory Ned_Launch
  imports Ned_Caps Kr_Loader
begin

text \<open>
  How Ned launches a program from Lua (dom0-ned, class \<open>Am\<close> of lua_exec.cc and app_model.cc): the
  configuration table, the initial capabilities that are announced to the program on its stack and mapped
  into its task, and the strings of its vectors.

  A Lua function that stands in the place of a value is called with its table until the result is not a
  function (\<open>call\<close>, a parameter with the state of the Lua interpreter; it may raise an error). A table is the list of its
  entries in the order in which \<open>lua_next\<close> delivers them; the functions in it do not change it, and it
  does not hold a number and the text of the same number as keys. Errors are \<open>Inl\<close>.
\<close>

section \<open>Arguments\<close>

record am_args =
  am_argc :: nat
  am_env_idx :: nat  \<comment> \<open>0: no environment\<close>

text \<open>The configuration is the first argument, a table at the end the environment; the rest are the arguments.\<close>

definition Am_new :: "lval list \<Rightarrow> am_args" where
  "Am_new args =
     (let argc = length args;
          env_idx = (if 2 < argc \<and> lua_arg args (argc - 1) = LTable then argc else 0)
      in \<lparr>am_argc = (if env_idx \<noteq> 0 then argc - 1 else argc), am_env_idx = env_idx\<rparr>)"

section \<open>Configuration\<close>

partial_function (option) resolve_value ::
  "(lval \<Rightarrow> 'l \<Rightarrow> lresult \<times> 'l) \<Rightarrow> lval \<Rightarrow> 'l \<Rightarrow> (lresult \<times> 'l) option" where
  "resolve_value call v st =
     (if lua_isfunction v
      then case fst (call v st) of
             Inl err \<Rightarrow> Some (Inl err, snd (call v st))
           | Inr v' \<Rightarrow> resolve_value call v' (snd (call v st))
      else Some (Inr v, st))"

definition cfg_integer :: "conversions \<Rightarrow> (byte list \<Rightarrow> lval) \<Rightarrow> byte list \<Rightarrow> u32 \<Rightarrow> u32" where
  "cfg_integer cv cfg f def =
     (if lua_isnumber cv (cfg f) then lua_tointeger cv (cfg f) else def)"

text \<open>\<open>fpage c rights\<close> is the flex page of a capability, a function of the L4 headers.\<close>

definition cfg_cap ::
  "(lval \<Rightarrow> 'l \<Rightarrow> lresult \<times> 'l) \<Rightarrow> (u32 \<Rightarrow> u32 \<Rightarrow> u32) \<Rightarrow> (byte list \<Rightarrow> lval) \<Rightarrow> byte list \<Rightarrow> u32 \<Rightarrow> 'l \<Rightarrow>
   ((string + u32) \<times> 'l) option" where
  "cfg_cap call fpage cfg f r st = do {
     (v, st) \<leftarrow> resolve_value call (cfg f) st;
     case v of
       Inl err \<Rightarrow> Some (Inl err, st)
     | Inr LNil \<Rightarrow> Some (Inr r, st)
     | Inr (LCap c) \<Rightarrow> Some (Inr (fpage (lc_cap c) (cap_rights c)), st)
     | Inr _ \<Rightarrow> Some (Inl ''L4::Cap expected'', st)
   }"

record prog_info =
  pi_mem_alloc :: u32
  pi_log :: u32
  pi_factory :: u32
  pi_scheduler :: u32
  pi_ldr_flags :: u32
  pi_l4re_dbg :: u32
  pi_rm :: u32
  pi_parent :: u32

text \<open>The defaults are Ned's own capabilities; the result has the factory for region maps besides.\<close>

definition parse_cfg ::
  "(lval \<Rightarrow> 'l \<Rightarrow> lresult \<times> 'l) \<Rightarrow> (u32 \<Rightarrow> u32 \<Rightarrow> u32) \<Rightarrow> conversions \<Rightarrow> (byte list \<Rightarrow> lval) \<Rightarrow> prog_info \<Rightarrow> 'l \<Rightarrow>
   ((string + prog_info \<times> u32) \<times> 'l) option" where
  "parse_cfg call fpage cv cfg own st =
     (let info = own\<lparr>pi_ldr_flags := cfg_integer cv cfg ''ldr_flags'' 0, pi_l4re_dbg := cfg_integer cv cfg ''l4re_dbg'' 0\<rparr>
      in do {
        (r, st) \<leftarrow> cfg_cap call fpage cfg ''log'' (pi_log info) st;
        case r of Inl err \<Rightarrow> Some (Inl err, st) | Inr log \<Rightarrow> do {
        (r, st) \<leftarrow> cfg_cap call fpage cfg ''mem'' (pi_mem_alloc info) st;
        case r of Inl err \<Rightarrow> Some (Inl err, st) | Inr mem \<Rightarrow> do {
        (r, st) \<leftarrow> cfg_cap call fpage cfg ''factory'' (pi_factory info) st;
        case r of Inl err \<Rightarrow> Some (Inl err, st) | Inr fac \<Rightarrow> do {
        (r, st) \<leftarrow> cfg_cap call fpage cfg ''scheduler'' (pi_scheduler info) st;
        case r of Inl err \<Rightarrow> Some (Inl err, st) | Inr sched \<Rightarrow> do {
        (r, st) \<leftarrow> cfg_cap call fpage cfg ''rm_fab'' mem st;
        case r of Inl err \<Rightarrow> Some (Inl err, st) | Inr fab \<Rightarrow>
          Some (Inr (info\<lparr>pi_log := log, pi_mem_alloc := mem, pi_factory := fac, pi_scheduler := sched\<rparr>, fab), st)
        }}}}})"

section \<open>Initial capabilities\<close>

abbreviation (input) L4_CAP_OFFSET :: u32 where "L4_CAP_OFFSET \<equiv> 0x1000"

text \<open>
  \<open>luaL_checkstring\<close> turns a number on the stack into a string; when that is the key of the entry,
  \<open>lua_next\<close> does not find it in the table and raises an error.
\<close>

definition next_finds :: "lval \<Rightarrow> bool" where
  "next_finds k \<longleftrightarrow> (case k of LInt _ \<Rightarrow> False | _ \<Rightarrow> True)"

text \<open>
  The names and slots put on the stack, in the order of the pushes, and the next free slot. A name is a
  C string: it ends at the first terminator in the key. \<open>valid_name\<close> is the length check of L4Re.
\<close>

fun push_initial_caps ::
  "(lval \<Rightarrow> 'l \<Rightarrow> lresult \<times> 'l) \<Rightarrow> (byte list \<Rightarrow> bool) \<Rightarrow> conversions \<Rightarrow> (lval \<times> lval) list \<Rightarrow> u32 \<Rightarrow> 'l \<Rightarrow>
   ((string + (byte list \<times> u32) list \<times> u32) \<times> 'l) option" where
  "push_initial_caps call valid_name cv [] start st = Some (Inr ([], start), st)"
| "push_initial_caps call valid_name cv ((k, v) # tab) start st =
     (case lua_checkstring cv k of
        None \<Rightarrow> Some (Inl ''string expected'', st)
      | Some r \<Rightarrow>
          if \<not> valid_name (c_str r) then Some (Inl ''Capability name too long'', st)
          else do {
            (v, st) \<leftarrow> resolve_value call v st;
            case v of
              Inl err \<Rightarrow> Some (Inl err, st)
            | Inr (LCap _) \<Rightarrow>
                if \<not> next_finds k then Some (Inl ''invalid key to next'', st)
                else do {
                  (res, st) \<leftarrow> push_initial_caps call valid_name cv tab (start + L4_CAP_OFFSET) st;
                  Some (case res of Inl err \<Rightarrow> Inl err | Inr (es, next) \<Rightarrow> Inr ((c_str r, start) # es, next), st)
                }
            | Inr LUserdata \<Rightarrow> Some (Inl ''L4::Cap expected'', st)
            | Inr _ \<Rightarrow>
                if \<not> next_finds k then Some (Inl ''invalid key to next'', st)
                else push_initial_caps call valid_name cv tab start st
          })"

text \<open>
  The mappings into the task: capability, rights, slot and extended rights. \<open>mapc\<close> is the \<open>map\<close> call; a
  negative result is thrown.
\<close>

fun map_initial_caps ::
  "(lval \<Rightarrow> 'l \<Rightarrow> lresult \<times> 'l) \<Rightarrow> (u32 \<Rightarrow> u32 \<Rightarrow> u32 \<Rightarrow> u32 \<Rightarrow> 'l \<Rightarrow> int \<times> 'l) \<Rightarrow> conversions \<Rightarrow> (lval \<times> lval) list \<Rightarrow>
   u32 \<Rightarrow> 'l \<Rightarrow> ((string + (lua_cap \<times> u32) list) \<times> 'l) option" where
  "map_initial_caps call mapc cv [] start st = Some (Inr [], st)"
| "map_initial_caps call mapc cv ((k, v) # tab) start st =
     (case lua_checkstring cv k of
        None \<Rightarrow> Some (Inl ''string expected'', st)
      | Some _ \<Rightarrow> do {
          (v, st) \<leftarrow> resolve_value call v st;
          case v of
            Inl err \<Rightarrow> Some (Inl err, st)
          | Inr (LCap c) \<Rightarrow>
              (let (r, st) = mapc (lc_cap c) (cap_rights c) start (ext_rights c) st
               in if r < 0 then Some (Inl ''runtime error'', st)
                  else if \<not> next_finds k then Some (Inl ''invalid key to next'', st)
                  else do {
                    (res, st) \<leftarrow> map_initial_caps call mapc cv tab (start + L4_CAP_OFFSET) st;
                    Some (case res of Inl err \<Rightarrow> Inl err | Inr ms \<Rightarrow> Inr ((c, start) # ms), st)
                  })
          | Inr LUserdata \<Rightarrow> Some (Inl ''L4::Cap expected'', st)
          | Inr _ \<Rightarrow>
              if \<not> next_finds k then Some (Inl ''invalid key to next'', st)
              else map_initial_caps call mapc cv tab start st
        })"

section \<open>Strings\<close>

text \<open>
  The stack of the loader library: pushing a string with its terminator, a character and bytes; each
  answers the address in the program. The vectors are given by the first and the last address.
\<close>

record 's remote_stack =
  rs_push_str :: "byte list \<Rightarrow> 's \<Rightarrow> u32 \<times> 's"
  rs_push_char :: "byte \<Rightarrow> 's \<Rightarrow> 's"
  rs_push_object :: "byte list \<Rightarrow> 's \<Rightarrow> u32 \<times> 's"

fun push_argv_strings ::
  "'s remote_stack \<Rightarrow> conversions \<Rightarrow> lval list \<Rightarrow> u32 \<Rightarrow> u32 \<Rightarrow> 's \<Rightarrow> (string + u32 \<times> u32) \<times> 's" where
  "push_argv_strings S cv [] a0 al s = (Inr (a0, al), s)"
| "push_argv_strings S cv (v # vs) a0 al s =
     (if v = LNil then push_argv_strings S cv vs a0 al s
      else case lua_checkstring cv v of
        None \<Rightarrow> (Inl ''string expected'', s)
      | Some r \<Rightarrow>
          (let (al, s) = rs_push_str S r s
           in push_argv_strings S cv vs (if a0 = 0 then al else a0) al s))"

text \<open>\<open>first\<close> is the flag \<open>_f\<close> of the code.\<close>

fun push_env_strings ::
  "'s remote_stack \<Rightarrow> conversions \<Rightarrow> (lval \<times> lval) list \<Rightarrow> bool \<Rightarrow> u32 \<Rightarrow> u32 \<Rightarrow> 's \<Rightarrow> (string + u32 \<times> u32) \<times> 's" where
  "push_env_strings S cv [] first a0 al s = (Inr (a0, al), s)"
| "push_env_strings S cv ((k, v) # tab) first a0 al s =
     (case (lua_checkstring cv k, lua_checkstring cv v) of
        (Some kl, Some v) \<Rightarrow>
          (let (_, s) = rs_push_str S v s;
               s = rs_push_char S (CHR ''='') s;
               (al, s) = rs_push_object S kl s
           in if \<not> next_finds k then (Inl ''invalid key to next'', s)
              else push_env_strings S cv tab False (if first then al else a0) al s)
      | _ \<Rightarrow> (Inl ''string expected'', s))"

text \<open>\<open>init_prog\<close>: the arguments from the second on, then the environment if there is one.\<close>

definition init_prog ::
  "'s remote_stack \<Rightarrow> conversions \<Rightarrow> lval list \<Rightarrow> (lval \<times> lval) list \<Rightarrow> 's \<Rightarrow>
   (string + (u32 \<times> u32) \<times> (u32 \<times> u32)) \<times> 's" where
  "init_prog S cv args env_tab s =
     (let am = Am_new args
      in case push_argv_strings S cv (take (am_argc am - 1) (drop 1 args)) 0 0 s of
           (Inl err, s) \<Rightarrow> (Inl err, s)
         | (Inr argv, s) \<Rightarrow>
             if am_env_idx am = 0 then (Inr (argv, (0, 0)), s)
             else case push_env_strings S cv env_tab True 0 0 s of
               (Inl err, s) \<Rightarrow> (Inl err, s)
             | (Inr envp, s) \<Rightarrow> (Inr (argv, envp), s))"

text \<open>\<open>get_task_caps\<close>: the flex pages of the task's region map and parent, and the factory.\<close>

definition get_task_caps :: "u32 \<Rightarrow> u32 \<Rightarrow> prog_info \<Rightarrow> prog_info \<times> u32" where
  "get_task_caps rm_fpage parent_fpage info =
     (info\<lparr>pi_rm := rm_fpage, pi_parent := parent_fpage\<rparr>, pi_factory info AND L4_FPAGE_ADDR_MASK)"

section \<open>Announced and mapped capabilities\<close>

text \<open>
  The numbering of the capabilities among the values of a table: \<open>start\<close> for the first one, and so on.
  Other values take no slot.
\<close>

definition is_cap :: "lval \<Rightarrow> bool" where
  "is_cap v = (case v of LCap _ \<Rightarrow> True | _ \<Rightarrow> False)"

fun cap_slots :: "u32 \<Rightarrow> (byte list \<times> lval) list \<Rightarrow> (byte list \<times> lua_cap \<times> u32) list" where
  "cap_slots start [] = []"
| "cap_slots start ((name, v) # vs) =
     (case v of
        LCap c \<Rightarrow> (name, c, start) # cap_slots (start + L4_CAP_OFFSET) vs
      | _ \<Rightarrow> cap_slots start vs)"

definition named_slots :: "(byte list \<times> lua_cap \<times> u32) list \<Rightarrow> (byte list \<times> u32) list" where
  "named_slots xs = map (\<lambda>(name, c, slot). (name, slot)) xs"

definition slot_caps :: "(byte list \<times> lua_cap \<times> u32) list \<Rightarrow> (lua_cap \<times> u32) list" where
  "slot_caps xs = map (\<lambda>(name, c, slot). (c, slot)) xs"

definition key_names :: "conversions \<Rightarrow> (lval \<times> lval) list \<Rightarrow> byte list list" where
  "key_names cv tab = map (\<lambda>(k, v). c_str (lua_tolstring cv k)) tab"

text \<open>\<open>vs\<close> are results of the values of the table, each evaluated once, in whatever state.\<close>

definition evaluated :: "(lval \<Rightarrow> 'l \<Rightarrow> lresult \<times> 'l) \<Rightarrow> (lval \<times> lval) list \<Rightarrow> lval list \<Rightarrow> bool" where
  "evaluated call tab vs \<longleftrightarrow>
     list_all2 (\<lambda>(k, v) x. \<exists>st st'. resolve_value call v st = Some (Inr x, st')) tab vs"

lemma evaluated_Cons:
  "resolve_value call v st = Some (Inr x, st') \<Longrightarrow> evaluated call tab vs \<Longrightarrow> evaluated call ((k, v) # tab) (x # vs)"
  unfolding evaluated_def by auto

lemma evaluated_length: "evaluated call tab vs \<Longrightarrow> length vs = length tab"
  unfolding evaluated_def by (simp add: list_all2_lengthD)

lemma named_slots_Cons:
  "named_slots (cap_slots start ((name, v) # vs)) =
    (if is_cap v then (name, start) # named_slots (cap_slots (start + L4_CAP_OFFSET) vs)
     else named_slots (cap_slots start vs))"
  by (cases v) (simp_all add: is_cap_def named_slots_def)

lemma named_slots_Nil: "named_slots [] = []"
  by (simp add: named_slots_def)

lemma cap_slots_skip: "\<not> is_cap v \<Longrightarrow> cap_slots start ((name, v) # vs) = cap_slots start vs"
  by (cases v) (simp_all add: is_cap_def)

lemma cap_slots_names: "fst ` set (named_slots (cap_slots start xs)) \<subseteq> fst ` set xs"
proof (induction xs arbitrary: start)
  case (Cons x xs)
  from Cons [of start] Cons [of "start + L4_CAP_OFFSET"] show ?case
    by (cases x) (auto simp: named_slots_Cons simp del: cap_slots.simps)
qed (simp add: named_slots_Nil)

text \<open>Which names get which slots is decided by which values are capabilities.\<close>

lemma named_slots_same:
  "length vs = length names \<Longrightarrow> map is_cap vs = map is_cap ws \<Longrightarrow>
    named_slots (cap_slots start (zip names vs)) = named_slots (cap_slots start (zip names ws))"
proof (induction names arbitrary: start vs ws)
  case (Cons n names)
  then obtain v vs' w ws' where vw: "vs = v # vs'" "ws = w # ws'" by (cases vs; cases ws) auto
  with Cons.prems Cons.IH [of vs' ws'] show ?case
    by (simp add: named_slots_Cons del: cap_slots.simps)
qed simp

lemma named_slots_differ:
  "length vs = length names \<Longrightarrow> length ws = length names \<Longrightarrow> distinct names \<Longrightarrow>
    named_slots (cap_slots start (zip names vs)) = named_slots (cap_slots start (zip names ws)) \<Longrightarrow>
    map is_cap vs = map is_cap ws"
proof (induction names arbitrary: start vs ws)
  case (Cons n names)
  obtain v vs' w ws' where vw: "vs = v # vs'" "ws = w # ws'" "length vs' = length names" "length ws' = length names"
    using Cons.prems(1,2) by (cases vs; cases ws) auto
  have notin: "(n, a) \<notin> set (named_slots (cap_slots b (zip names us)))" for a b us
    using cap_slots_names [of b "zip names us"] Cons.prems(3) by (force dest: set_zip_leftD)
  from Cons.prems(4) have eq: "named_slots (cap_slots start ((n, v) # zip names vs')) =
      named_slots (cap_slots start ((n, w) # zip names ws'))" unfolding vw by simp
  have same: "is_cap v = is_cap w"
    using eq notin unfolding named_slots_Cons by (metis list.set_intros(1))
  with eq have "named_slots (cap_slots (if is_cap v then start + L4_CAP_OFFSET else start) (zip names vs')) =
      named_slots (cap_slots (if is_cap v then start + L4_CAP_OFFSET else start) (zip names ws'))"
    unfolding named_slots_Cons by (auto split: if_splits)
  with Cons.IH [OF vw(3,4)] Cons.prems(3) same show ?case unfolding vw by simp
qed simp

lemma push_slots:
  "push_initial_caps call valid_name cv tab start st = Some (Inr (es, next), st1) \<Longrightarrow>
    \<exists>vs. evaluated call tab vs \<and> fst ` set tab \<subseteq> range LStr \<and>
      es = named_slots (cap_slots start (zip (key_names cv tab) vs)) \<and>
      next = start + of_nat (length es) * L4_CAP_OFFSET"
proof (induction tab arbitrary: start st es st1)
  case Nil
  then show ?case by (simp add: evaluated_def named_slots_def)
next
  case (Cons kv tab)
  obtain k v where kv: "kv = (k, v)" by fastforce
  from Cons.prems kv obtain r x s1 where r: "lua_checkstring cv k = Some r" "resolve_value call v st = Some (Inr x, s1)"
    "next_finds k"
    by (auto split: option.splits if_splits bind_splits sum.splits lval.splits)
  then have key: "k \<in> range LStr" by (cases k) (auto simp: next_finds_def lua_checkstring_def)
  show ?case
  proof (cases "is_cap x")
    case True
    then obtain c where c: "x = LCap c" by (cases x) (simp_all add: is_cap_def)
    from Cons.prems kv r c obtain es' s3 where
      es: "push_initial_caps call valid_name cv tab (start + L4_CAP_OFFSET) s1 = Some (Inr (es', next), s3)"
      "es = (c_str r, start) # es'"
      by (auto split: if_splits bind_splits sum.splits)
    from Cons.IH [OF es(1)] obtain vs where "evaluated call tab vs" "fst ` set tab \<subseteq> range LStr"
      "es' = named_slots (cap_slots (start + L4_CAP_OFFSET) (zip (key_names cv tab) vs))"
      "next = start + L4_CAP_OFFSET + of_nat (length es') * L4_CAP_OFFSET" by blast
    with r(1) c key kv es(2) evaluated_Cons [OF r(2), of tab vs k] show ?thesis
      by (intro exI [of _ "x # vs"]) (simp add: key_names_def named_slots_def lua_tolstring_def algebra_simps)
  next
    case False
    have u: "x \<noteq> LUserdata" using Cons.prems kv r by (auto split: if_splits)
    from Cons.prems kv r False u have "push_initial_caps call valid_name cv tab start s1 = Some (Inr (es, next), st1)"
      by (cases x) (auto simp: is_cap_def split: if_splits)
    from Cons.IH [OF this] obtain vs where "evaluated call tab vs" "fst ` set tab \<subseteq> range LStr"
      "es = named_slots (cap_slots start (zip (key_names cv tab) vs))"
      "next = start + of_nat (length es) * L4_CAP_OFFSET" by blast
    with False key kv evaluated_Cons [OF r(2), of tab vs k] show ?thesis
      by (intro exI [of _ "x # vs"]) (simp add: key_names_def cap_slots_skip del: cap_slots.simps)
  qed
qed

lemma map_slots:
  "map_initial_caps call mapc cv tab start st = Some (Inr ms, st1) \<Longrightarrow>
    \<exists>ws. evaluated call tab ws \<and> ms = slot_caps (cap_slots start (zip (key_names cv tab) ws))"
proof (induction tab arbitrary: start st ms st1)
  case Nil
  then show ?case by (simp add: evaluated_def slot_caps_def)
next
  case (Cons kv tab)
  obtain k v where kv: "kv = (k, v)" by fastforce
  from Cons.prems kv obtain r x s1 where r: "lua_checkstring cv k = Some r" "resolve_value call v st = Some (Inr x, s1)"
    by (auto split: option.splits if_splits bind_splits sum.splits)
  show ?case
  proof (cases "is_cap x")
    case True
    then obtain c where c: "x = LCap c" by (cases x) (simp_all add: is_cap_def)
    from Cons.prems kv r c obtain ms' s3 s4 where
      ms: "map_initial_caps call mapc cv tab (start + L4_CAP_OFFSET) s3 = Some (Inr ms', s4)" "ms = (c, start) # ms'"
      by (auto simp: Let_def split_beta split: if_splits bind_splits sum.splits)
    from Cons.IH [OF ms(1)] obtain ws where "evaluated call tab ws"
      "ms' = slot_caps (cap_slots (start + L4_CAP_OFFSET) (zip (key_names cv tab) ws))" by blast
    with r(1) c kv ms(2) evaluated_Cons [OF r(2), of tab ws k] show ?thesis
      by (intro exI [of _ "x # ws"]) (simp add: key_names_def slot_caps_def)
  next
    case False
    have u: "x \<noteq> LUserdata" using Cons.prems kv r by auto
    from Cons.prems kv r False u have "map_initial_caps call mapc cv tab start s1 = Some (Inr ms, st1)"
      by (cases x) (auto simp: is_cap_def split: if_splits)
    from Cons.IH [OF this] obtain ws where "evaluated call tab ws"
      "ms = slot_caps (cap_slots start (zip (key_names cv tab) ws))" by blast
    with False kv evaluated_Cons [OF r(2), of tab ws k] show ?thesis
      by (intro exI [of _ "x # ws"]) (simp add: key_names_def cap_slots_skip del: cap_slots.simps)
  qed
qed

end
