(* ===== verification/Ned_Start.thy ===== *)
theory Ned_Start
  imports Lua_Ipc Kr_Stack
begin

text \<open>
  The start of Ned (dom0-ned: class \<open>Lib\<close> of lua.h and lua.cc, \<open>lua\<close> in lua.cc, \<open>run\<close> and \<open>main\<close> in main.cc).

  Each extension library of the Lua interpreter is a static object whose constructor links it into the
  list \<open>_lua_init\<close> by its priority; \<open>run_init\<close> initialises them in the order of the list. The list
  is modelled with its pointers; \<open>None\<close> as the position of a link is \<open>_lua_init\<close> itself.

  \<open>getopt_long\<close> is defined for the options of \<open>lua\<close> by its documented behaviour; the calls of the Lua
  library are parameters, and \<open>readline\<close> holds the lines that are typed (\<open>None\<close>: reading is not compiled in).
\<close>

section \<open>Extension libraries\<close>

datatype prio = P_cap_type | P_env

fun prio_num :: "prio \<Rightarrow> nat" where
  "prio_num P_cap_type = 0"
| "prio_num P_env = 1"

instantiation prio :: linorder
begin

definition less_eq_prio :: "prio \<Rightarrow> prio \<Rightarrow> bool" where
  "less_eq_prio a b \<longleftrightarrow> prio_num a \<le> prio_num b"

definition less_prio :: "prio \<Rightarrow> prio \<Rightarrow> bool" where
  "less_prio a b \<longleftrightarrow> prio_num a < prio_num b"

instance
proof
  fix a b c :: prio
  show "a < b \<longleftrightarrow> a \<le> b \<and> \<not> b \<le> a" by (auto simp: less_eq_prio_def less_prio_def)
  show "a \<le> a" by (simp add: less_eq_prio_def)
  show "a \<le> b \<Longrightarrow> b \<le> c \<Longrightarrow> a \<le> c" by (simp add: less_eq_prio_def)
  show "a \<le> b \<Longrightarrow> b \<le> a \<Longrightarrow> a = b" by (cases a; cases b) (auto simp: less_eq_prio_def)
  show "a \<le> b \<or> b \<le> a" by (auto simp: less_eq_prio_def)
qed

end

type_synonym lib_id = nat

record lib_heap =
  li_init :: "lib_id option"  \<comment> \<open>\<open>_lua_init\<close>\<close>
  li_next :: "lib_id \<Rightarrow> lib_id option"
  li_prio :: "lib_id \<Rightarrow> prio"

text \<open>Reading and writing through a link, the pointer \<open>f\<close> of the constructor.\<close>

definition link_get :: "lib_heap \<Rightarrow> lib_id option \<Rightarrow> lib_id option" where
  "link_get h f = (case f of None \<Rightarrow> li_init h | Some p \<Rightarrow> li_next h p)"

definition link_set :: "lib_id option \<Rightarrow> lib_id option \<Rightarrow> lib_heap \<Rightarrow> lib_heap" where
  "link_set f v h = (case f of None \<Rightarrow> h\<lparr>li_init := v\<rparr> | Some p \<Rightarrow> h\<lparr>li_next := (li_next h)(p := v)\<rparr>)"

partial_function (option) find_link :: "lib_heap \<Rightarrow> prio \<Rightarrow> lib_id option \<Rightarrow> lib_id option option" where
  "find_link h pr f =
     (case link_get h f of
        None \<Rightarrow> Some f
      | Some c \<Rightarrow> if li_prio h c < pr then find_link h pr (Some c) else Some f)"

text \<open>\<open>_next = *f; *f = this\<close>.\<close>

definition link_at :: "lib_id option \<Rightarrow> lib_id \<Rightarrow> lib_heap \<Rightarrow> lib_heap" where
  "link_at f this h = link_set f (Some this) (h\<lparr>li_next := (li_next h)(this := link_get h f)\<rparr>)"

definition Lib_new :: "lib_id \<Rightarrow> prio \<Rightarrow> lib_heap \<Rightarrow> lib_heap option" where
  "Lib_new this pr h = do {
     let h = h\<lparr>li_prio := (li_prio h)(this := pr), li_next := (li_next h)(this := None)\<rparr>;
     f \<leftarrow> find_link h pr None;
     Some (link_at f this h)
   }"

text \<open>\<open>init\<close> is the virtual method of each library.\<close>

partial_function (option) init_from :: "lib_heap \<Rightarrow> (lib_id \<Rightarrow> 'l \<Rightarrow> 'l) \<Rightarrow> lib_id option \<Rightarrow> 'l \<Rightarrow> 'l option" where
  "init_from h init c l =
     (case c of None \<Rightarrow> Some l | Some c \<Rightarrow> init_from h init (li_next h c) (init c l))"

definition run_init :: "lib_heap \<Rightarrow> (lib_id \<Rightarrow> 'l \<Rightarrow> 'l) \<Rightarrow> 'l \<Rightarrow> 'l option" where
  "run_init h init l = init_from h init (li_init h) l"

text \<open>The constructors of the static objects, in the order the start-up code runs them.\<close>

fun construct_libs :: "(lib_id \<times> prio) list \<Rightarrow> lib_heap \<Rightarrow> lib_heap option" where
  "construct_libs [] h = Some h"
| "construct_libs ((o1, pr) # ls) h = do { h \<leftarrow> Lib_new o1 pr h; construct_libs ls h }"

definition no_libs :: lib_heap where
  "no_libs = \<lparr>li_init = None, li_next = (\<lambda>_. None), li_prio = (\<lambda>_. P_cap_type)\<rparr>"

section \<open>The command line\<close>

text \<open>
  The loop over \<open>getopt_long\<close> with \<open>options\<close> and \<open>loptions\<close>: the letters it delivers and the arguments
  from \<open>optind\<close> on. The leading \<open>+\<close> of \<open>options\<close> makes it stop at the first argument that is no option. A long
  option may be abbreviated; what is not known, is ambiguous or has a value it must not have is a \<open>?\<close>.
\<close>

definition loptions :: "(byte list \<times> byte) list" where
  "loptions = [(''interactive'', CHR ''i''), (''server'', CHR ''s'')]"

definition long_option :: "byte list \<Rightarrow> byte" where
  "long_option arg =
     (let name = takeWhile (\<lambda>c. c \<noteq> CHR ''='') arg in
      case filter (\<lambda>(long, _). name = take (length name) long) loptions of
        [(_, val)] \<Rightarrow> if name = arg then val else CHR ''?''
      | _ \<Rightarrow> CHR ''?'')"

definition short_option :: "byte \<Rightarrow> byte" where
  "short_option c = (if c \<in> set ''is'' then c else CHR ''?'')"

fun getopt_long :: "byte list list \<Rightarrow> byte list \<times> byte list list" where
  "getopt_long [] = ([], [])"
| "getopt_long (arg # args) =
     (if take 1 arg \<noteq> ''-'' \<or> arg = ''-'' then ([], arg # args)
      else if arg = ''--'' then ([], args)
      else let (opts, rest) = getopt_long args in
        ((if take 2 arg = ''--'' then [long_option (drop 2 arg)] else map short_option (drop 1 arg)) @ opts, rest))"

section \<open>The function lua\<close>

text \<open>
  \<open>argv\<close> are the arguments, the name of the program first.
  \<open>S\<close> holds the calls of the Lua library besides those of \<open>lua_api\<close>: creating the state, opening the four
  standard libraries and \<open>L4.cast\<close>, running a file, collecting garbage. \<open>gate\<close> says whether the
  server object could be registered. \<open>readline\<close> are the lines \<open>readline\<close> delivers before its end of
  input, \<open>None\<close> if the program is compiled without \<open>USE_READLINE\<close>, as its Makefile does.
\<close>

record 'l lua_sys =
  ls_newstate :: "'l option"
  ls_open_libs :: "'l \<Rightarrow> 'l"
  ls_dofile :: "byte list \<Rightarrow> 'l \<Rightarrow> int \<times> 'l"
  ls_gc :: "'l \<Rightarrow> 'l"

datatype 'l lua_end = Lua_returns int | Lua_serves "'l ned_server" | Lua_done 'l

definition dofiles :: "'l lua_api \<Rightarrow> 'l lua_sys \<Rightarrow> byte list list \<Rightarrow> 'l \<Rightarrow> 'l" where
  "dofiles A S files l = fold (\<lambda>f l. la_pop_all A (snd (ls_dofile S f l))) files l"

text \<open>The loop that reads lines; each goes through the same calls as a line that came by IPC.\<close>

fun read_lines :: "'l lua_api \<Rightarrow> byte list list \<Rightarrow> 'l \<Rightarrow> 'l" where
  "read_lines A [] l = l"
| "read_lines A (cmd # cmds) l = read_lines A cmds (run_chunk A cmd l)"

text \<open>\<open>Lua_done\<close> is the normal end, which returns 0; \<open>server.loop\<close> does not return.\<close>

definition lua ::
  "'l lua_api \<Rightarrow> 'l lua_sys \<Rightarrow> lib_heap \<Rightarrow> (lib_id \<Rightarrow> 'l \<Rightarrow> 'l) \<Rightarrow> byte list \<Rightarrow> bool \<Rightarrow>
   byte list list option \<Rightarrow> byte list list \<Rightarrow> 'l lua_end option" where
  "lua A S libs init script gate readline argv =
     (let (opts, files) = getopt_long (drop 1 argv);
          interactive = (length argv < 2 \<or> CHR ''i'' \<in> set opts \<or> files = []);
          ipcServer = (CHR ''s'' \<in> set opts)
      in case ls_newstate S of
        None \<Rightarrow> Some (Lua_returns 1)
      | Some l \<Rightarrow> do {
          l \<leftarrow> run_init libs init (ls_open_libs S l);
          let (e, l) = la_loadbuffer A script l;
          if e \<noteq> 0 then Some (Lua_returns 0)
          else do {
            let (e, l) = la_pcall A l;
            if e \<noteq> 0 then Some (Lua_returns 0)
            else do {
              let l = dofiles A S files (la_pop_all A l);
              if ipcServer
              then (if gate then Some (Lua_serves (ned_server_new l)) else Some (Lua_returns 1))
              else do {
                let l = ls_gc S l;
                if \<not> interactive then Some (Lua_done l)
                else case readline of
                    None \<Rightarrow> Some (Lua_done l)
                  | Some cmds \<Rightarrow> Some (Lua_done (read_lines A cmds l))
              }
            }
          }
        })"

text \<open>\<open>server.loop\<close> for the requests that arrive, with the reply to each.\<close>

fun ned_loop :: "'l lua_api \<Rightarrow> (int \<times> item list) list \<Rightarrow> 'l ned_server \<Rightarrow> ((int \<times> item list) list \<times> 'l ned_server) option" where
  "ned_loop A [] s = Some ([], s)"
| "ned_loop A ((label, ios) # reqs) s = do {
     (result, reply, s) \<leftarrow> ned_dispatch A label ios s;
     (rest, s) \<leftarrow> ned_loop A reqs s;
     Some ((result, reply) # rest, s)
   }"

text \<open>
  \<open>run\<close> in main.cc: read the auxiliary vector, start the server of the tasks, run Lua, then sleep for ever
  whatever it answered. \<open>created\<close> is the result of \<open>pthread_create\<close> in the constructor of \<open>Server\<close>: if that throws, \<open>main\<close>
  reports it and sleeps for ever; with a positive error the constructor does not end (theory \<open>Ned_Server\<close>).
\<close>

datatype 'l ned_end = Ned_serves "'l ned_server" | Ned_sleeps u32 | Ned_fatal | Ned_blocks

definition ned_run :: "nat \<Rightarrow> u32 list \<Rightarrow> int \<Rightarrow> 'l lua_end option \<Rightarrow> (unit + 'l ned_end) option" where
  "ned_run argc ws created res = do {
     mv \<leftarrow> read_vectors argc ws;
     if created < 0 then Some (Inl ())
     else if 0 < created then Some (Inr Ned_blocks)
     else do {
       res \<leftarrow> res;
       Some (Inr (case res of Lua_serves s \<Rightarrow> Ned_serves s | _ \<Rightarrow> Ned_sleeps (mv_aux mv)))
     }
   }"

definition ned_main :: "nat \<Rightarrow> u32 list \<Rightarrow> int \<Rightarrow> 'l lua_end option \<Rightarrow> 'l ned_end option" where
  "ned_main argc ws created res = do {
     r \<leftarrow> ned_run argc ws created res;
     Some (case r of Inl _ \<Rightarrow> Ned_fatal | Inr e \<Rightarrow> e)
   }"

lemma read_lines_fold: "read_lines A cmds l = fold (run_chunk A) cmds l"
  by (induction cmds arbitrary: l) simp_all

text \<open>Arguments that are files stay as they are.\<close>

lemma getopt_long_files: "\<forall>f \<in> set files. take 1 f \<noteq> ''-'' \<Longrightarrow> getopt_long files = ([], files)"
  by (cases files) auto

text \<open>What \<open>lua\<close> does once the script has run.\<close>

lemma lua_started:
  assumes "ls_newstate S = Some l0" and "run_init libs init (ls_open_libs S l0) = Some li"
    and "la_loadbuffer A script li = (0, l1)" and "la_pcall A l1 = (0, l2)"
  shows "lua A S libs init script gate readline argv =
    (let (opts, files) = getopt_long (drop 1 argv); l = dofiles A S files (la_pop_all A l2) in
     if CHR ''s'' \<in> set opts then Some (if gate then Lua_serves (ned_server_new l) else Lua_returns 1)
     else if length argv < 2 \<or> CHR ''i'' \<in> set opts \<or> files = []
     then Some (Lua_done (fold (run_chunk A) (case readline of None \<Rightarrow> [] | Some cmds \<Rightarrow> cmds) (ls_gc S l)))
     else Some (Lua_done (ls_gc S l)))"
  using assms by (auto simp: lua_def read_lines_fold Let_def split: option.splits prod.splits)

text \<open>The requests of a client that sends the lines \<open>cmds\<close>.\<close>

definition line_request :: "(byte list \<Rightarrow> byte list) \<Rightarrow> byte list \<Rightarrow> int \<times> item list" where
  "line_request trunc cmd =
     (Protocol_LuaDom0,
      [W32 Opcode_executeLuaLine, W32 (of_nat (length cmd + 1)), Buf (sent_string trunc (cmd @ [NUL]))])"

definition line_fits :: "byte list \<Rightarrow> bool" where
  "line_fits cmd \<longleftrightarrow> length cmd + 1 \<le> 240"

lemma ned_loop_lines:
  "ned_wf s \<Longrightarrow> cuts_strings trunc \<Longrightarrow> \<forall>cmd \<in> set cmds. NUL \<notin> set cmd \<Longrightarrow>
   \<exists>s'. ned_loop A (map (line_request trunc) cmds) s =
       Some (map (\<lambda>cmd. (0, [W32 (if line_fits cmd then LUA_OK else LUA_ERROR)])) cmds, s') \<and>
     ns_lua s' = fold (run_chunk A) (filter line_fits cmds) (ns_lua s) \<and> ned_wf s'"
proof (induction cmds arbitrary: s)
  case Nil
  then show ?case by simp
next
  case (Cons cmd cmds)
  have f: "utcb_fits (cmd @ [NUL]) \<longleftrightarrow> line_fits cmd" by (simp add: utcb_fits_length line_fits_def)
  from Cons.prems(3) have "NUL \<notin> set cmd" by simp
  from ned_dispatch_line [OF Cons.prems(1) this Cons.prems(2), of A "of_nat (length cmd + 1)"] obtain s1 where
    s1: "ned_dispatch A Protocol_LuaDom0 (snd (line_request trunc cmd)) s =
        Some (0, [W32 (if line_fits cmd then LUA_OK else LUA_ERROR)], s1)" "ned_wf s1"
      "ns_lua s1 = (if line_fits cmd then run_chunk A cmd (ns_lua s) else ns_lua s)"
    unfolding f by (auto simp: line_request_def simp del: of_nat_add)
  from Cons.IH [OF s1(2) Cons.prems(2)] Cons.prems(3) obtain s' where
    s': "ned_loop A (map (line_request trunc) cmds) s1 =
        Some (map (\<lambda>cmd. (0, [W32 (if line_fits cmd then LUA_OK else LUA_ERROR)])) cmds, s')"
      "ns_lua s' = fold (run_chunk A) (filter line_fits cmds) (ns_lua s1)" "ned_wf s'"
    by auto
  have "fst (line_request trunc cmd) = Protocol_LuaDom0" by (simp add: line_request_def)
  with s1(1,3) s' show ?case by (cases "line_request trunc cmd") simp
qed

section \<open>The list is sorted\<close>

fun lib_path :: "lib_heap \<Rightarrow> lib_id option \<Rightarrow> lib_id list \<Rightarrow> bool" where
  "lib_path h p [] \<longleftrightarrow> p = None"
| "lib_path h p (x # xs) \<longleftrightarrow> p = Some x \<and> lib_path h (li_next h x) xs"

lemma lib_path_cong:
  "\<forall>x \<in> set xs. li_next h' x = li_next h x \<Longrightarrow> lib_path h' p xs \<longleftrightarrow> lib_path h p xs"
  by (induction xs arbitrary: p) auto

lemma find_link_insert:
  assumes "lib_path h (link_get h f) xs" and "distinct xs" and "this \<notin> set xs" and "f \<noteq> Some this"
    and "\<forall>p. f = Some p \<longrightarrow> p \<notin> set xs"
  shows "\<exists>g. find_link h pr f = Some g \<and> (g = f \<or> (\<exists>p \<in> set xs. g = Some p)) \<and>
    lib_path (link_at g this h) (link_get (link_at g this h) f)
      (insort_key (\<lambda>x. if x = this then pr else li_prio h x) this xs)"
  using assms
proof (induction xs arbitrary: f)
  case Nil
  then have "find_link h pr f = Some f" by (subst find_link.simps) simp
  with Nil show ?case
    by (intro exI [of _ f]) (cases f; auto simp: link_get_def link_set_def link_at_def)
next
  case (Cons y ys)
  from Cons.prems(1) have y: "link_get h f = Some y" "lib_path h (li_next h y) ys" by auto
  have yt: "y \<noteq> this" using Cons.prems(3) by auto
  show ?case
  proof (cases "li_prio h y < pr")
    case False
    then have "find_link h pr f = Some f" by (subst find_link.simps) (simp add: y)
    moreover define h' where "h' = link_at f this h"
    have "link_get h' f = Some this" "li_next h' this = Some y" "li_next h' y = li_next h y"
      using Cons.prems(4,5) yt y(1) by (auto simp: h'_def link_at_def link_set_def link_get_def split: option.splits)
    moreover have "lib_path h' (li_next h y) ys"
      by (subst lib_path_cong [of _ _ h])
        (use y(2) Cons.prems(3,5) in \<open>auto simp: h'_def link_at_def link_set_def split: option.splits\<close>)
    ultimately show ?thesis
      using False yt by (intro exI [of _ f]) (simp add: h'_def [symmetric] not_less)
  next
    case True
    have d: "distinct ys" "this \<notin> set ys" "Some y \<noteq> Some this" "\<forall>p. Some y = Some p \<longrightarrow> p \<notin> set ys"
      using Cons.prems yt by auto
    have l: "lib_path h (link_get h (Some y)) ys" using y(2) by (simp add: link_get_def)
    from Cons.IH [OF l d] obtain g where g: "find_link h pr (Some y) = Some g"
      "g = Some y \<or> (\<exists>p \<in> set ys. g = Some p)"
      "lib_path (link_at g this h) (link_get (link_at g this h) (Some y))
        (insort_key (\<lambda>x. if x = this then pr else li_prio h x) this ys)"
      by blast
    have "find_link h pr f = Some g" by (subst find_link.simps) (simp add: y True g(1))
    moreover have "g \<noteq> f" using g(2) Cons.prems(5) by auto
    then have "link_get (link_at g this h) f = Some y"
      using y(1) Cons.prems(4) by (cases f; cases g; auto simp: link_get_def link_set_def link_at_def)
    moreover have "li_next (link_at g this h) y = link_get (link_at g this h) (Some y)"
      by (simp add: link_get_def)
    ultimately show ?thesis
      using g True yt by (intro exI [of _ g]) (auto simp: not_le)
  qed
qed

text \<open>\<open>lib_rep h xs\<close>: the list holds the libraries \<open>xs\<close>.\<close>

definition lib_rep :: "lib_heap \<Rightarrow> lib_id list \<Rightarrow> bool" where
  "lib_rep h xs \<longleftrightarrow> distinct xs \<and> lib_path h (li_init h) xs"

lemma Lib_new_rep:
  assumes rep: "lib_rep h xs" and new: "this \<notin> set xs"
  shows "\<exists>h'. Lib_new this pr h = Some h' \<and>
    lib_rep h' (insort_key (\<lambda>x. if x = this then pr else li_prio h x) this xs) \<and>
    li_prio h' = (li_prio h)(this := pr)"
proof -
  define h1 where "h1 = h\<lparr>li_prio := (li_prio h)(this := pr), li_next := (li_next h)(this := None)\<rparr>"
  have "lib_path h1 (link_get h1 None) xs"
    using rep new lib_path_cong [of xs h1 h] by (auto simp: lib_rep_def h1_def link_get_def)
  moreover have "distinct xs" using rep by (simp add: lib_rep_def)
  ultimately obtain g where g: "find_link h1 pr None = Some g"
    "lib_path (link_at g this h1) (link_get (link_at g this h1) None)
      (insort_key (\<lambda>x. if x = this then pr else li_prio h1 x) this xs)"
    using find_link_insert [of h1 None xs this pr] new by auto
  define h' where "h' = link_at g this h1"
  have "Lib_new this pr h = Some h'" by (simp add: Lib_new_def h1_def [symmetric] g(1) h'_def)
  moreover have "(\<lambda>x. if x = this then pr else li_prio h1 x) = (\<lambda>x. if x = this then pr else li_prio h x)"
    by (auto simp: h1_def)
  moreover have "li_prio h' = (li_prio h)(this := pr)"
    by (auto simp: h'_def link_at_def link_set_def h1_def split: option.splits)
  moreover have "lib_path h' (li_init h') (insort_key (\<lambda>x. if x = this then pr else li_prio h1 x) this xs)"
    using g(2) by (simp add: h'_def [symmetric] link_get_def [of h' None])
  ultimately show ?thesis
    using rep new by (intro exI [of _ h']) (simp add: lib_rep_def distinct_insort)
qed

lemma init_from_path: "lib_path h p xs \<Longrightarrow> init_from h init p l = Some (fold init xs l)"
proof (induction xs arbitrary: p l)
  case Nil
  then show ?case by (subst init_from.simps) simp
next
  case (Cons x xs)
  then show ?case by (subst init_from.simps) simp
qed

text \<open>\<open>P\<close> gives the priorities of all libraries concerned.\<close>

lemma insort_key_cong:
  "\<forall>y \<in> insert x (set xs). f y = g y \<Longrightarrow> insort_key f x xs = insort_key g x xs"
  by (induction xs) auto

lemma construct_libs_rep:
  assumes "lib_rep h xs" and "\<forall>x \<in> set xs. li_prio h x = P x" and "\<forall>(x, pr) \<in> set ls. P x = pr"
    and "distinct (map fst ls)" and "set xs \<inter> fst ` set ls = {}"
  shows "\<exists>h'. construct_libs ls h = Some h' \<and> lib_rep h' (fold (insort_key P) (map fst ls) xs)"
  using assms
proof (induction ls arbitrary: h xs)
  case Nil
  then show ?case by simp
next
  case (Cons l ls)
  obtain x pr where l: "l = (x, pr)" by fastforce
  have x: "x \<notin> set xs" "P x = pr" "x \<notin> fst ` set ls" using Cons.prems l by auto
  obtain h1 where h1: "Lib_new x pr h = Some h1"
    "lib_rep h1 (insort_key (\<lambda>y. if y = x then pr else li_prio h y) x xs)" "li_prio h1 = (li_prio h)(x := pr)"
    using Lib_new_rep [OF Cons.prems(1) x(1), of pr] by blast
  have eq: "insort_key (\<lambda>y. if y = x then pr else li_prio h y) x xs = insort_key P x xs"
    by (rule insort_key_cong) (use Cons.prems(2) x in auto)
  have "\<exists>h'. construct_libs ls h1 = Some h' \<and> lib_rep h' (fold (insort_key P) (map fst ls) (insort_key P x xs))"
    by (rule Cons.IH) (use h1 eq Cons.prems l x in \<open>auto simp: set_insort_key\<close>)
  then show ?case using l h1(1) by simp
qed

lemma fold_insort_key: "fold (insort_key f) xs [] = sort_key f (rev xs)"
  by (simp add: sort_key_def foldr_conv_fold)

lemma libs_in_order:
  assumes "distinct (map fst ls)" and "\<forall>(x, pr) \<in> set ls. P x = pr"
  shows "\<exists>h. construct_libs ls no_libs = Some h \<and>
    run_init h init l = Some (fold init (sort_key P (rev (map fst ls))) l)"
proof -
  have "lib_rep no_libs []" by (simp add: lib_rep_def no_libs_def)
  from construct_libs_rep [OF this, of P ls] assms obtain h where
    h: "construct_libs ls no_libs = Some h" "lib_rep h (fold (insort_key P) (map fst ls) [])" by auto
  then have "run_init h init l = Some (fold init (sort_key P (rev (map fst ls))) l)"
    unfolding run_init_def fold_insort_key lib_rep_def by (intro init_from_path) simp
  with h(1) show ?thesis by (intro exI [of _ h] conjI)
qed

end
