(* ===== verification/Launch_Properties.thy ===== *)
theory Launch_Properties
  imports Ned_Launch Ned_Start
begin

text \<open>
  Properties of the start of Ned and of the programs it launches: the start itself (order of the
  libraries, files, lines), the rights of capabilities, and the agreement of the announced with the mapped initial
  capabilities.
\<close>

section \<open>The start of Ned\<close>




section \<open>Rights\<close>

text \<open>A well formed capability value: eight bits of rights, with the right to read.\<close>

definition wf_cap :: "lua_cap \<Rightarrow> bool" where
  "wf_cap n \<longleftrightarrow> bit (lc_rights n) 2 \<and> (\<forall>i. bit (lc_rights n) i \<longrightarrow> i < 8)"

fun wf_val :: "lval \<Rightarrow> bool" where
  "wf_val (LCap n) \<longleftrightarrow> wf_cap n"
| "wf_val (LLookup a b c) \<longleftrightarrow> wf_val a \<and> wf_val b \<and> wf_val c"
| "wf_val (LLink a b c) \<longleftrightarrow> wf_val a \<and> wf_val b \<and> wf_val c"
| "wf_val _ \<longleftrightarrow> True"

definition wf_result :: "lresult \<Rightarrow> bool" where
  "wf_result r \<longleftrightarrow> (case r of Inl _ \<Rightarrow> True | Inr v \<Rightarrow> wf_val v)"

lemma bit_4_int: "bit (4 :: int) i \<longleftrightarrow> i = 2"
  using bit_exp_iff [of 2 i, where ?'a = int] by simp

lemma wf_set_rights [simp]: "wf_cap (set_rights r n)"
  by (auto simp: wf_cap_def set_rights_def bit_simps bit_4_int dest: bit_imp_le_length)

lemma wf_Cap_new [simp]: "wf_cap (cap_set c (Cap_new d fl))"
  by (auto simp: wf_cap_def cap_set_def Cap_new_def bit_4_int)

lemma wf_with_rights [simp]: "wf_cap n \<Longrightarrow> wf_cap (cap_with_rights n r)"
  by (simp add: cap_with_rights_def)

lemma wf_assign [simp]: "wf_cap c \<Longrightarrow> wf_cap (cap_assign c n)"
  by (simp add: wf_cap_def cap_assign_def)

text \<open>C37: type safety of the capability functions: from well formed values every method, the cast, name space
  queries and their closures, registrations, the factory and the environment table yield only well formed
  values; no capability Ned hands out lacks the right to read or has rights beyond eight bits.\<close>

theorem cap_values_wf:
  assumes args: "list_all wf_val args" and n: "wf_cap n" and call0: "\<And>f. wf_val (call0 f)"
  shows "(\<forall>r. set_mode_call cv n args = Some r \<longrightarrow> wf_result r) \<and>
    wf_result (full_call n) \<and> wf_result (cast_call known call0 args) \<and>
    wf_result (query_call args) \<and> wf_result (link_call args) \<and>
    wf_result (fst (lookup_fun cv NS u1 u2 u3 e)) \<and>
    wf_result (fst (register_link_fun cv NS u1 u2 u3 args e)) \<and>
    wf_result (fst (register_call cv NS n args e)) \<and>
    wf_result (fst (alloc_call cap_alloc cap_free create cv n objt args e)) \<and>
    (env_init env f = Some c \<longrightarrow> wf_cap c)"
proof (intro conjI allI impI)
  have arg: "wf_val (lua_arg args i)" for i using args by (simp add: lua_arg_def list_all_length)
  have last: "\<not> length args < 2 \<Longrightarrow> wf_val (last args)" using args by (cases args rule: rev_cases) simp_all
  show "wf_result r" if "set_mode_call cv n args = Some r" for r
    using that n by (auto simp: set_mode_call_def wf_result_def split: list.splits if_splits lval.splits)
  show "wf_result (full_call n)" using n by (simp add: full_call_def wf_result_def)
  show "wf_result (cast_call known call0 args)"
  proof -
    define w where "w = (if lua_isfunction (lua_arg args 1) then call0 (lua_arg args 1) else lua_arg args 1)"
    have "wf_val w" using arg call0 by (simp add: w_def)
    then show ?thesis
      unfolding cast_call_def Let_def w_def [symmetric] by (cases w) (simp_all add: wf_result_def)
  qed
  show "wf_result (query_call args)"
  proof (cases "length args < 2")
    case False
    then have "0 < length args" "1 < length args" by auto
    then have "wf_val (args ! 0)" "wf_val (args ! 1)" "2 < length args \<longrightarrow> wf_val (args ! 2)"
      using args unfolding list_all_length by blast+
    with False show ?thesis by (simp add: query_call_def wf_result_def)
  qed (simp add: query_call_def wf_result_def)
  show "wf_result (link_call args)"
  proof (cases "\<exists>c. lua_arg args 0 = LCap c")
    case True
    then obtain c where c: "lua_arg args 0 = LCap c" by blast
    define name where "name = lua_arg (args @ [LCap c]) (Suc 0)"
    have "wf_val (LCap c)" using arg [of 0] c by simp
    with args have "list_all wf_val (args @ [LCap c])" by simp
    then have "wf_val name" by (simp add: name_def lua_arg_def list_all_length)
    with \<open>list_all wf_val (args @ [LCap c])\<close> have "list_all wf_val (args @ [LCap c, name])" by simp
    then have "wf_val (lua_arg (args @ [LCap c, name]) 2)" unfolding lua_arg_def list_all_length by simp
    with \<open>wf_val name\<close> \<open>wf_val (LCap c)\<close> c show ?thesis
      by (simp add: link_call_def wf_result_def Let_def flip: name_def)
  next
    case False
    then show ?thesis by (cases "lua_arg args 0") (simp_all add: link_call_def wf_result_def)
  qed
  show "wf_result (fst (lookup_fun cv NS u1 u2 u3 e))"
    by (auto simp: lookup_fun_def wf_result_def split_beta Let_def split: lval.splits)
  show "wf_result (fst (register_link_fun cv NS u1 u2 u3 args e))"
    by (auto simp: register_link_fun_def wf_result_def split_beta Let_def split: lval.splits)
  show "wf_result (fst (register_call cv NS n args e))"
    using last by (auto simp: register_call_def wf_result_def split_beta Let_def split: lval.splits option.splits)
  show "wf_result (fst (alloc_call cap_alloc cap_free create cv n objt args e))"
    by (auto simp: alloc_call_def wf_result_def split_beta Let_def)
  have reg: "fold (\<lambda>(name, c). register_cap name c) xs m f = Some c \<Longrightarrow> (\<forall>k c. m k = Some c \<longrightarrow> wf_cap c) \<Longrightarrow> wf_cap c" for xs m
    by (induction xs arbitrary: m) (auto simp: register_cap_def split: if_splits)
  show "wf_cap c" if "env_init env f = Some c"
    by (rule reg [OF that [unfolded env_init_def]]) (auto simp: register_cap_def split: if_splits)
qed

lemma cap_values_wf_witness:
  "\<exists>c. set_mode_call \<lparr>cv_tonumber = (\<lambda>_. None), cv_tostr = (\<lambda>_. [])\<rparr>
      (cap_set 0x5000 (Cap_new 0 0)) [LStr ''ws''] = Some (Inr (LCap c)) \<and> wf_cap c \<and> lc_rights c = 7"
proof -
  have p: "parse_mode ''ws'' = 7" by (simp add: parse_mode_def mode_letter_def c_str_def)
  define cv where "cv = \<lparr>cv_tonumber = (\<lambda>_ :: byte list. None :: u32 option), cv_tostr = (\<lambda>_. [])\<rparr>"
  define n where "n = cap_set 0x5000 (Cap_new 0 0)"
  have "set_mode_call cv n [LStr ''ws''] = Some (Inr (LCap (cap_with_rights n 7)))"
    by (simp add: set_mode_call_def lua_isnumber_def cv_def p)
  moreover have "lc_rights (cap_with_rights n 7) = 7"
    by (simp add: cap_with_rights_def n_def cap_set_def Cap_new_def all_rights_def set_rights_def)
  moreover have "\<forall>r. set_mode_call cv n [LStr ''ws''] = Some r \<longrightarrow> wf_result r"
    by (rule cap_values_wf [THEN conjunct1, of _ _ "\<lambda>_. LNil"]) (simp_all add: n_def)
  ultimately show ?thesis by (auto simp: wf_result_def cv_def n_def)
qed

lemma bit_letters:
  "bit (2 :: int) i \<longleftrightarrow> i = 1" "bit (8 :: int) i \<longleftrightarrow> i = 3" "bit (16 :: int) i \<longleftrightarrow> i = 4" "bit (32 :: int) i \<longleftrightarrow> i = 5"
  using bit_exp_iff [of 1 i, where ?'a = int] bit_exp_iff [of 3 i, where ?'a = int]
    bit_exp_iff [of 4 i, where ?'a = int] bit_exp_iff [of 5 i, where ?'a = int] by simp_all

lemma mode_letter_or: "mode_letter c r = r OR mode_letter c 0"
  by (simp add: mode_letter_def)

lemma bit_mode_letter:
  "bit (mode_letter c 0) i \<longleftrightarrow>
     i = 0 \<and> (c = CHR ''w'' \<or> c = CHR ''W'') \<or> i = 1 \<and> (c = CHR ''s'' \<or> c = CHR ''S'') \<or>
     i = 2 \<and> (c = CHR ''r'' \<or> c = CHR ''R'') \<or> i = 3 \<and> (c = CHR ''d'' \<or> c = CHR ''D'') \<or>
     i = 4 \<and> (c = CHR ''n'' \<or> c = CHR ''N'') \<or> i = 5 \<and> (c = CHR ''c'' \<or> c = CHR ''C'')"
proof (cases "c \<in> set ''rRwWsSdDnNcC''")
  case True
  then show ?thesis
    unfolding list.set insert_iff empty_iff
    by (elim disjE) (auto simp: mode_letter_def bit_4_int bit_letters bit_1_iff)
next
  case False
  then have "mode_letter c 0 = 0" by (simp add: mode_letter_def)
  then show ?thesis using False by simp
qed

lemma bit_mode_fold:
  "bit (fold mode_letter s r) i \<longleftrightarrow> bit r i \<or> (\<exists>c \<in> set s. bit (mode_letter c 0) i)"
proof (induction s arbitrary: r)
  case Nil
  then show ?case by simp
next
  case (Cons c s)
  have "bit (mode_letter c r) i \<longleftrightarrow> bit r i \<or> bit (mode_letter c 0) i"
    by (subst mode_letter_or) (simp only: bit_or_iff)
  with Cons.IH show ?case by auto
qed

lemma bit_parse_mode:
  "bit (parse_mode s) i \<longleftrightarrow> i = 2 \<or> (\<exists>c \<in> set (c_str s). bit (mode_letter c 0) i)"
  by (auto simp: parse_mode_def bit_mode_fold bit_4_int)

lemma parse_mode_small: "bit (parse_mode s) i \<Longrightarrow> i < 6"
  by (auto simp: bit_parse_mode bit_mode_letter)

text \<open>Rights of at most eight bits that contain the right to read are taken over unchanged.\<close>

lemma bit_with_rights:
  assumes "\<forall>i. bit r i \<longrightarrow> i < 8" and "bit r 2"
  shows "bit (lc_rights (cap_with_rights n r)) i \<longleftrightarrow> bit r i" and "all_rights (cap_with_rights n r) = r"
proof -
  show b: "bit (lc_rights (cap_with_rights n r)) i \<longleftrightarrow> bit r i" for i
  proof (cases "all_rights n = r")
    case True
    have "bit (all_rights n) i \<longleftrightarrow> bit (lc_rights n) i"
      using bit_imp_le_length [of "lc_rights n" i] by (auto simp: all_rights_def bit_unsigned_iff)
    moreover have "cap_with_rights n r = n" using True by (simp add: cap_with_rights_def)
    ultimately show ?thesis using True by simp
  next
    case False
    then have "bit (lc_rights (cap_with_rights n r)) i \<longleftrightarrow> i < 16 \<and> i < 8 \<and> bit r i \<or> i = 2"
      by (auto simp: cap_with_rights_def set_rights_def bit_or_iff bit_unsigned_iff bit_4_int)
    then show ?thesis using assms by auto
  qed
  show "all_rights (cap_with_rights n r) = r"
  proof (rule bit_word_eqI)
    fix i assume "i < LENGTH(32)"
    then show "bit (all_rights (cap_with_rights n r)) i \<longleftrightarrow> bit r i"
      unfolding all_rights_def bit_unsigned_iff b by simp
  qed
qed

lemma rights_halves:
  assumes "\<forall>i. bit (lc_rights c) i \<longrightarrow> i < 8"
  shows "cap_rights c OR ext_rights c = all_rights c" and "cap_rights c AND ext_rights c = 0"
proof -
  have lo: "bit (15 :: int) i \<longleftrightarrow> i < 4" for i
    using bit_mask_iff [of 4 i, where ?'a = int] by (simp add: mask_eq_exp_minus_1)
  have hi: "bit (240 :: int) i \<longleftrightarrow> 4 \<le> i \<and> i < 8" for i
  proof -
    have eq: "(240 :: int) = push_bit 4 15" by (simp add: push_bit_eq_mult)
    show ?thesis unfolding eq bit_push_bit_iff lo by auto
  qed
  show "cap_rights c OR ext_rights c = all_rights c"
    by (rule bit_word_eqI)
      (use assms in \<open>auto simp: cap_rights_def ext_rights_def all_rights_def bit_simps lo hi\<close>)
  show "cap_rights c AND ext_rights c = 0"
    by (rule bit_word_eqI) (auto simp: cap_rights_def ext_rights_def bit_simps lo hi)
qed

text \<open>C39: what a mode string grants, read up to its first terminator: the new capability denotes the same object, its right to read is always set,
  each of the rights w, s, d and the extended rights n, c exactly if its letter occurs there in either case; the
  rights for the mapping and the extended rights are disjoint and make up all of them; applying the same
  mode again changes nothing.\<close>

theorem mode_grants:
  assumes "cv_tonumber cv s = None"
  shows "\<exists>c. set_mode_call cv n [LStr s] = Some (Inr (LCap c)) \<and> lc_cap c = lc_cap n \<and> lc_flags c = lc_flags n \<and>
    (bit (lc_rights c) 0 \<longleftrightarrow> CHR ''w'' \<in> set (c_str s) \<or> CHR ''W'' \<in> set (c_str s)) \<and>
    (bit (lc_rights c) 1 \<longleftrightarrow> CHR ''s'' \<in> set (c_str s) \<or> CHR ''S'' \<in> set (c_str s)) \<and>
    bit (lc_rights c) 2 \<and>
    (bit (lc_rights c) 3 \<longleftrightarrow> CHR ''d'' \<in> set (c_str s) \<or> CHR ''D'' \<in> set (c_str s)) \<and>
    (bit (lc_rights c) 4 \<longleftrightarrow> CHR ''n'' \<in> set (c_str s) \<or> CHR ''N'' \<in> set (c_str s)) \<and>
    (bit (lc_rights c) 5 \<longleftrightarrow> CHR ''c'' \<in> set (c_str s) \<or> CHR ''C'' \<in> set (c_str s)) \<and>
    (\<forall>i. bit (lc_rights c) i \<longrightarrow> i < 6) \<and>
    cap_rights c OR ext_rights c = all_rights c \<and> cap_rights c AND ext_rights c = 0 \<and>
    set_mode_call cv c [LStr s] = Some (Inr (LCap c))"
proof -
  define c where "c = cap_with_rights n (parse_mode s)"
  have eq: "set_mode_call cv m [LStr s] = Some (Inr (LCap (cap_with_rights m (parse_mode s))))" for m
    using assms by (simp add: set_mode_call_def lua_isnumber_def)
  have small: "\<forall>i. bit (parse_mode s) i \<longrightarrow> i < 8"
  proof (intro allI impI)
    fix i assume "bit (parse_mode s) i"
    from parse_mode_small [OF this] show "i < 8" by simp
  qed
  have two: "bit (parse_mode s) 2" by (simp add: bit_parse_mode)
  note b = bit_with_rights(1) [OF small two, of n, folded c_def]
  have all: "all_rights c = parse_mode s" unfolding c_def by (rule bit_with_rights(2) [OF small two])
  have same: "lc_cap c = lc_cap n" "lc_flags c = lc_flags n"
    by (simp_all add: c_def cap_with_rights_def set_rights_def)
  have "\<forall>i. bit (lc_rights c) i \<longrightarrow> i < 8" using small b by simp
  note halves = rights_halves [OF this]
  have again: "set_mode_call cv c [LStr s] = Some (Inr (LCap c))"
    unfolding eq using all by (simp add: cap_with_rights_def)
  have six: "\<forall>i. bit (lc_rights c) i \<longrightarrow> i < 6" using b parse_mode_small by blast
  have first: "set_mode_call cv n [LStr s] = Some (Inr (LCap c))" unfolding eq c_def ..
  show ?thesis
    by (rule exI [of _ c], intro conjI first same halves again six)
      (unfold b bit_parse_mode bit_mode_letter, auto)
qed

lemma mode_grants_witness:
  "\<exists>c. set_mode_call \<lparr>cv_tonumber = (\<lambda>_. None), cv_tostr = (\<lambda>_. [])\<rparr> (cap_set 0x5000 (Cap_new 0 0))
      [LStr (''Wc'' @ [NUL] @ ''s'')] = Some (Inr (LCap c)) \<and>
    lc_cap c = 0x5000 \<and> bit (lc_rights c) 0 \<and> \<not> bit (lc_rights c) 1 \<and> bit (lc_rights c) 5"
proof -
  define s where "s = ''Wc'' @ [NUL] @ ''s''"
  have c: "c_str s = ''Wc''" by (simp add: s_def c_str_def)
  have "cv_tonumber \<lparr>cv_tonumber = (\<lambda>_. None), cv_tostr = (\<lambda>_. [])\<rparr> s = None" by simp
  from mode_grants [OF this, of "cap_set 0x5000 (Cap_new 0 0)"] show ?thesis
    unfolding c s_def [symmetric] by (elim exE, intro exI, elim conjE, intro conjI) (assumption | simp add: cap_set_def)+
qed

section \<open>Initial capabilities\<close>







end
