(* ===== verification/Ned_Types.thy ===== *)
theory Ned_Types
  imports Ned_Caps
begin

text \<open>
  The types of capabilities in Lua (dom0-ned: lua_cap.cc, lua_cap.h): the table of known types, the
  lookup of a method on a capability, \<open>L4.cast\<close> with the type it gives, and the text of a capability.

  A class table maps names to methods and holds its own name. The environment table of a userdata is
  an identity, since copies share it; its entry 0 caches the class. What an object answers to
  \<open>L4::Meta::interface\<close> is the parameter \<open>M\<close>, \<open>fmt\<close> is the format \<open>%p\<close>.
\<close>

section \<open>The table of types\<close>

datatype cap_method =
    M_is_valid | M_full | M_set_mode
  | M_query | M_register | M_link  \<comment> \<open>of name spaces\<close>
  | M_lua_register  \<comment> \<open>the function of \<open>ned.lua\<close> for name spaces\<close>
  | M_alloc  \<comment> \<open>of factories\<close>

datatype tval = T_method cap_method | T_str "byte list"

type_synonym class_tab = "byte list \<rightharpoonup> tval"

datatype cast_key = By_name "byte list" | By_proto u32

record cap_types =
  ty_casts :: "cast_key \<rightharpoonup> class_tab"
  ty_env :: "nat \<Rightarrow> class_tab option"
  ty_next :: nat

record tcap =
  tc_cap :: lua_cap
  tc_env :: nat

definition create_class :: "class_tab \<Rightarrow> byte list \<Rightarrow> class_tab" where
  "create_class rm type = rm(''_CLASS_NAME'' \<mapsto> T_str type)"

definition cap_methods :: class_tab where
  "cap_methods =
     [''is_valid'' \<mapsto> T_method M_is_valid, ''svr'' \<mapsto> T_method M_full, ''rights'' \<mapsto> T_method M_set_mode,
      ''mode'' \<mapsto> T_method M_set_mode, ''m'' \<mapsto> T_method M_set_mode]"

definition init_lua_cap :: "cap_types \<Rightarrow> cap_types" where
  "init_lua_cap T = T\<lparr>ty_casts := [By_name ''void'' \<mapsto> create_class cap_methods ''void'']\<rparr>"

text \<open>A type without a protocol number (0) is known by its name only.\<close>

definition register_cap_type :: "byte list \<Rightarrow> u32 \<Rightarrow> class_tab \<Rightarrow> cap_types \<Rightarrow> cap_types" where
  "register_cap_type name proto rm T =
     (let c = create_class rm name;
          casts = (if proto \<noteq> 0 then (ty_casts T)(By_proto proto \<mapsto> c) else ty_casts T)
      in T\<lparr>ty_casts := casts(By_name name \<mapsto> c)\<rparr>)"

text \<open>
  The methods of name spaces (lua_ns.cc) and factories (lua_factory.cc). A key their own tables do not
  have is looked up in the class of all capabilities.
\<close>

definition get_class :: "cap_types \<Rightarrow> class_tab option" where
  "get_class T = ty_casts T (By_name ''void'')"

definition add_class_metatable :: "cap_types \<Rightarrow> class_tab \<Rightarrow> class_tab" where
  "add_class_metatable T t = (case get_class T of None \<Rightarrow> t | Some void \<Rightarrow> void ++ t)"

definition ns_methods :: class_tab where
  "ns_methods =
     [''q'' \<mapsto> T_method M_query, ''query'' \<mapsto> T_method M_query, ''__register'' \<mapsto> T_method M_register,
      ''l'' \<mapsto> T_method M_link, ''link'' \<mapsto> T_method M_link]"

definition factory_methods :: class_tab where
  "factory_methods = [''create'' \<mapsto> T_method M_alloc]"

definition Ns_lib_init :: "byte list \<Rightarrow> u32 \<Rightarrow> cap_types \<Rightarrow> cap_types" where
  "Ns_lib_init name proto T = register_cap_type name proto (add_class_metatable T ns_methods) T"

definition Factory_lib_init :: "byte list \<Rightarrow> u32 \<Rightarrow> cap_types \<Rightarrow> cap_types" where
  "Factory_lib_init name proto T = register_cap_type name proto (add_class_metatable T factory_methods) T"

text \<open>
  The script \<open>ned.lua\<close> adds a method of its own to the class of name spaces, under two names. A class table
  is shared by the entries and the environments that refer to it; the class name identifies it. If there is no
  such class, the script ends with an error.
\<close>

definition lua_ns_names :: class_tab where
  "lua_ns_names = [''register'' \<mapsto> T_method M_lua_register, ''r'' \<mapsto> T_method M_lua_register]"

definition extend_class :: "byte list \<Rightarrow> class_tab \<Rightarrow> class_tab \<Rightarrow> class_tab" where
  "extend_class cn add t = (if t ''_CLASS_NAME'' = Some (T_str cn) then t ++ add else t)"

definition ned_lua_classes :: "byte list \<Rightarrow> cap_types \<Rightarrow> cap_types option" where
  "ned_lua_classes ns T =
     (case ty_casts T (By_name ns) of
        None \<Rightarrow> None
      | Some _ \<Rightarrow> Some (T\<lparr>ty_casts := map_option (extend_class ns lua_ns_names) \<circ> ty_casts T,
          ty_env := map_option (extend_class ns lua_ns_names) \<circ> ty_env T\<rparr>))"

definition get_method_table :: "byte list \<Rightarrow> cap_types \<Rightarrow> class_tab option" where
  "get_method_table typ T = ty_casts T (By_name typ)"

section \<open>Lookup of a method\<close>

record meta_reply =
  mr_err :: int
  mr_name :: "byte list option"  \<comment> \<open>the first value, if it is a string\<close>
  mr_proto_int :: bool

definition find_dynamic_type :: "meta_reply \<Rightarrow> cap_types \<Rightarrow> class_tab option" where
  "find_dynamic_type reply T =
     (if mr_err reply \<noteq> 0 then None
      else case mr_name reply of
        None \<Rightarrow> None
      | Some name \<Rightarrow> if \<not> mr_proto_int reply then None else get_method_table name T)"

text \<open>\<open>Cap::index\<close>; the inner \<open>None\<close> is nil or no value. Indexing a nil table raises an error.\<close>

definition cap_index ::
  "(u32 \<Rightarrow> meta_reply) \<Rightarrow> byte list \<Rightarrow> tcap \<Rightarrow> cap_types \<Rightarrow> (string + tval option) \<times> cap_types" where
  "cap_index M key c T =
     (case get_method_table ''void'' T of
        None \<Rightarrow> (Inl ''attempt to index a nil value'', T)
      | Some void \<Rightarrow>
          (case void key of
             Some v \<Rightarrow> (Inr (Some v), T)
           | None \<Rightarrow>
               (case ty_env T (tc_env c) of
                  Some t \<Rightarrow> (Inr (t key), T)
                | None \<Rightarrow>
                    (case find_dynamic_type (M (lc_cap (tc_cap c))) T of
                       None \<Rightarrow> (Inr None, T)
                     | Some t \<Rightarrow> (Inr (t key), T\<lparr>ty_env := (ty_env T)(tc_env c := Some t)\<rparr>)))))"

text \<open>Assignments to a field of a capability are ignored.\<close>

definition cap_newindex :: "byte list \<Rightarrow> lval \<Rightarrow> tcap \<Rightarrow> cap_types \<Rightarrow> cap_types" where
  "cap_newindex key v c T = T"

section \<open>New capabilities\<close>

definition push_void_cap :: "cap_types \<Rightarrow> tcap \<times> cap_types" where
  "push_void_cap T =
     (\<lparr>tc_cap = Cap_new L4_INVALID_CAP 0, tc_env = ty_next T\<rparr>,
      T\<lparr>ty_env := (ty_env T)(ty_next T := None), ty_next := Suc (ty_next T)\<rparr>)"

text \<open>The key is a Lua value; only strings and numbers are keys of the table.\<close>

definition cast_key_of :: "lval \<Rightarrow> cast_key option" where
  "cast_key_of v = (case v of LStr s \<Rightarrow> Some (By_name s) | LInt i \<Rightarrow> Some (By_proto i) | _ \<Rightarrow> None)"

definition push_new_cap :: "lval \<Rightarrow> bool \<Rightarrow> cap_types \<Rightarrow> tcap option \<times> cap_types" where
  "push_new_cap key void_cap T =
     (case Option.bind (cast_key_of key) (ty_casts T) of
        Some t \<Rightarrow>
          (let (c, T) = push_void_cap T in (Some c, T\<lparr>ty_env := (ty_env T)(tc_env c := Some t)\<rparr>))
      | None \<Rightarrow> if void_cap then (let (c, T) = push_void_cap T in (Some c, T)) else (None, T))"

text \<open>\<open>L4.cast(type, cap)\<close> on a capability that is not a function.\<close>

definition tcast :: "lval \<Rightarrow> tcap \<Rightarrow> cap_types \<Rightarrow> tcap option \<times> cap_types" where
  "tcast typ c T =
     (case push_new_cap typ False T of
        (Some nc, T) \<Rightarrow> (Some (nc\<lparr>tc_cap := cap_assign (tc_cap c) (tc_cap nc)\<rparr>), T)
      | (None, T) \<Rightarrow> (None, T))"

text \<open>\<open>__set_rights\<close>: a copy keeps the environment of the original.\<close>

definition tcap_set_rights :: "u32 \<Rightarrow> tcap \<Rightarrow> tcap" where
  "tcap_set_rights r c = c\<lparr>tc_cap := cap_with_rights (tc_cap c) r\<rparr>"

definition cap_tostring :: "(u32 \<Rightarrow> byte list) \<Rightarrow> tcap \<Rightarrow> cap_types \<Rightarrow> byte list option" where
  "cap_tostring fmt c T = do {
     type \<leftarrow> (case ty_env T (tc_env c) of
         None \<Rightarrow> Some ''void''
       | Some t \<Rightarrow> (case t ''_CLASS_NAME'' of Some (T_str s) \<Rightarrow> Some s | _ \<Rightarrow> None));
     Some (if cap_is_valid (lc_cap (tc_cap c))
           then ''L4::Cap<'' @ type @ ''>['' @ fmt (lc_cap (tc_cap c)) @ ''] r='' @ fmt (all_rights (tc_cap c)) @
             '' f='' @ fmt (ucast (lc_flags (tc_cap c)))
           else ''L4::Cap<'' @ type @ ''>::Invalid'')
   }"

text \<open>The metatable of all capabilities.\<close>

datatype cap_meta = Meta_gc | Meta_tostring | Meta_index

definition cap_metatable :: "(byte list \<times> cap_meta) list" where
  "cap_metatable = [(''__gc'', Meta_gc), (''__tostring'', Meta_tostring), (''__index'', Meta_index)]"

section \<open>The invariant\<close>

text \<open>
  Every class that is known or cached holds its name, the class of all capabilities is known, and
  environments not yet made are empty.
\<close>

definition named_class :: "class_tab \<Rightarrow> bool" where
  "named_class t \<longleftrightarrow> (\<exists>s. t ''_CLASS_NAME'' = Some (T_str s))"

definition types_ok :: "cap_types \<Rightarrow> bool" where
  "types_ok T \<longleftrightarrow> ty_casts T (By_name ''void'') \<noteq> None \<and>
     (\<forall>k t. ty_casts T k = Some t \<longrightarrow> named_class t) \<and>
     (\<forall>e t. ty_env T e = Some t \<longrightarrow> named_class t \<and> e < ty_next T)"

named_theorems types_ops \<open>operations on types\<close>

declare register_cap_type_def [types_ops] get_method_table_def [types_ops] find_dynamic_type_def [types_ops]
  cap_index_def [types_ops] push_void_cap_def [types_ops] push_new_cap_def [types_ops] tcast_def [types_ops]

lemma create_class_named [simp]: "named_class (create_class rm type)"
  by (simp add: create_class_def named_class_def)

lemma types_okD:
  assumes "types_ok T"
  shows "ty_casts T (By_name ''void'') \<noteq> None" "ty_casts T k = Some t \<Longrightarrow> named_class t"
    "ty_env T e = Some t \<Longrightarrow> named_class t"
  using assms by (auto simp: types_ok_def)

lemma types_ok_init: "(\<forall>e. ty_env T e = None) \<Longrightarrow> types_ok (init_lua_cap T)"
  by (auto simp: types_ok_def init_lua_cap_def)

lemma types_ok_register: "types_ok T \<Longrightarrow> types_ok (register_cap_type name proto rm T)"
  by (auto simp: types_ok_def types_ops Let_def)

lemma extend_class_named: "named_class t \<Longrightarrow> named_class (extend_class cn lua_ns_names t)"
  by (auto simp: named_class_def extend_class_def lua_ns_names_def map_add_def)

lemma types_ok_ned_lua: "types_ok T \<Longrightarrow> ned_lua_classes ns T = Some T' \<Longrightarrow> types_ok T'"
  by (auto simp: types_ok_def ned_lua_classes_def intro!: extend_class_named split: option.splits)

lemma types_ok_void: "types_ok T \<Longrightarrow> push_void_cap T = (c, T') \<Longrightarrow>
    types_ok T' \<and> tc_env c < ty_next T' \<and> ty_casts T' = ty_casts T"
  by (auto simp: types_ok_def types_ops less_Suc_eq split: if_splits)

lemma types_ok_new: "types_ok T \<Longrightarrow> push_new_cap key b T = (r, T') \<Longrightarrow> types_ok T'"
  by (auto simp: types_ok_def types_ops less_Suc_eq bind_eq_Some_conv split: option.splits if_splits)

lemma types_ok_cast: "types_ok T \<Longrightarrow> tcast typ c T = (r, T') \<Longrightarrow> types_ok T'"
  unfolding tcast_def by (auto dest: types_ok_new split: prod.splits option.splits)

lemma find_dynamic_type_known: "find_dynamic_type reply T = Some t \<Longrightarrow> \<exists>k. ty_casts T k = Some t"
  by (auto simp: find_dynamic_type_def get_method_table_def split: option.splits if_splits)

lemma types_ok_index:
  assumes "types_ok T" and "tc_env c < ty_next T" and "cap_index M key c T = (r, T')"
  shows "types_ok T' \<and> ty_next T' = ty_next T \<and> (\<exists>v. r = Inr v)"
proof -
  from assms(1) obtain void where v: "get_method_table ''void'' T = Some void"
    by (auto simp: types_ok_def get_method_table_def)
  show ?thesis
  proof (cases "void key = None \<and> ty_env T (tc_env c) = None")
    case True
    show ?thesis
    proof (cases "find_dynamic_type (M (lc_cap (tc_cap c))) T")
      case None
      with True assms v show ?thesis by (auto simp: cap_index_def)
    next
      case (Some t)
      then have "named_class t"
        using find_dynamic_type_known types_okD(2) [OF assms(1)] by blast
      with Some True assms v show ?thesis
        by (auto simp: cap_index_def types_ok_def split: if_splits)
    qed
  next
    case False
    with assms v show ?thesis by (auto simp: cap_index_def split: option.splits)
  qed
qed

text \<open>
  A lookup that has found the class of an object is the last one that asks the object: every later
  lookup on this capability or on a copy of it has the same answer, whatever the object would say.
\<close>

lemma cap_index_cached:
  assumes "cap_index M key c T = (Inr v, T')" and "ty_env T' (tc_env c) \<noteq> None"
  shows "cap_index M' key (tcap_set_rights r c) T' = (Inr v, T')"
  using assms by (auto simp: cap_index_def tcap_set_rights_def get_method_table_def
      split: option.splits if_splits)

text \<open>\<open>L4.cast\<close> to a known type: no lookup asks the object, and the methods of all capabilities come first.\<close>

lemma cap_index_cast:
  assumes "types_ok T" and "cast_key_of typ = Some k" and "ty_casts T k = Some t"
    and "tcast typ c T = (Some nc, T')" and "ty_casts T (By_name ''void'') = Some void"
  shows "cap_index M key nc T' = (Inr (case void key of None \<Rightarrow> t key | v \<Rightarrow> v), T')"
  using assms by (auto simp: types_ops split: option.splits)

lemma cap_tostring_total: "types_ok T \<Longrightarrow> \<exists>s. cap_tostring fmt c T = Some s"
proof (cases "ty_env T (tc_env c)")
  case (Some t)
  assume "types_ok T"
  from types_okD(3) [OF this Some] obtain s where "t ''_CLASS_NAME'' = Some (T_str s)"
    unfolding named_class_def by blast
  with Some show ?thesis by (simp add: cap_tostring_def)
qed (simp add: cap_tostring_def)

end
