(* ===== verification/Ned_Methods.thy ===== *)
theory Ned_Methods
  imports Ned_Types
begin

text \<open>
  Method calls on capabilities in Ned, from the name to the function: the classes that \<open>init_lua_cap\<close>
  and the libraries of name spaces and factories register (lua_cap.cc, lua_ns.cc, lua_factory.cc), the
  lookup of \<open>Ned_Types\<close>, and the functions of \<open>Ned_Caps\<close>; and the method \<open>register\<close> that the script
  \<open>ned.lua\<close> adds to the class of name spaces before any other program runs.
\<close>

section \<open>The classes of a running Ned\<close>

text \<open>\<open>nsn\<close> and \<open>fan\<close> are the type names of L4Re with their protocol numbers.\<close>

definition cap_libs :: "byte list \<Rightarrow> u32 \<Rightarrow> byte list \<Rightarrow> u32 \<Rightarrow> cap_types \<Rightarrow> cap_types" where
  "cap_libs nsn pn fan pf T = Factory_lib_init fan pf (Ns_lib_init nsn pn (init_lua_cap T))"

text \<open>
  The script looks up the class under the C++ name of the type (\<open>mangle_class\<close> of \<open>L4Re::Namespace\<close>),
  which is \<open>nsn\<close>.
\<close>

definition ned_classes :: "byte list \<Rightarrow> u32 \<Rightarrow> byte list \<Rightarrow> u32 \<Rightarrow> cap_types \<Rightarrow> cap_types option" where
  "ned_classes nsn pn fan pf T = ned_lua_classes nsn (cap_libs nsn pn fan pf T)"

text \<open>The methods of a name space in a running Ned.\<close>

definition ned_ns_methods :: class_tab where
  "ned_ns_methods = ns_methods ++ lua_ns_names"

section \<open>Calls\<close>

text \<open>
  A function value is called with arguments: a function of the program (\<open>user\<close>), a query or a link.
\<close>

definition call_fun ::
  "(nat \<Rightarrow> lval list \<Rightarrow> 'e \<Rightarrow> lresult \<times> 'e) \<Rightarrow> conversions \<Rightarrow> 'e namespace \<Rightarrow> lval \<Rightarrow> lval list \<Rightarrow> 'e \<Rightarrow>
   lresult \<times> 'e" where
  "call_fun user cv NS v args e =
     (case v of
        LUser n \<Rightarrow> user n args e
      | LLookup ns name rights \<Rightarrow> lookup_fun cv NS ns name rights e
      | LLink src name flags \<Rightarrow> register_link_fun cv NS src name flags args e
      | _ \<Rightarrow> (Inl ''attempt to call'', e))"

text \<open>
  \<open>register(key, value, fab)\<close> of \<open>ned.lua\<close>: a function as value is called with the name space and the
  key; nil registers nothing, a table is turned into a capability by \<open>fab\<close>, if there is one. \<open>reg\<close> is the
  method \<open>__register\<close> of the name space. There is no result.
\<close>

definition lua_register ::
  "(lval \<Rightarrow> lval list \<Rightarrow> 'e \<Rightarrow> lresult \<times> 'e) \<Rightarrow> (lval list \<Rightarrow> 'e \<Rightarrow> lresult \<times> 'e) \<Rightarrow> lua_cap \<Rightarrow> lval list \<Rightarrow> 'e \<Rightarrow>
   lresult \<times> 'e" where
  "lua_register callf reg self args e =
     (let key = lua_arg args 0; value = lua_arg args 1; fab = lua_arg args 2;
          done = (\<lambda>(r, e). (case r of Inl err \<Rightarrow> Inl err | Inr _ \<Rightarrow> Inr LNil, e))
      in case (if lua_isfunction value then callf value [LCap self, key] e else (Inr value, e)) of
           (Inl err, e) \<Rightarrow> (Inl err, e)
         | (Inr v, e) \<Rightarrow>
             if v = LNil then (Inr LNil, e)
             else if v \<noteq> LTable then done (reg [key, v] e)
             else if fab \<noteq> LNil \<and> fab \<noteq> LBool False
             then (case callf fab [v] e of
                     (Inl err, e) \<Rightarrow> (Inl err, e)
                   | (Inr w, e) \<Rightarrow> done (reg [key, w] e))
             else (Inr LNil, e))"

definition invoke_cap ::
  "(nat \<Rightarrow> lval list \<Rightarrow> 'e \<Rightarrow> lresult \<times> 'e) \<Rightarrow> conversions \<Rightarrow> 'e namespace \<Rightarrow>
   (u32 \<Rightarrow> u32 \<Rightarrow> u32 \<Rightarrow> fac_arg list \<Rightarrow> 'e \<Rightarrow> int \<times> 'e) \<Rightarrow> cap_method \<Rightarrow>
   lua_cap \<Rightarrow> lval list \<Rightarrow> 'e \<Rightarrow> (lresult \<times> 'e) option" where
  "invoke_cap user cv NS create m n args e =
     (case m of
        M_is_valid \<Rightarrow> Some (is_valid_call n, e)
      | M_full \<Rightarrow> Some (full_call n, e)
      | M_set_mode \<Rightarrow> map_option (\<lambda>r. (r, e)) (set_mode_call cv n args)
      | M_query \<Rightarrow> Some (query_call (LCap n # args), e)
      | M_link \<Rightarrow> Some (link_call (LCap n # args), e)
      | M_register \<Rightarrow> Some (register_call cv NS n args e)
      | M_lua_register \<Rightarrow> Some (lua_register (call_fun user cv NS) (register_call cv NS n) n args e)
      | M_alloc \<Rightarrow>
          Some (if lua_isnumber cv (lua_arg args 0)
                then alloc_call (ns_cap_alloc NS) (ns_cap_free NS) create cv n (lua_tointeger cv (lua_arg args 0))
                  (drop 1 args) e
                else (Inl ''number expected'', e)))"

text \<open>\<open>cap:key(args)\<close>\<close>

definition method_call ::
  "(u32 \<Rightarrow> meta_reply) \<Rightarrow> (nat \<Rightarrow> lval list \<Rightarrow> 'e \<Rightarrow> lresult \<times> 'e) \<Rightarrow> conversions \<Rightarrow> 'e namespace \<Rightarrow>
   (u32 \<Rightarrow> u32 \<Rightarrow> u32 \<Rightarrow> fac_arg list \<Rightarrow> 'e \<Rightarrow> int \<times> 'e) \<Rightarrow>
   byte list \<Rightarrow> tcap \<Rightarrow> lval list \<Rightarrow> cap_types \<Rightarrow> 'e \<Rightarrow> (lresult \<times> cap_types \<times> 'e) option" where
  "method_call M user cv NS create key c args T e =
     (case cap_index M key c T of
        (Inl err, T) \<Rightarrow> Some (Inl err, T, e)
      | (Inr (Some (T_method m)), T) \<Rightarrow> map_option (\<lambda>(r, e). (r, T, e)) (invoke_cap user cv NS create m (tc_cap c) args e)
      | (Inr _, T) \<Rightarrow> Some (Inl ''attempt to call a value that is no function'', T, e))"

section \<open>Which method is found\<close>

text \<open>The methods of all capabilities come first, with the class name of that class.\<close>

definition found :: "class_tab \<Rightarrow> class_tab" where
  "found own key =
     (case cap_methods key of
        Some m \<Rightarrow> Some m
      | None \<Rightarrow> if key = ''_CLASS_NAME'' then Some (T_str ''void'') else own key)"

text \<open>The class an object names in its answer.\<close>

definition dyn_class :: "byte list \<Rightarrow> byte list \<Rightarrow> meta_reply \<Rightarrow> class_tab option" where
  "dyn_class nsn fan reply =
     (if mr_err reply \<noteq> 0 \<or> \<not> mr_proto_int reply then None
      else if mr_name reply = Some nsn then Some ned_ns_methods
      else if mr_name reply = Some fan then Some factory_methods
      else if mr_name reply = Some ''void'' then Some Map.empty
      else None)"

lemma cap_methods_class_name [simp]: "cap_methods ''_CLASS_NAME'' = None"
  by (simp add: cap_methods_def)

text \<open>A class seen through the lookup, which asks the class of all capabilities first.\<close>

definition shows_as :: "class_tab \<Rightarrow> class_tab \<Rightarrow> bool" where
  "shows_as t own \<longleftrightarrow> (\<forall>key. cap_methods key = None \<and> key \<noteq> ''_CLASS_NAME'' \<longrightarrow> t key = own key)"

lemma cap_libs_casts:
  assumes "distinct [''void'', nsn, fan]"
  shows "ty_casts (cap_libs nsn pn fan pf T) (By_name ''void'') = Some (create_class cap_methods ''void'')"
    and "\<exists>t. ty_casts (cap_libs nsn pn fan pf T) (By_name nsn) = Some t \<and> shows_as t ns_methods \<and>
      t ''_CLASS_NAME'' = Some (T_str nsn)"
    and "\<exists>t. ty_casts (cap_libs nsn pn fan pf T) (By_name fan) = Some t \<and> shows_as t factory_methods \<and>
      t ''_CLASS_NAME'' = Some (T_str fan)"
    and "name \<notin> {''void'', nsn, fan} \<Longrightarrow> ty_casts (cap_libs nsn pn fan pf T) (By_name name) = None"
  using assms
  by (auto simp: cap_libs_def Factory_lib_init_def Ns_lib_init_def register_cap_type_def init_lua_cap_def
      add_class_metatable_def get_class_def Let_def create_class_def found_def map_add_def shows_as_def
      split: option.splits if_splits)

lemma shows_as_extend:
  "shows_as t own \<Longrightarrow> t ''_CLASS_NAME'' = Some (T_str cn) \<Longrightarrow>
    shows_as (extend_class cn lua_ns_names t) (own ++ lua_ns_names)"
  by (auto simp: shows_as_def extend_class_def map_add_def split: option.splits)

lemma ned_classes_casts:
  assumes d: "distinct [''void'', nsn, fan]" and T': "ned_classes nsn pn fan pf T = Some T'"
  shows "ty_casts T' (By_name ''void'') = Some (create_class cap_methods ''void'')"
    and "\<exists>t. ty_casts T' (By_name nsn) = Some t \<and> shows_as t ned_ns_methods"
    and "\<exists>t. ty_casts T' (By_name fan) = Some t \<and> shows_as t factory_methods"
    and "name \<notin> {''void'', nsn, fan} \<Longrightarrow> ty_casts T' (By_name name) = None"
proof -
  note c = cap_libs_casts [OF d, where pn = pn and pf = pf and T = T]
  have eq: "ty_casts T' = map_option (extend_class nsn lua_ns_names) \<circ> ty_casts (cap_libs nsn pn fan pf T)"
    using T' by (auto simp: ned_classes_def ned_lua_classes_def split: option.splits)
  show "ty_casts T' (By_name ''void'') = Some (create_class cap_methods ''void'')"
    using c(1) d by (simp add: eq extend_class_def create_class_def)
  show "\<exists>t. ty_casts T' (By_name nsn) = Some t \<and> shows_as t ned_ns_methods"
    using c(2) shows_as_extend by (fastforce simp: eq ned_ns_methods_def)
  show "\<exists>t. ty_casts T' (By_name fan) = Some t \<and> shows_as t factory_methods"
    using c(3) d by (fastforce simp: eq extend_class_def)
  show "ty_casts T' (By_name name) = None" if "name \<notin> {''void'', nsn, fan}"
    using c(4) [OF that] by (simp add: eq)
qed

lemma shows_as_void: "shows_as (create_class cap_methods ''void'') Map.empty"
  by (simp add: shows_as_def found_def create_class_def split: option.split)

lemma cap_index_class:
  assumes "ty_casts T (By_name ''void'') = Some (create_class cap_methods ''void'')"
    and "ty_env T (tc_env c) = Some t" and "shows_as t own"
  shows "cap_index M key c T = (Inr (found own key), T)"
  using assms by (auto simp: cap_index_def get_method_table_def shows_as_def found_def create_class_def
      split: option.splits if_splits)

lemma find_dynamic_libs:
  assumes "distinct [''void'', nsn, fan]" and "ned_classes nsn pn fan pf T0 = Some T1" and T: "ty_casts T = ty_casts T1"
  shows "(case dyn_class nsn fan reply of
      None \<Rightarrow> find_dynamic_type reply T = None
    | Some own \<Rightarrow> \<exists>t. find_dynamic_type reply T = Some t \<and> shows_as t own)"
  using ned_classes_casts [OF assms(1,2)] shows_as_void
  by (auto simp: dyn_class_def find_dynamic_type_def get_method_table_def T split: option.splits if_splits)

text \<open>C38: What a method call on a capability finds in a running Ned, once its libraries are initialised and its script has
  added \<open>register\<close> and \<open>r\<close> to the methods of name spaces, and as long as no program changes the tables of classes. A capability cast
  to a name space or a factory has the methods of that class, and any other capability those of the class
  its object names; but for every capability \<open>is_valid\<close>, \<open>svr\<close>, \<open>rights\<close>, \<open>mode\<close> and \<open>m\<close> come first, and the
  class name is that of the class of all capabilities. An object that does not support the protocol or names
  another type has these methods only. No lookup raises an error, and once the class of an object is known
  it is not asked again, whatever it would answer.
\<close>

theorem capability_methods:
  assumes names: "distinct [''void'', nsn, fan]"
    and T: "ned_classes nsn pn fan pf T0 = Some T1" "ty_casts T = ty_casts T1" "types_ok T"
  shows "(\<exists>nc T'. tcast (LStr nsn) c T = (Some nc, T') \<and> types_ok T' \<and>
      (\<forall>M key. cap_index M key nc T' = (Inr (found ned_ns_methods key), T'))) \<and>
    (\<exists>nc T'. tcast (LStr fan) c T = (Some nc, T') \<and> types_ok T' \<and>
      (\<forall>M key. cap_index M key nc T' = (Inr (found factory_methods key), T'))) \<and>
    (ty_env T (tc_env c) = None \<and> tc_env c < ty_next T \<longrightarrow>
      (\<exists>T'. cap_index M key c T =
          (Inr (found (case dyn_class nsn fan (M (lc_cap (tc_cap c))) of None \<Rightarrow> Map.empty | Some t \<Rightarrow> t) key), T') \<and>
        types_ok T' \<and> ty_casts T' = ty_casts T \<and>
        (found Map.empty key = None \<and> dyn_class nsn fan (M (lc_cap (tc_cap c))) = Some own \<longrightarrow>
          (\<forall>M' key' r. cap_index M' key' (tcap_set_rights r c) T' = (Inr (found own key'), T')))))"
proof (intro conjI impI)
  note casts = ned_classes_casts [OF names T(1), folded T(2)]
  have known: "\<exists>nc T'. tcast (LStr n) c T = (Some nc, T') \<and> types_ok T' \<and>
      (\<forall>M key. cap_index M key nc T' = (Inr (found own key), T'))"
    if t: "ty_casts T (By_name n) = Some t" and own: "shows_as t own" for n t own
  proof -
    obtain nc T' where nc: "tcast (LStr n) c T = (Some nc, T')" "ty_env T' (tc_env nc) = Some t"
      "ty_casts T' = ty_casts T"
      using t by (auto simp: tcast_def push_new_cap_def push_void_cap_def cast_key_of_def)
    with types_ok_cast [OF T(3)] cap_index_class [OF _ nc(2) own] casts(1) show ?thesis by auto
  qed
  show "\<exists>nc T'. tcast (LStr nsn) c T = (Some nc, T') \<and> types_ok T' \<and>
      (\<forall>M key. cap_index M key nc T' = (Inr (found ned_ns_methods key), T'))"
    using casts(2) known by blast
  show "\<exists>nc T'. tcast (LStr fan) c T = (Some nc, T') \<and> types_ok T' \<and>
      (\<forall>M key. cap_index M key nc T' = (Inr (found factory_methods key), T'))"
    using casts(3) known by blast
  assume c: "ty_env T (tc_env c) = None \<and> tc_env c < ty_next T"
  obtain v T' where run: "cap_index M key c T = (Inr v, T')" "types_ok T'"
    using types_ok_index [OF T(3)] c by (metis prod.exhaust)
  let ?d = "dyn_class nsn fan (M (lc_cap (tc_cap c)))"
  note dyn = find_dynamic_libs [OF names T(1,2), of "M (lc_cap (tc_cap c))"]
  have new: "v = found (case ?d of None \<Rightarrow> Map.empty | Some t \<Rightarrow> t) key \<and> ty_casts T' = ty_casts T \<and>
      (found Map.empty key = None \<and> ?d = Some own \<longrightarrow> (\<exists>t. ty_env T' (tc_env c) = Some t \<and> shows_as t own))"
    using run(1) c dyn casts(1)
    by (auto simp: cap_index_def get_method_table_def shows_as_def found_def create_class_def
        split: option.splits if_splits)
  with run casts(1) show "\<exists>T'. cap_index M key c T = (Inr (found (case ?d of None \<Rightarrow> Map.empty | Some t \<Rightarrow> t) key), T') \<and>
        types_ok T' \<and> ty_casts T' = ty_casts T \<and>
        (found Map.empty key = None \<and> ?d = Some own \<longrightarrow>
          (\<forall>M' key' r. cap_index M' key' (tcap_set_rights r c) T' = (Inr (found own key'), T')))"
    by (auto simp: tcap_set_rights_def intro!: cap_index_class)
qed

definition types_start :: cap_types where
  "types_start = \<lparr>ty_casts = (\<lambda>_. None), ty_env = (\<lambda>_. None), ty_next = 0\<rparr>"

lemma capability_methods_witness:
  "\<exists>T1 T2. ned_classes ''N4L4Re9NamespaceE'' 1 ''N2L47FactoryE'' 2 types_start = Some T1 \<and>
     cap_index (\<lambda>_. \<lparr>mr_err = 0, mr_name = Some ''N4L4Re9NamespaceE'', mr_proto_int = True\<rparr>) ''query''
       \<lparr>tc_cap = Cap_new 0x1000 0, tc_env = 0\<rparr> (snd (push_void_cap T1)) = (Inr (Some (T_method M_query)), T2) \<and>
     cap_index (\<lambda>_. \<lparr>mr_err = 1, mr_name = None, mr_proto_int = False\<rparr>) ''register''
       (tcap_set_rights 7 \<lparr>tc_cap = Cap_new 0x1000 0, tc_env = 0\<rparr>) T2 = (Inr (Some (T_method M_lua_register)), T2)"
proof -
  let ?n = "''N4L4Re9NamespaceE''" and ?f = "''N2L47FactoryE''"
  let ?M = "\<lambda>_ :: u32. \<lparr>mr_err = 0, mr_name = Some ?n, mr_proto_int = True\<rparr>"
  have d: "distinct [''void'', ?n, ?f]" by simp
  have ok0: "types_ok (cap_libs ?n 1 ?f 2 types_start)"
    unfolding cap_libs_def Factory_lib_init_def Ns_lib_init_def
    by (intro types_ok_register types_ok_init) (simp add: types_start_def)
  have env0: "ty_next (cap_libs ?n 1 ?f 2 types_start) = 0"
    by (simp add: types_start_def cap_libs_def Factory_lib_init_def Ns_lib_init_def register_cap_type_def
        init_lua_cap_def Let_def)
  obtain T1 where T1: "ned_classes ?n 1 ?f 2 types_start = Some T1" and next1: "ty_next T1 = 0"
    using cap_libs_casts(2) [OF d, of 1 2 types_start] env0
    by (auto simp: ned_classes_def ned_lua_classes_def split: option.splits)
  have ok1: "types_ok T1"
    using T1 types_ok_ned_lua [OF ok0] by (simp add: ned_classes_def)
  let ?T = "snd (push_void_cap T1)"
  have ok: "types_ok ?T" "ty_casts ?T = ty_casts T1" "ty_env ?T 0 = None" "0 < ty_next ?T"
    using types_ok_void [OF ok1, of "fst (push_void_cap T1)" ?T] next1 by (simp_all add: push_void_cap_def)
  have f: "found ned_ns_methods ''query'' = Some (T_method M_query)"
    "found ned_ns_methods ''register'' = Some (T_method M_lua_register)" "found Map.empty ''query'' = None"
    by (simp_all add: found_def cap_methods_def ned_ns_methods_def ns_methods_def lua_ns_names_def)
  have dy: "dyn_class ?n ?f (?M x) = Some ned_ns_methods" for x
    by (simp add: dyn_class_def)
  from capability_methods [OF d T1 ok(2,1), of "\<lparr>tc_cap = Cap_new 0x1000 0, tc_env = 0\<rparr>" ?M "''query''" ned_ns_methods,
      THEN conjunct2, THEN conjunct2] ok T1
  show ?thesis by (auto simp: f dy)
qed

end
