(* ===== verification/Ned_Exec.thy ===== *)
theory Ned_Exec
  imports App_Task Ned_Launch
begin

text \<open>
  The library \<open>L4.exec\<close> of Ned (dom0-ned, lua_exec.cc): its registration, the methods of a task
  userdata as Lua finds them, and \<open>exec\<close> as a whole with its error paths, composed of the operations of
  \<open>App_Task\<close> and \<open>Ned_Launch\<close>. Also the library \<open>L4.Info\<close> (lua_info.cc).

  A Lua error, also one made of a C++ exception, is \<open>Inl\<close> with the start of its text.
\<close>

section \<open>Methods of a task\<close>

datatype task_method = M_state | M_exit_code | M_wait | M_kill

datatype task_meta = T_gc | T_eq | T_lt | T_le

definition task_ops :: "(byte list \<times> task_method) list" where
  "task_ops = [(''state'', M_state), (''exit_code'', M_exit_code), (''wait'', M_wait), (''kill'', M_kill)]"

definition task_meta_ops :: "(byte list \<times> task_meta) list" where
  "task_meta_ops = [(''__gc'', T_gc), (''__eq'', T_eq), (''__lt'', T_lt), (''__le'', T_le)]"

text \<open>A value handed to a method: the userdata of a task, by its number, or something else.\<close>

datatype task_arg = Task_ud nat | Other_val

definition APP_TASK_TYPE :: "byte list" where "APP_TASK_TYPE = ''L4_NED_APP_TASK''"

definition check_at :: "task_arg \<Rightarrow> byte list + nat" where
  "check_at a = (case a of Task_ud i \<Rightarrow> Inr i | Other_val \<Rightarrow> Inl (APP_TASK_TYPE @ '' expected''))"

section \<open>Registration\<close>

record metatable =
  mt_index :: "(byte list \<rightharpoonup> task_method) option"
  mt_meta :: "byte list \<rightharpoonup> task_meta"

record exec_reg =
  er_exec :: bool  \<comment> \<open>\<open>L4.exec\<close> is registered\<close>
  er_metas :: "byte list \<rightharpoonup> metatable"
  er_observers :: nat  \<comment> \<open>objects made by \<open>new Observer\<close> and registered\<close>

text \<open>\<open>luaL_newmetatable\<close>: whether the table is new.\<close>

definition newmetatable :: "byte list \<Rightarrow> exec_reg \<Rightarrow> bool \<times> exec_reg" where
  "newmetatable name R =
     (case er_metas R name of
        Some _ \<Rightarrow> (False, R)
      | None \<Rightarrow> (True, R\<lparr>er_metas := (er_metas R)(name \<mapsto> \<lparr>mt_index = None, mt_meta = (\<lambda>_. None)\<rparr>)\<rparr>))"

definition Lib_exec_init :: "exec_reg \<Rightarrow> exec_reg" where
  "Lib_exec_init R =
     (let R = R\<lparr>er_exec := True\<rparr>;
          (new, R) = newmetatable APP_TASK_TYPE R;
          R = (if new
               then R\<lparr>er_metas := (er_metas R)(APP_TASK_TYPE \<mapsto>
                      \<lparr>mt_index = Some (map_of task_ops), mt_meta = map_of task_meta_ops\<rparr>)\<rparr>
               else R)
      in R\<lparr>er_observers := er_observers R + 1\<rparr>)"

definition reg_new :: exec_reg where
  "reg_new = \<lparr>er_exec = False, er_metas = (\<lambda>_. None), er_observers = 0\<rparr>"

text \<open>\<open>t:name(...)\<close> on a userdata of a task, whose first argument is the userdata itself.\<close>

definition task_index :: "exec_reg \<Rightarrow> byte list \<Rightarrow> task_method option" where
  "task_index R name = do { mt \<leftarrow> er_metas R APP_TASK_TYPE; ix \<leftarrow> mt_index mt; ix name }"

text \<open>\<open>wait\<close> blocks when the observer does not answer at once.\<close>

datatype task_result = Returns lua_ret | Blocks

definition run_method ::
  "u32 \<Rightarrow> task_method \<Rightarrow> task_arg \<Rightarrow> app_world \<Rightarrow> ((byte list + task_result) \<times> app_world) option" where
  "run_method thread m a w =
     (case check_at a of
        Inl err \<Rightarrow> Some (Inl err, w)
      | Inr i \<Rightarrow>
          (case m of
             M_state \<Rightarrow> map_option (\<lambda>r. (Inr (Returns r), w)) (task_state i w)
           | M_exit_code \<Rightarrow> map_option (\<lambda>r. (Inr (Returns r), w)) (task_exit_code i w)
           | M_kill \<Rightarrow> map_option (\<lambda>(r, w). (Inr (Returns r), w)) (task_kill i w)
           | M_wait \<Rightarrow> do {
               (r, w) \<leftarrow> task_wait_call thread i w;
               if r = Some (- L4_ENOREPLY) then Some (Inr Blocks, w)
               else map_option (\<lambda>(r, w). (Inr (Returns r), w)) (task_wait_return i w)
             }))"


section \<open>exec\<close>

text \<open>
  \<open>am\<close> is the outcome of \<open>parse_cfg\<close>; \<open>mem_ok\<close> says whether \<open>new App_task\<close> finds memory; \<open>slots\<close>, \<open>create\<close>
  and \<open>cap\<close> are what \<open>App_task_new\<close> gets; \<open>launch\<close> is the loader library with the program
  information: its result, and what has happened to the tasks while it ran. An exception on the way out
  drops the local reference to the task.
\<close>

datatype exec_value = Exec_none | Exec_task nat

definition launch_failed :: "byte list" where "launch_failed = ''could not create process''"

definition exec ::
  "(string + prog_info \<times> u32) \<Rightarrow> bool \<Rightarrow> u32 \<times> u32 \<times> u32 \<Rightarrow> (u32 \<Rightarrow> int) \<Rightarrow> (prog_info \<Rightarrow> oid \<Rightarrow> app_world \<Rightarrow> (int + unit) \<times> app_world) \<Rightarrow>
   oid \<Rightarrow> u32 \<Rightarrow> app_world \<Rightarrow> ((byte list + exec_value) \<times> app_world) option" where
  "exec am mem_ok slots create launch o1 cap w =
     (case am of
        Inl err \<Rightarrow> Some (Inl err, w)
      | Inr (info, rm_fab) \<Rightarrow>
          if \<not> mem_ok then Some (Inr Exec_none, w)
          else do {
            (r, w) \<leftarrow> exec_new o1 slots cap (create rm_fab) w;
            case r of
              Inl _ \<Rightarrow> Some (Inl launch_failed, w)
            | Inr _ \<Rightarrow>
                (case launch info o1 w of
                   (Inl _, w) \<Rightarrow> do { w \<leftarrow> ref_drop o1 w; Some (Inl launch_failed, w) }
                 | (Inr _, w) \<Rightarrow> do { (i, w) \<leftarrow> exec_running o1 w; Some (Inr (Exec_task i), w) })
          })"

text \<open>With the configuration table evaluated first.\<close>

definition exec_call ::
  "(lval \<Rightarrow> 'l \<Rightarrow> lresult \<times> 'l) \<Rightarrow> (u32 \<Rightarrow> u32 \<Rightarrow> u32) \<Rightarrow> conversions \<Rightarrow> (byte list \<Rightarrow> lval) \<Rightarrow> prog_info \<Rightarrow>
   bool \<Rightarrow> u32 \<times> u32 \<times> u32 \<Rightarrow> (u32 \<Rightarrow> int) \<Rightarrow> (prog_info \<Rightarrow> oid \<Rightarrow> app_world \<Rightarrow> (int + unit) \<times> app_world) \<Rightarrow> oid \<Rightarrow> u32 \<Rightarrow>
   'l \<times> app_world \<Rightarrow> ((byte list + exec_value) \<times> 'l \<times> app_world) option" where
  "exec_call call fpage cv cfg own mem_ok slots create launch o1 cap = (\<lambda>(st, w). do {
     (am, st) \<leftarrow> parse_cfg call fpage cv cfg own st;
     (r, w) \<leftarrow> exec am mem_ok slots create launch o1 cap w;
     Some (r, st, w)
   })"

section \<open>The library L4.Info\<close>

text \<open>
  \<open>kip_version\<close> and \<open>platform\<close> are texts of the kernel interface page, \<open>is_ux\<close> says whether the
  kernel is Fiasco-UX; the build selects \<open>ARCH_x86\<close>.
\<close>

record kip =
  kip_version :: "byte list"
  kip_is_ux :: bool
  kip_platform :: "byte list"

datatype info_fun = I_kipstr | I_archstr | I_platformstr

definition info_call :: "kip \<Rightarrow> info_fun \<Rightarrow> lval" where
  "info_call k f = LStr (case f of
       I_kipstr \<Rightarrow> kip_version k
     | I_archstr \<Rightarrow> ''x86''
     | I_platformstr \<Rightarrow> if kip_is_ux k then ''ux'' else kip_platform k)"

datatype info_entry = Info_table "(byte list \<times> info_entry) list" | Info_fun info_fun

text \<open>What \<open>init\<close> enters into the table \<open>L4\<close>.\<close>

definition Lib_info_init :: "(byte list \<times> info_entry) list \<Rightarrow> (byte list \<times> info_entry) list" where
  "Lib_info_init L4 = (''Info'', Info_table
     [(''platform'', Info_fun I_platformstr),
      (''arch'', Info_fun I_archstr),
      (''Kip'', Info_table [(''str'', Info_fun I_kipstr)])]) # L4"

text \<open>\<open>L4.Info.Kip.str\<close> and the like: a path through the tables.\<close>

fun info_path :: "(byte list \<times> info_entry) list \<Rightarrow> byte list list \<Rightarrow> info_fun option" where
  "info_path t [] = None"
| "info_path t [f] = (case map_of t f of Some (Info_fun g) \<Rightarrow> Some g | _ \<Rightarrow> None)"
| "info_path t (f # fs) = (case map_of t f of Some (Info_table t') \<Rightarrow> info_path t' fs | _ \<Rightarrow> None)"

section \<open>What the library does\<close>

lemma task_index_init [simp]:
  "task_index (Lib_exec_init reg_new) = map_of task_ops"
  by (rule ext) (simp add: task_index_def Lib_exec_init_def newmetatable_def reg_new_def)

lemma Lib_exec_init_again:
  "er_metas (Lib_exec_init (Lib_exec_init R)) = er_metas (Lib_exec_init R)"
  by (cases "er_metas R APP_TASK_TYPE") (simp_all add: Lib_exec_init_def newmetatable_def Let_def)

lemma run_method_total:
  assumes ok: "world_ok w" and i: "i < length (aw_ud w)"
  shows "\<exists>r w'. run_method thread m (Task_ud i) w = Some (Inr r, w') \<and> world_ok w'"
proof (cases m)
  case M_state
  with ok held_task [OF ok i] show ?thesis
    by (cases "aw_ud w ! i") (auto simp: run_method_def check_at_def task_state_def)
next
  case M_exit_code
  with ok held_task [OF ok i] show ?thesis
    by (cases "aw_ud w ! i") (auto simp: run_method_def check_at_def task_exit_code_def)
next
  case M_wait
  obtain r w1 where w1: "task_wait_call thread i w = Some (r, w1)" "world_ok w1"
    using task_wait_call_ok [OF ok i] by blast
  have "aw_ud w1 = aw_ud w"
    using w1(1) by (auto simp: task_wait_call_def observer_dispatch_def upd_task_def
        split: option.splits bind_splits if_splits)
  with i have "i < length (aw_ud w1)" by simp
  from task_wait_return_ok [OF w1(2) this] w1 M_wait show ?thesis
    by (auto simp: run_method_def check_at_def)
next
  case M_kill
  with task_kill_ok [OF ok i] show ?thesis by (auto simp: run_method_def check_at_def)
qed






end
