(* ===== verification/Ned_Server.thy ===== *)
theory Ned_Server
  imports Prelude
begin

text \<open>
  The start of Ned's server thread (dom0-ned, server.cc): the constructor of \<open>Server\<close> starts a thread
  with \<open>run\<close> and waits, by locking \<open>_start_mutex\<close> a second time, until that thread has made the
  registry and unlocks it. The two threads are interleaved step by step; a lock that is held blocks.

  \<open>created\<close> is the result of \<open>pthread_create\<close>: 0 when the thread exists. POSIX reports an error by a
  positive number, while \<open>chksys\<close> throws for negative ones only. \<open>self\<close> is the capability of the new thread and
  \<open>factory\<close> that of the environment.
\<close>

section \<open>State\<close>

datatype mutex = Mx_none | Mx_free | Mx_held | Mx_destroyed

text \<open>The next statement of each thread.\<close>

datatype ctor_pc = C_init | C_lock | C_create | C_wait | C_destroy | C_returned | C_threw

datatype run_pc = R_stream | R_registry | R_unlock | R_loop

record Server =
  sv_mutex :: mutex
  sv_ctor :: ctor_pc
  sv_run :: "run_pc option"  \<comment> \<open>\<open>None\<close>: the thread does not exist\<close>
  sv_r :: "(u32 \<times> u32) option"  \<comment> \<open>\<open>_r\<close>, not initialised at first\<close>

definition server_new :: Server where
  "server_new = \<lparr>sv_mutex = Mx_none, sv_ctor = C_init, sv_run = None, sv_r = None\<rparr>"

section \<open>Steps\<close>

text \<open>The constructor; \<open>None\<close>: it waits for the lock, or has ended.\<close>

definition ctor_step :: "int \<Rightarrow> Server \<Rightarrow> Server option" where
  "ctor_step created s =
     (case sv_ctor s of
        C_init \<Rightarrow> Some (s\<lparr>sv_mutex := Mx_free, sv_ctor := C_lock\<rparr>)
      | C_lock \<Rightarrow> if sv_mutex s = Mx_free then Some (s\<lparr>sv_mutex := Mx_held, sv_ctor := C_create\<rparr>) else None
      | C_create \<Rightarrow>
          Some (if created < 0 then s\<lparr>sv_ctor := C_threw\<rparr>
            else s\<lparr>sv_run := (if created = 0 then Some R_stream else None), sv_ctor := C_wait\<rparr>)
      | C_wait \<Rightarrow> if sv_mutex s = Mx_free then Some (s\<lparr>sv_mutex := Mx_held, sv_ctor := C_destroy\<rparr>) else None
      | C_destroy \<Rightarrow> Some (s\<lparr>sv_mutex := Mx_destroyed, sv_ctor := C_returned\<rparr>)
      | C_returned \<Rightarrow> None
      | C_threw \<Rightarrow> None)"

text \<open>\<open>run\<close>, which \<open>__run\<close> calls; \<open>loop\<close> does not return.\<close>

definition run_step :: "u32 \<Rightarrow> u32 \<Rightarrow> Server \<Rightarrow> Server option" where
  "run_step self factory s =
     (case sv_run s of
        None \<Rightarrow> None
      | Some R_stream \<Rightarrow> Some (s\<lparr>sv_run := Some R_registry\<rparr>)
      | Some R_registry \<Rightarrow> Some (s\<lparr>sv_r := Some (self, factory), sv_run := Some R_unlock\<rparr>)
      | Some R_unlock \<Rightarrow> Some (s\<lparr>sv_mutex := Mx_free, sv_run := Some R_loop\<rparr>)
      | Some R_loop \<Rightarrow> None)"

inductive start_step :: "int \<Rightarrow> u32 \<Rightarrow> u32 \<Rightarrow> Server \<Rightarrow> Server \<Rightarrow> bool" for created self factory where
  start_ctor: "ctor_step created s = Some s' \<Longrightarrow> start_step created self factory s s'"
| start_run: "run_step self factory s = Some s' \<Longrightarrow> start_step created self factory s s'"

inductive_cases start_stepE: "start_step created self factory s s'"

section \<open>The handshake\<close>

text \<open>The states that can be reached.\<close>

definition start_inv :: "int \<Rightarrow> u32 \<Rightarrow> u32 \<Rightarrow> Server \<Rightarrow> bool" where
  "start_inv created self factory s \<longleftrightarrow>
     (case sv_run s of
        None \<Rightarrow> sv_r s = None \<and>
          (sv_ctor s = C_init \<and> sv_mutex s = Mx_none \<or> sv_ctor s = C_lock \<and> sv_mutex s = Mx_free \<or>
           sv_ctor s = C_create \<and> sv_mutex s = Mx_held \<or> sv_ctor s = C_threw \<and> created < 0 \<or>
           sv_ctor s = C_wait \<and> sv_mutex s = Mx_held \<and> 0 < created)
      | Some pc \<Rightarrow> created = 0 \<and>
          (sv_r s = (if pc = R_unlock \<or> pc = R_loop then Some (self, factory) else None)) \<and>
          (if pc = R_loop
           then sv_ctor s = C_wait \<and> sv_mutex s = Mx_free \<or> sv_ctor s = C_destroy \<and> sv_mutex s = Mx_held \<or>
             sv_ctor s = C_returned \<and> sv_mutex s = Mx_destroyed
           else sv_ctor s = C_wait \<and> sv_mutex s = Mx_held))"

lemma start_inv_new: "start_inv created self factory server_new"
  by (simp add: start_inv_def server_new_def)

lemma start_inv_step:
  "start_step created self factory s s' \<Longrightarrow> start_inv created self factory s \<Longrightarrow> start_inv created self factory s'"
  by (erule start_stepE)
    (auto simp: ctor_step_def run_step_def start_inv_def
      split: ctor_pc.splits option.splits run_pc.splits if_splits)

lemma start_inv_steps:
  "(start_step created self factory)\<^sup>*\<^sup>* server_new s \<Longrightarrow> start_inv created self factory s"
  by (induction rule: rtranclp_induct) (auto intro: start_inv_step start_inv_new)

text \<open>The statements still to run.\<close>

definition start_rest :: "Server \<Rightarrow> nat" where
  "start_rest s =
     (case sv_ctor s of C_init \<Rightarrow> 5 | C_lock \<Rightarrow> 4 | C_create \<Rightarrow> 3 | C_wait \<Rightarrow> 2 | C_destroy \<Rightarrow> 1 | _ \<Rightarrow> 0) +
     (case sv_run s of None \<Rightarrow> (if sv_ctor s \<in> {C_threw, C_wait} then 0 else 3)
      | Some R_stream \<Rightarrow> 3 | Some R_registry \<Rightarrow> 2 | Some R_unlock \<Rightarrow> 1 | Some R_loop \<Rightarrow> 0)"

lemma start_rest_less:
  "start_step created self factory s s' \<Longrightarrow> start_inv created self factory s \<Longrightarrow> start_rest s' < start_rest s"
  by (erule start_stepE)
    (auto simp: ctor_step_def run_step_def start_inv_def start_rest_def
      split: ctor_pc.splits option.splits run_pc.splits if_splits)

text \<open>C28: The start of the server under every interleaving of the two threads. When the constructor has
  returned, the registry exists and belongs to the new thread, so \<open>registry()\<close> never answers an
  uninitialised pointer. If the thread has been created the two threads never block each other for good: a
  state without a next step is one in which the constructor has returned, and there are at most eight steps. If \<open>pthread_create\<close> fails
  with a positive error number, as POSIX has it, \<open>chksys\<close> does not throw, and the constructor waits for the lock
  it holds for ever. The mutex is always destroyed while it is locked.
\<close>

theorem server_handshake:
  assumes "(start_step created self factory)\<^sup>*\<^sup>* server_new s"
  shows "(sv_ctor s = C_returned \<longrightarrow> created = 0 \<and> sv_r s = Some (self, factory) \<and> sv_run s = Some R_loop) \<and>
    (sv_ctor s = C_threw \<longrightarrow> created < 0 \<and> sv_run s = None) \<and>
    ((\<nexists>s'. start_step created self factory s s') \<longrightarrow>
      (if created = 0 then sv_ctor s = C_returned else if created < 0 then sv_ctor s = C_threw
       else sv_ctor s = C_wait \<and> sv_mutex s = Mx_held \<and> sv_run s = None)) \<and>
    ((start_step created self factory ^^ n) s s' \<longrightarrow> n \<le> 8) \<and>
    (sv_ctor s = C_destroy \<longrightarrow> sv_mutex s = Mx_held)"
proof (intro conjI impI)
  note inv = start_inv_steps [OF assms]
  show "created = 0" "sv_r s = Some (self, factory)" "sv_run s = Some R_loop" if "sv_ctor s = C_returned"
    using inv that by (auto simp: start_inv_def split: option.splits if_splits)
  show "created < 0" "sv_run s = None" if "sv_ctor s = C_threw"
    using inv that by (auto simp: start_inv_def split: option.splits if_splits)
  show "sv_mutex s = Mx_held" if "sv_ctor s = C_destroy"
    using inv that by (auto simp: start_inv_def split: option.splits if_splits)
  show "if created = 0 then sv_ctor s = C_returned else if created < 0 then sv_ctor s = C_threw
      else sv_ctor s = C_wait \<and> sv_mutex s = Mx_held \<and> sv_run s = None"
    if "\<nexists>s'. start_step created self factory s s'"
  proof -
    have "ctor_step created s = None" "run_step self factory s = None"
      using that start_ctor start_run by (metis not_None_eq)+
    with inv show ?thesis
      by (auto simp: ctor_step_def run_step_def start_inv_def
          split: ctor_pc.splits option.splits run_pc.splits if_splits)
  qed
  show "n \<le> 8" if "(start_step created self factory ^^ n) s s'"
  proof -
    have "(start_step created self factory ^^ n) s s' \<Longrightarrow> start_inv created self factory s' \<and> n + start_rest s' \<le> start_rest s"
      for s'
    proof (induction n arbitrary: s')
      case 0
      with inv show ?case by simp
    next
      case (Suc n)
      then obtain t where "(start_step created self factory ^^ n) s t" "start_step created self factory t s'" by auto
      with Suc.IH [of t] start_inv_step start_rest_less show ?case by fastforce
    qed
    from this [OF that] have "n \<le> start_rest s" by simp
    also have "start_rest s \<le> 8"
      by (auto simp: start_rest_def split: ctor_pc.splits option.splits run_pc.splits)
    finally show ?thesis .
  qed
qed

lemma server_handshake_witness:
  "\<exists>s. (start_step 0 5 6)\<^sup>*\<^sup>* server_new s \<and> sv_ctor s = C_returned \<and> sv_r s = Some (5, 6)"
proof -
  let ?s = "\<lparr>sv_mutex = Mx_destroyed, sv_ctor = C_returned, sv_run = Some R_loop, sv_r = Some (5, 6)\<rparr>"
  have R: "(start_step 0 5 6)\<^sup>*\<^sup>* server_new ?s"
    unfolding server_new_def
    by (rule converse_rtranclp_into_rtranclp, rule start_ctor, simp add: ctor_step_def,
        rule converse_rtranclp_into_rtranclp, rule start_ctor, simp add: ctor_step_def,
        rule converse_rtranclp_into_rtranclp, rule start_ctor, simp add: ctor_step_def,
        rule converse_rtranclp_into_rtranclp, rule start_run, simp add: run_step_def,
        rule converse_rtranclp_into_rtranclp, rule start_run, simp add: run_step_def,
        rule converse_rtranclp_into_rtranclp, rule start_run, simp add: run_step_def,
        rule converse_rtranclp_into_rtranclp, rule start_ctor, simp add: ctor_step_def,
        rule converse_rtranclp_into_rtranclp, rule start_ctor, simp add: ctor_step_def, rule rtranclp.rtrancl_refl)
  show ?thesis
  proof (intro exI conjI)
    show "(start_step 0 5 6)\<^sup>*\<^sup>* server_new ?s" by (rule R)
    show "sv_ctor ?s = C_returned" by simp
    show "sv_r ?s = Some (5, 6)"
      by (rule server_handshake [OF R, THEN conjunct1, THEN mp, THEN conjunct2, THEN conjunct1]) simp
  qed
qed

end
