(* ===== verification/Fs_Listing.thy ===== *)
theory Fs_Listing
  imports Fs_Tests Libc_Backend Printf
begin

text \<open>
  The functions of the two test programs that no executed code calls: \<open>list_dir\<close> and
  \<open>create_directory\<close> (the same in fstest/server/src/main.cc and fstest2/server/src/main.cc), and the
  phases of \<open>fstest\<close> behind its \<open>return 0\<close>, which a tester gets by removing that statement.

  The further calls of the C library are the parameter \<open>D\<close>. What is printed is kept where it is the
  contents of a file or of a directory. \<open>None\<close> is undefined behaviour or a loop that does not end.
\<close>

section \<open>The C library\<close>

text \<open>The members of \<open>struct stat64\<close> that are printed, besides those of the protocol.\<close>

record file_stat = stat64 +
  st_nlink :: u32
  st_uid :: u32
  st_gid :: u32
  st_mtime :: u32

text \<open>
  A stream of a directory is an integer; \<open>None\<close> is the null pointer. \<open>d_malloc\<close> answers the new
  block. A status that has not been stored is \<open>None\<close>.
\<close>

record 'w dirlib =
  d_opendir :: "byte list \<Rightarrow> 'w \<Rightarrow> (int option \<times> 'w) option"
  d_readdir :: "int \<Rightarrow> 'w \<Rightarrow> (byte list option \<times> 'w) option"
  d_closedir :: "int \<Rightarrow> 'w \<Rightarrow> (int \<times> 'w) option"
  d_stat64 :: "byte list \<Rightarrow> 'w \<Rightarrow> (int \<times> file_stat option \<times> 'w) option"
  d_fstat64 :: "int \<Rightarrow> 'w \<Rightarrow> (int \<times> 'w) option"
  d_mkdir :: "byte list \<Rightarrow> u32 \<Rightarrow> 'w \<Rightarrow> (int \<times> 'w) option"
  d_rmdir :: "byte list \<Rightarrow> 'w \<Rightarrow> (int \<times> 'w) option"
  d_rename :: "byte list \<Rightarrow> byte list \<Rightarrow> 'w \<Rightarrow> (int \<times> 'w) option"
  d_unlink :: "byte list \<Rightarrow> 'w \<Rightarrow> (int \<times> 'w) option"
  d_malloc :: "nat \<Rightarrow> 'w \<Rightarrow> membuf option"

section \<open>Listing a directory\<close>

definition S_IREAD :: u32 where "S_IREAD = 0x100"
definition S_IWRITE :: u32 where "S_IWRITE = 0x80"
definition S_IEXEC :: u32 where "S_IEXEC = 0x40"

definition mode_string :: "u32 \<Rightarrow> byte list" where
  "mode_string m =
     (if S_ISDIR m then ''d'' else ''-'') @
     (if m AND S_IREAD \<noteq> 0 then ''r'' else ''-'') @
     (if m AND S_IWRITE \<noteq> 0 then ''w'' else ''-'') @
     (if m AND S_IEXEC \<noteq> 0 then ''x'' else ''-'')"

definition size_string :: "int \<Rightarrow> byte list" where
  "size_string n =
     (if n < 1024 then print_i n
      else if n < 1024 * 1024 then print_i (n div 1024) @ ''K''
      else print_i (n div (1024 * 1024)) @ ''M'')"

definition entry_line :: "file_stat \<Rightarrow> byte list \<Rightarrow> byte list" where
  "entry_line st name =
     mode_string (st_mode st) @
     '' '' @ print_i (sint (st_nlink st)) @ '' '' @ print_i (sint (st_uid st)) @ '' '' @ print_i (sint (st_gid st)) @
     '' '' @ size_string (sint (st_size st)) @
     '' '' @ print_i (sint (st_mtime st)) @ '' '' @ name @ newline"

text \<open>\<open>sprintf(full_path, "%s/%s", path, name)\<close> into a new block of \<open>pathlen + strlen(name) + 2\<close> bytes.\<close>

definition join_path :: "'w dirlib \<Rightarrow> byte list \<Rightarrow> byte list \<Rightarrow> 'w \<Rightarrow> byte list option" where
  "join_path D path name w = do {
     full_path \<leftarrow> d_malloc D (length path + length name + 2) w;
     full_path \<leftarrow> strcpy full_path 0 (path @ ''/'' @ name);
     cstr_from full_path 0
   }"

definition dot_name :: "byte list \<Rightarrow> bool" where
  "dot_name name \<longleftrightarrow> name = ''.'' \<or> name = ''..''"

text \<open>The loop; \<open>tot\<close> is the variable \<open>total\<close>, a \<open>size_t\<close>. \<open>Inl ()\<close> is the return in its middle.\<close>

partial_function (option) list_loop ::
  "'w dirlib \<Rightarrow> byte list \<Rightarrow> int \<Rightarrow> u32 \<Rightarrow> byte list \<Rightarrow> 'w \<Rightarrow> ((unit + u32) \<times> byte list \<times> 'w) option" where
  "list_loop D path dp tot out w = do {
     (entry, w) \<leftarrow> d_readdir D dp w;
     case entry of
       None \<Rightarrow> Some (Inr tot, out, w)
     | Some name \<Rightarrow>
         if dot_name name then list_loop D path dp tot (out @ name @ newline) w
         else do {
           full_path \<leftarrow> join_path D path name w;
           (res, st, w) \<leftarrow> d_stat64 D full_path w;
           if res \<noteq> 0 then Some (Inl (), out, w)
           else do {
             st \<leftarrow> st;
             list_loop D path dp (tot + ucast (st_size st)) (out @ entry_line st name) w
           }
         }
   }"

text \<open>The result is that of the function; the assertion stops the process.\<close>

definition list_dir :: "'w clib \<Rightarrow> 'w dirlib \<Rightarrow> byte list \<Rightarrow> tproc \<Rightarrow> 'w \<Rightarrow> (int \<times> tproc \<times> 'w) option" where
  "list_dir C D path p w =
     (if c_errno C w \<noteq> 0 then Some (0, stop Assertion_failed p, w)
      else do {
        (dp, w) \<leftarrow> d_opendir D path w;
        case dp of
          None \<Rightarrow> Some (1, p, w)
        | Some dp \<Rightarrow> do {
            (r, out, w) \<leftarrow> list_loop D path dp 0 [] w;
            let p = p\<lparr>tp_out := tp_out p @ out\<rparr>;
            case r of
              Inl _ \<Rightarrow> Some (1, p, w)
            | Inr tot \<Rightarrow>
                if c_errno C w \<noteq> 0 then Some (1, p, w)
                else do {
                  let p = p\<lparr>tp_out := tp_out p @ ''total: '' @ print_u (unat tot div 1024) @ ''K'' @ newline\<rparr>;
                  (_, w) \<leftarrow> d_closedir D dp w;
                  Some (0, p, w)
                }
          }
      })"

text \<open>The second program holds a copy of the function.\<close>

definition fstest2_list_dir :: "'w clib \<Rightarrow> 'w dirlib \<Rightarrow> byte list \<Rightarrow> tproc \<Rightarrow> 'w \<Rightarrow> (int \<times> tproc \<times> 'w) option" where
  "fstest2_list_dir = list_dir"

section \<open>The further tests\<close>

definition S_DIRMODE :: u32 where "S_DIRMODE = 0x1FD"  \<comment> \<open>\<open>S_IRWXU | S_IRWXG | S_IROTH | S_IXOTH\<close>\<close>

definition create_directory :: "'w dirlib \<Rightarrow> byte list \<Rightarrow> 'w \<Rightarrow> (int \<times> 'w) option" where
  "create_directory D dirname w = do {
     (res, w) \<leftarrow> d_mkdir D dirname S_DIRMODE w;
     Some (if res < 0 then 1 else 0, w)
   }"

definition fstest2_create_directory :: "'w dirlib \<Rightarrow> byte list \<Rightarrow> 'w \<Rightarrow> (int \<times> 'w) option" where
  "fstest2_create_directory = create_directory"

definition fstest2_create_file :: "'w clib \<Rightarrow> byte list \<Rightarrow> 'w \<Rightarrow> (int \<times> 'w) option" where
  "fstest2_create_file = create_file"

text \<open>A call whose failure ends the program, and the assertion on \<open>errno\<close>.\<close>

definition attempt :: "(int \<Rightarrow> bool) \<Rightarrow> ('w \<Rightarrow> (int \<times> 'w) option) \<Rightarrow> 'w part" where
  "attempt failed call p w = do {
     (res, w) \<leftarrow> call w;
     Some (if failed res then stop (Exit 1) p else p, w)
   }"

definition assert_errno :: "'w clib \<Rightarrow> 'w part" where
  "assert_errno C p w = Some (if c_errno C w \<noteq> 0 then stop Assertion_failed p else p, w)"

text \<open>The test behind \<open>open\<close> looks for 0.\<close>

definition open_hello :: "'w clib \<Rightarrow> u32 \<Rightarrow> u32 \<Rightarrow> 'w part" where
  "open_hello C flags mode p w = do {
     (fd, w) \<leftarrow> c_open C ''/hellofs/hello'' flags mode w;
     let p = p\<lparr>tp_fd := fd\<rparr>;
     Some (if fd = 0 then stop (Exit 1) p else p, w)
   }"

definition list_part :: "'w clib \<Rightarrow> 'w dirlib \<Rightarrow> byte list \<Rightarrow> 'w part" where
  "list_part C D path p w = do {
     (res, p, w) \<leftarrow> list_dir C D path p w;
     Some (if tp_exit p = None \<and> res \<noteq> 0 then stop (Exit 1) p else p, w)
   }"

text \<open>
  The tests of \<open>res\<close> that follow a test of the same value are left out: \<open>res\<close> is 0 there.
\<close>

definition creation_phase :: "'w clib \<Rightarrow> 'w dirlib \<Rightarrow> 'w part" where
  "creation_phase C D = run_parts
     [assert_errno C,
      attempt (\<lambda>r. r \<noteq> 0) (create_directory D ''/hellofs/mydir''),
      attempt (\<lambda>r. r \<noteq> 0) (create_directory D ''/hellofs/mydir/subdir''),
      attempt (\<lambda>r. r \<noteq> 0) (create_file C ''/hellofs/hello''),
      attempt (\<lambda>r. r \<noteq> 0) (create_file C ''/hellofs/tmp''),
      attempt (\<lambda>r. r \<noteq> 0) (create_file C ''/hellofs/mydir/myfile''),
      attempt (\<lambda>r. r \<noteq> 0) (create_file C ''/hellofs/mydir/my_hello''),
      assert_errno C]"

text \<open>The second phase up to its \<open>sleep\<close>, and from there on.\<close>

definition hello_str :: "byte list" where "hello_str = ''Hello FUSE-exfat on L4''"

definition messing_write :: "'w clib \<Rightarrow> 'w dirlib \<Rightarrow> 'w part" where
  "messing_write C D = run_parts
     [open_hello C O_RDWR 0,
      \<lambda>p. attempt (\<lambda>r. r < 0) (c_write C (tp_fd p) (hello_str @ [NUL])) p,
      assert_errno C,
      \<lambda>p. attempt (\<lambda>r. r < 0) (d_fstat64 D (tp_fd p)) p,
      assert_errno C]"

definition messing_read :: "'w clib \<Rightarrow> 'w dirlib \<Rightarrow> 'w part" where
  "messing_read C D = run_parts
     [\<lambda>p. attempt (\<lambda>r. r < 0) (c_close C (tp_fd p)) p,
      assert_errno C,
      open_hello C O_RDONLY S_IRWXU,
      assert_errno C,
      print_file C,
      assert_errno C,
      \<lambda>p. attempt (\<lambda>r. r < 0) (c_close C (tp_fd p)) p,
      assert_errno C,
      attempt (\<lambda>r. r \<noteq> 0) (d_rename D ''/hellofs/mydir/myfile'' ''/hellofs/myfile''),
      assert_errno C,
      attempt (\<lambda>r. r \<noteq> 0) (d_rename D ''/hellofs/mydir/subdir'' ''/hellofs/subdir''),
      assert_errno C]"

definition deletion_phase :: "'w clib \<Rightarrow> 'w dirlib \<Rightarrow> 'w part" where
  "deletion_phase C D = run_parts
     [attempt (\<lambda>r. r \<noteq> 0) (d_unlink D ''/hellofs/tmp''),
      assert_errno C,
      attempt (\<lambda>r. r < 0) (d_rmdir D ''/hellofs/subdir''),
      list_part C D ''/hellofs'',
      assert_errno C,
      list_part C D ''/hellofs/mydir'',
      assert_errno C,
      \<lambda>p w. Some (stop (Exit 0) p, w)]"

text \<open>The program without its \<open>return 0\<close>.\<close>

definition fstest_further :: "'w clib \<Rightarrow> 'w dirlib \<Rightarrow> (nat \<times> 'w part) list" where
  "fstest_further C D = butlast (fstest C) @
     [(4, run_parts [creation_phase C D, messing_write C D]),
      (4, run_parts [messing_read C D, deletion_phase C D])]"

section \<open>What is listed\<close>

text \<open>
  The answers of the library while a directory is listed: \<open>es\<close> are the names with their status, in order;
  then the directory ends, or the status of \<open>bad\<close> cannot be had. The result is the state behind the last
  answer; \<open>None\<close> if the library answers otherwise.
\<close>

fun dir_answers ::
  "'w dirlib \<Rightarrow> byte list \<Rightarrow> int \<Rightarrow> (byte list \<times> file_stat) list \<Rightarrow> byte list option \<Rightarrow> 'w \<Rightarrow> 'w option" where
  "dir_answers D path dp [] bad w =
     (case d_readdir D dp w of
        Some (None, w) \<Rightarrow> if bad = None then Some w else None
      | Some (Some name, w) \<Rightarrow>
          if bad = Some name \<and> \<not> dot_name name
          then (case d_stat64 D (path @ ''/'' @ name) w of
              Some (res, _, w) \<Rightarrow> if res \<noteq> 0 then Some w else None
            | None \<Rightarrow> None)
          else None
      | None \<Rightarrow> None)"
| "dir_answers D path dp ((name, st) # es) bad w =
     (case d_readdir D dp w of
        Some (Some n, w) \<Rightarrow>
          if n \<noteq> name then None
          else if dot_name n then dir_answers D path dp es bad w
          else (case d_stat64 D (path @ ''/'' @ n) w of
              Some (res, Some st', w) \<Rightarrow>
                if res = 0 \<and> st' = st then dir_answers D path dp es bad w else None
            | _ \<Rightarrow> None)
      | _ \<Rightarrow> None)"

definition listed_line :: "byte list \<times> file_stat \<Rightarrow> byte list" where
  "listed_line = (\<lambda>(name, st). if dot_name name then name @ newline else entry_line st name)"

definition listed_sizes :: "(byte list \<times> file_stat) list \<Rightarrow> nat" where
  "listed_sizes es = (\<Sum>(name, st) \<leftarrow> filter (\<lambda>(name, st). \<not> dot_name name) es. unat (st_size st))"

lemma join_path_eq:
  assumes "\<exists>b. d_malloc D (length path + length name + 2) w = Some b \<and> msize b = length path + length name + 2"
    and "NUL \<notin> set path" and "NUL \<notin> set name"
  shows "join_path D path name w = Some (path @ ''/'' @ name)"
proof -
  obtain b where b: "d_malloc D (length path + length name + 2) w = Some b"
    "msize b = length path + length name + 2" using assms(1) by blast
  let ?s = "path @ ''/'' @ name"
  obtain b' where b': "strcpy b 0 ?s = Some b'"
    using b(2) by (cases "strcpy b 0 ?s") auto
  moreover have "cstr_from b' 0 = Some ?s"
    by (rule cstr_from_strcpy_same [OF b']) (use assms in auto)
  ultimately show ?thesis using b(1) by (simp add: join_path_def)
qed

lemma list_loop_answers:
  assumes "dir_answers D path dp es bad w = Some w'"
    and "\<And>n w. \<exists>b. d_malloc D n w = Some b \<and> msize b = n"
    and "NUL \<notin> set path" and "\<forall>(name, st) \<in> set es. NUL \<notin> set name"
    and "\<forall>name. bad = Some name \<longrightarrow> NUL \<notin> set name"
  shows "list_loop D path dp t out w = Some
    (if bad = None then Inr (t + of_nat (listed_sizes es)) else Inl (), out @ concat (map listed_line es), w')"
  using assms(1,4)
proof (induction es arbitrary: t out w)
  case Nil
  show ?case
  proof (cases bad)
    case None
    with Nil.prems show ?thesis
      by (subst list_loop.simps)
        (auto simp: listed_sizes_def split: option.splits if_splits)
  next
    case (Some name)
    with Nil.prems obtain w1 res st where
      a: "d_readdir D dp w = Some (Some name, w1)" "\<not> dot_name name"
      "d_stat64 D (path @ ''/'' @ name) w1 = Some (res, st, w')" "res \<noteq> 0"
      by (auto split: option.splits if_splits)
    have "join_path D path name w1 = Some (path @ ''/'' @ name)"
      by (rule join_path_eq) (use assms Some in auto)
    with a Some show ?thesis by (subst list_loop.simps) simp
  qed
next
  case (Cons e es)
  obtain name st where e: "e = (name, st)" by fastforce
  with Cons.prems obtain w1 where w1: "d_readdir D dp w = Some (Some name, w1)"
    by (auto split: option.splits if_splits)
  have nul: "NUL \<notin> set name" "\<forall>(name, st) \<in> set es. NUL \<notin> set name"
    using Cons.prems(2) e by auto
  show ?case
  proof (cases "dot_name name")
    case True
    with Cons.prems(1) e w1 have "dir_answers D path dp es bad w1 = Some w'" by simp
    from Cons.IH [OF this nul(2)] True e w1 show ?thesis
      by (subst list_loop.simps) (simp add: listed_line_def listed_sizes_def)
  next
    case False
    with Cons.prems(1) e w1 obtain w2 where
      w2: "d_stat64 D (path @ ''/'' @ name) w1 = Some (0, Some st, w2)" "dir_answers D path dp es bad w2 = Some w'"
      by (auto split: option.splits if_splits)
    have "join_path D path name w1 = Some (path @ ''/'' @ name)"
      by (rule join_path_eq) (use assms nul in auto)
    with Cons.IH [OF w2(2) nul(2)] False e w1 w2(1) show ?thesis
      by (subst list_loop.simps) (simp add: listed_line_def listed_sizes_def add.assoc)
  qed
qed

text \<open>A directory that always has another entry is listed for ever.\<close>

lemma list_loop_endless:
  assumes "\<And>w. \<exists>w'. d_readdir D dp w = Some (Some ''.'', w')"
  shows "list_loop D path dp t out w = None"
proof (rule ccontr)
  define Q :: "((((('a dirlib \<times> byte list) \<times> int) \<times> u32) \<times> byte list) \<times> 'a) \<Rightarrow> (unit + u32) \<times> byte list \<times> 'a \<Rightarrow> bool"
    where "Q = (\<lambda>(((((D', path), dp'), t), out), w) r. \<not> (D' = D \<and> dp' = dp))"
  assume "list_loop D path dp t out w \<noteq> None"
  then obtain r where "list_loop D path dp t out w = Some r" by blast
  then have "Q (((((D, path), dp), t), out), w) r"
  proof (rule list_loop.raw_induct [rotated])
    fix g D' path dp' t out w r
    assume IH: "\<And>D path dp t out w r. g D path dp t out w = Some r \<Longrightarrow> Q (((((D, path), dp), t), out), w) r"
      and step: "(do {
     (entry, w) \<leftarrow> d_readdir D' dp' w;
     case entry of
       None \<Rightarrow> Some (Inr t, out, w)
     | Some name \<Rightarrow>
         if dot_name name then g D' path dp' t (out @ name @ newline) w
         else do {
           full_path \<leftarrow> join_path D' path name w;
           (res, st, w) \<leftarrow> d_stat64 D' full_path w;
           if res \<noteq> 0 then Some (Inl (), out, w)
           else do {
             st \<leftarrow> st;
             g D' path dp' (t + ucast (st_size st)) (out @ entry_line st name) w
           }
         }
   }) = Some r"
    show "Q (((((D', path), dp'), t), out), w) r"
      unfolding Q_def prod.case
    proof
      assume e: "D' = D \<and> dp' = dp"
      obtain w' where "d_readdir D dp w = Some (Some ''.'', w')" using assms by blast
      with e step have "g D path dp t (out @ ''.'' @ newline) w' = Some r" by (simp add: dot_name_def)
      from IH [OF this] show False by (simp add: Q_def)
    qed
  qed
  then show False by (simp add: Q_def)
qed

text \<open>C15: Listing a directory. For every sequence of entries the library delivers, \<open>list_dir\<close> ends and prints a
  line for each of them, in order; every path it builds fits its block. If the directory ends without
  an error it prints the sum of the sizes modulo \<open>2 ^ 32\<close> in KiB, closes the directory and returns 0. If
  \<open>readdir\<close> left an error, or a status cannot be had, it returns 1 and leaves the directory open.
\<close>

theorem list_dir_lists:
  assumes "c_errno C w = 0" and "d_opendir D path w = Some (Some dp, w1)"
    and answers: "dir_answers D path dp es bad w1 = Some w2"
    and "\<And>n w. \<exists>b. d_malloc D n w = Some b \<and> msize b = n"
    and "NUL \<notin> set path" and "\<forall>(name, st) \<in> set es. NUL \<notin> set name"
    and "\<forall>name. bad = Some name \<longrightarrow> NUL \<notin> set name"
    and close: "d_closedir D dp w2 = Some (r, w3)"
  shows "list_dir C D path p w = Some
    (if bad = None \<and> c_errno C w2 = 0
     then (0, p\<lparr>tp_out := tp_out p @ concat (map listed_line es) @
             ''total: '' @ print_u (listed_sizes es mod 2 ^ 32 div 1024) @ ''K'' @ newline\<rparr>, w3)
     else (1, p\<lparr>tp_out := tp_out p @ concat (map listed_line es)\<rparr>, w2))"
proof -
  note loop = list_loop_answers [OF assms(3-7), of 0 "[]"]
  show ?thesis
    using assms(1,2) close loop
    by (simp add: list_dir_def Let_def unat_of_nat)
qed

text \<open>
  A directory with a file of a little more than 4 GiB; the state is the number of entries read. The C
  library has nothing else to offer.
\<close>

definition big_file :: file_stat where
  "big_file = \<lparr>st_mode = 0x8180, st_size = 0x100000800, st_nlink = 1, st_uid = 0, st_gid = 100, st_mtime = 7\<rparr>"

definition big_dir :: "nat dirlib" where
  "big_dir = \<lparr>d_opendir = (\<lambda>_ w. Some (Some 3, w)),
     d_readdir = (\<lambda>_ w. Some (if w = 0 then Some ''.'' else if w = 1 then Some ''a'' else None, w + 1)),
     d_closedir = (\<lambda>_ w. Some (0, w)),
     d_stat64 = (\<lambda>_ w. Some (0, Some big_file, w)),
     d_fstat64 = (\<lambda>_ w. Some (0, w)), d_mkdir = (\<lambda>_ _ w. Some (-1, w)), d_rmdir = (\<lambda>_ w. Some (-1, w)),
     d_rename = (\<lambda>_ _ w. Some (-1, w)), d_unlink = (\<lambda>_ w. Some (-1, w)),
     d_malloc = (\<lambda>n _. Some (mzero n))\<rparr>"

definition no_files :: "nat clib" where
  "no_files = \<lparr>c_mount = (\<lambda>_ _ _ w. Some (-1, w)), c_open = (\<lambda>_ _ _ w. Some (-1, w)),
     c_close = (\<lambda>_ w. Some (-1, w)), c_read = (\<lambda>_ _ w. Some (-1, [], w)), c_write = (\<lambda>_ _ w. Some (-1, w)),
     c_errno = (\<lambda>_. 0)\<rparr>"

lemma list_dir_lists_witness:
  "list_dir no_files big_dir ''/d'' (tproc0 (\<lambda>_. NUL)) 0 = Some (0, (tproc0 (\<lambda>_. NUL))\<lparr>tp_out :=
     ''.'' @ newline @ ''-rw- 1 0 100 4096M 7 a'' @ newline @ ''total: 2K'' @ newline\<rparr>, 3)"
proof -
  let ?es = "[(''.'', big_file), (''a'', big_file)]"
  have lines: "concat (map listed_line ?es) = ''.'' @ newline @ ''-rw- 1 0 100 4096M 7 a'' @ newline"
    by (simp add: listed_line_def dot_name_def entry_line_def big_file_def mode_string_def S_ISDIR_def
        S_IREAD_def S_IWRITE_def S_IEXEC_def size_string_def print_eval)
  have sizes: "print_u (listed_sizes ?es mod 2 ^ 32 div 1024) = ''2''"
    by (simp add: listed_sizes_def dot_name_def big_file_def print_eval)
  have errno: "c_errno no_files n = 0" for n by (simp add: no_files_def)
  have "dir_answers big_dir ''/d'' 3 ?es None 0 = Some 3"
    and "d_opendir big_dir ''/d'' 0 = Some (Some 3, 0)" and "d_closedir big_dir 3 3 = Some (0, 3)"
    and "\<And>n w. \<exists>b. d_malloc big_dir n w = Some b \<and> msize b = n"
    by (simp_all add: big_dir_def dot_name_def mzero_def)
  note list_dir_lists [OF errno this(2,1,4) _ _ _ this(3), of "tproc0 (\<lambda>_. NUL)", unfolded lines sizes]
  then show ?thesis using errno by (simp del: append_Cons)
qed

end
