(* ===== verification/Fs_Dirs.thy ===== *)
theory Fs_Dirs
  imports Ref_Clib Fs_Listing
begin

text \<open>
  An executable instance of the parameter \<open>D\<close> of theory \<open>Fs_Listing\<close>, as \<open>Ref_Clib\<close> is one of \<open>C\<close>: the
  calls on directories and names on top of the backend. On the file server of this repository no directory can
  be listed: \<open>open\<close> does not tell the backend that it has opened a directory, and the server has no
  \<open>pgetdents\<close>. So the tests behind the \<open>return 0\<close> of \<open>fstest\<close> cannot succeed.
\<close>

section \<open>The calls\<close>

text \<open>
  The state is that of \<open>Ref_Clib\<close> and the streams of each process: the kind of the object, and the names
  read from the server but not yet delivered.
\<close>

type_synonym streams = "nat \<Rightarrow> int \<Rightarrow> fkind \<times> byte list list"

definition on_files :: "'w clib \<Rightarrow> ('d \<times> 'w) clib" where
  "on_files C =
     \<lparr>c_mount = (\<lambda>source target fstype (d, w). map_option (\<lambda>(r, w). (r, d, w)) (c_mount C source target fstype w)),
      c_open = (\<lambda>path fl m (d, w). map_option (\<lambda>(r, w). (r, d, w)) (c_open C path fl m w)),
      c_close = (\<lambda>fd (d, w). map_option (\<lambda>(r, w). (r, d, w)) (c_close C fd w)),
      c_read = (\<lambda>fd n (d, w). map_option (\<lambda>(r, bs, w). (r, bs, d, w)) (c_read C fd n w)),
      c_write = (\<lambda>fd bs (d, w). map_option (\<lambda>(r, w). (r, d, w)) (c_write C fd bs w)),
      c_errno = (\<lambda>(d, w). c_errno C w)\<rparr>"

text \<open>A call on an object the path names; a negative result becomes \<open>errno\<close>.\<close>

definition on_name ::
  "nat \<Rightarrow> byte list \<Rightarrow> (byte list \<Rightarrow> 'w \<Rightarrow> (int \<times> 'w) option) \<Rightarrow> streams \<times> 'w lworld \<Rightarrow>
     (int \<times> streams \<times> 'w lworld) option" where
  "on_name i path call = (\<lambda>(d, vs, w).
     case lib_name (vs i) path of
       None \<Rightarrow> Some (-1, d, lib_fail i L4_ENOENT vs, w)
     | Some name \<Rightarrow> do {
         (r, w) \<leftarrow> call name w;
         Some (if r < 0 then (-1, d, lib_fail i (- r) vs, w) else (0, d, vs, w))
       })"

definition lib_rename ::
  "'w link \<Rightarrow> nat \<Rightarrow> byte list \<Rightarrow> byte list \<Rightarrow> streams \<times> 'w lworld \<Rightarrow> (int \<times> streams \<times> 'w lworld) option" where
  "lib_rename L i old new = (\<lambda>(d, vs, w).
     case lib_name (vs i) new of
       None \<Rightarrow> Some (-1, d, lib_fail i L4_ENOENT vs, w)
     | Some to \<Rightarrow> on_name i old (\<lambda>from. fd_rename L from to) (d, vs, w))"

definition lib_opendir ::
  "'w link \<Rightarrow> nat \<Rightarrow> byte list \<Rightarrow> streams \<times> 'w lworld \<Rightarrow> (int option \<times> streams \<times> 'w lworld) option" where
  "lib_opendir L i path = (\<lambda>(d, vs, w).
     case lib_name (vs i) path of
       None \<Rightarrow> Some (None, d, lib_fail i L4_ENOENT vs, w)
     | Some name \<Rightarrow> do {
         (r, entry, w) \<leftarrow> fd_get_entry L True name O_DIRECTORY 0 w;
         Some (case entry of
             None \<Rightarrow> (None, d, lib_fail i (- r) vs, w)
           | Some (k, f) \<Rightarrow>
               (let fd = fd_free (map fst (v_fds (vs i))) in
                (Some fd, d(i := (d i)(fd := (k, []))), vs(i := (vs i)\<lparr>v_fds := (fd, f) # v_fds (vs i)\<rparr>), w)))
       })"

text \<open>
  \<open>base\<close> is the result of \<open>getdents\<close> of the class \<open>Be_file\<close> of the library, which the backend's files
  inherit; \<open>decode\<close> the names in a block of directory entries.
\<close>

definition lib_readdir ::
  "'w link \<Rightarrow> nat \<Rightarrow> int \<Rightarrow> (byte list \<Rightarrow> byte list list) \<Rightarrow> int \<Rightarrow> streams \<times> 'w lworld \<Rightarrow>
     (byte list option \<times> streams \<times> 'w lworld) option" where
  "lib_readdir L i base decode dp = (\<lambda>(d, vs, w).
     case d i dp of
       (k, n # ns) \<Rightarrow> Some (Some n, d(i := (d i)(dp := (k, ns))), vs, w)
     | (k, []) \<Rightarrow>
         (case map_of (v_fds (vs i)) dp of
            None \<Rightarrow> Some (None, d, lib_fail i EBADF vs, w)
          | Some f \<Rightarrow> do {
              (r, f, buf, w) \<leftarrow> (case k of
                  L4fs_dir \<Rightarrow> fd_getdents L f (mzero 4096) 4096 w
                | L4fs_file \<Rightarrow> Some (base, f, mzero 4096, w));
              if r < 0 then Some (None, d, lib_fail i (- r) vs, w)
              else do {
                bs \<leftarrow> mread buf 0 (nat r);
                let vs = vs(i := (vs i)\<lparr>v_fds := (dp, f) # drop_key dp (v_fds (vs i))\<rparr>);
                Some (case decode bs of
                    [] \<Rightarrow> (None, d, vs, w)
                  | n # ns \<Rightarrow> (Some n, d(i := (d i)(dp := (k, ns))), vs, w))
              }
            }))"

text \<open>The members of the status the protocol does not carry are those of a new file.\<close>

definition lib_stat64 ::
  "'w link \<Rightarrow> nat \<Rightarrow> byte list \<Rightarrow> streams \<times> 'w lworld \<Rightarrow> (int \<times> file_stat option \<times> streams \<times> 'w lworld) option" where
  "lib_stat64 L i path = (\<lambda>(d, vs, w).
     case lib_name (vs i) path of
       None \<Rightarrow> Some (-1, None, d, lib_fail i L4_ENOENT vs, w)
     | Some name \<Rightarrow> do {
         (r, entry, w) \<leftarrow> fd_get_entry L True name O_RDONLY 0 w;
         case entry of
           None \<Rightarrow> Some (-1, None, d, lib_fail i (- r) vs, w)
         | Some (_, f) \<Rightarrow> do {
             (r, st, w) \<leftarrow> fb_fstat64 L f w;
             (_, _, w) \<leftarrow> fb_close L f w;
             Some (if r < 0 then (-1, None, d, lib_fail i (- r) vs, w)
               else (0, map_option (\<lambda>st. stat64.extend st (file_stat.fields 1 0 0 0)) st, d, vs, w))
           }
       })"

definition lib_fstat64 ::
  "'w link \<Rightarrow> nat \<Rightarrow> int \<Rightarrow> streams \<times> 'w lworld \<Rightarrow> (int \<times> streams \<times> 'w lworld) option" where
  "lib_fstat64 L i fd = (\<lambda>(d, vs, w).
     case map_of (v_fds (vs i)) fd of
       None \<Rightarrow> Some (-1, d, lib_fail i EBADF vs, w)
     | Some f \<Rightarrow> do {
         (r, _, w) \<leftarrow> fb_fstat64 L f w;
         Some (if r < 0 then (-1, d, lib_fail i (- r) vs, w) else (0, d, vs, w))
       })"

definition backend_dirs ::
  "'w link \<Rightarrow> nat \<Rightarrow> int \<Rightarrow> (byte list \<Rightarrow> byte list list) \<Rightarrow> (streams \<times> 'w lworld) dirlib" where
  "backend_dirs L i base decode =
     \<lparr>d_opendir = lib_opendir L i, d_readdir = lib_readdir L i base decode,
      d_closedir = (\<lambda>dp (d, s). map_option (\<lambda>(r, s). (r, d, s)) (lib_close L i dp s)),
      d_stat64 = lib_stat64 L i, d_fstat64 = lib_fstat64 L i,
      d_mkdir = (\<lambda>path m. on_name i path (\<lambda>name. fd_mkdir L name m)),
      d_rmdir = (\<lambda>path. on_name i path (fd_rmdir L)), d_rename = lib_rename L i,
      d_unlink = (\<lambda>path. on_name i path (fd_unlink L)), d_malloc = (\<lambda>n _. Some (mzero n))\<rparr>"

lemma backend_dirs_sel [simp]:
  "d_opendir (backend_dirs L i base decode) = lib_opendir L i"
  "d_readdir (backend_dirs L i base decode) = lib_readdir L i base decode"
  by (simp_all add: backend_dirs_def)

lemma on_files_errno [simp]: "c_errno (on_files (backend_lib L i)) (d, vs, w) = v_errno (vs i)"
  by (simp add: on_files_def)

section \<open>Reading a directory of this server\<close>

lemma getdents_unsupported:
  "fd_getdents (fs_link P) f buf n w =
     Some (if Max_rw_buffer_size < n then - L4_ENOMEM else - L4_ENOSYS, f, buf, w)"
  by (simp add: fd_getdents_def l4fs_pgetdents_def dispatch_def fs_srv_handlers_def reply_code_def)

lemma readdir_fails:
  assumes "base < 0" and "d i dp = (k, [])" and "map_of (v_fds (vs i)) dp = Some f"
  shows "\<exists>e. e \<noteq> 0 \<and> (k = L4fs_file \<longrightarrow> e = - base) \<and>
    lib_readdir (fs_link P) i base decode dp (d, vs, w) = Some (None, d, lib_fail i e vs, w)"
  using assms
  by (intro exI [of _ "if k = L4fs_file then - base else if Max_rw_buffer_size < 4096 then L4_ENOMEM else L4_ENOSYS"])
    (cases k; simp add: lib_readdir_def getdents_unsupported)

text \<open>What \<open>opendir\<close> answers, for every object.\<close>

lemma opendir_cases:
  assumes "lib_opendir L i path (d, vs, w) = Some (r, d', vs', w')"
  shows "r = None \<or>
    (\<exists>dp k f. r = Some dp \<and> d' i dp = (k, []) \<and> map_of (v_fds (vs' i)) dp = Some f)"
  using assms
  by (auto simp: lib_opendir_def Let_def split: option.splits bind_splits)

lemma list_dir_fails:
  assumes base: "base < 0" and "tp_exit p = None"
    and run: "list_dir (on_files (backend_lib (fs_link P) i)) (backend_dirs (fs_link P) i base decode) path p s =
      Some (res, p', s')"
  shows "tp_exit p' = Some Assertion_failed \<or> tp_exit p' = None \<and> res = 1"
proof -
  obtain d vs w where s: "s = (d, vs, w)" by (cases s) auto
  show ?thesis
  proof (cases "v_errno (vs i) = 0 \<and> lib_opendir (fs_link P) i path s \<noteq> None")
    case False
    then have "v_errno (vs i) \<noteq> 0 \<or> lib_opendir (fs_link P) i path (d, vs, w) = None" using s by blast
    with run [unfolded s] show ?thesis using assms(2) by (auto simp: list_dir_def split: if_splits)
  next
    case True
    then obtain r d1 vs1 w1 where op: "lib_opendir (fs_link P) i path (d, vs, w) = Some (r, d1, vs1, w1)"
      using s by auto
    from opendir_cases [OF this] show ?thesis
    proof
      assume "r = None"
      with run [unfolded s] True op assms(2) show ?thesis by (auto simp: list_dir_def)
    next
      assume "\<exists>dp k f. r = Some dp \<and> d1 i dp = (k, []) \<and> map_of (v_fds (vs1 i)) dp = Some f"
      then obtain dp k f where r: "r = Some dp" "d1 i dp = (k, [])" "map_of (v_fds (vs1 i)) dp = Some f" by blast
      from readdir_fails [of base d1 i dp k vs1 f, OF base r(2,3)] obtain e where "e \<noteq> 0"
        "lib_readdir (fs_link P) i base decode dp (d1, vs1, w1) = Some (None, d1, lib_fail i e vs1, w1)" by blast
      with run [unfolded s] True op r(1) assms(2) show ?thesis
        by (auto simp: list_dir_def lib_fail_def list_loop.simps)
    qed
  qed
qed

section \<open>Programs that do not succeed\<close>

text \<open>A part after which a process that has not ended has not returned 0.\<close>

definition no_success :: "'w part \<Rightarrow> bool" where
  "no_success f \<longleftrightarrow> (\<forall>p w p' w'. tp_exit p = None \<longrightarrow> f p w = Some (p', w') \<longrightarrow> tp_exit p' \<noteq> Some (Exit 0))"

text \<open>A part that ends the process, without success.\<close>

definition fails :: "'w part \<Rightarrow> bool" where
  "fails f \<longleftrightarrow> (\<forall>p w p' w'. tp_exit p = None \<longrightarrow> f p w = Some (p', w') \<longrightarrow>
     tp_exit p' \<noteq> None \<and> tp_exit p' \<noteq> Some (Exit 0))"

lemma run_parts_ended [simp]: "tp_exit p \<noteq> None \<Longrightarrow> run_parts xs p w = Some (p, w)"
  by (cases xs) auto

lemma run_parts_append:
  "run_parts (xs @ ys) p w = Option.bind (run_parts xs p w) (\<lambda>(p, w). run_parts ys p w)"
  by (induction xs arbitrary: p w) (auto split: bind_splits)

lemma no_success_run:
  assumes "\<forall>f \<in> set xs. no_success f" and "run_parts xs p w = Some (p', w')" and "tp_exit p \<noteq> Some (Exit 0)"
  shows "tp_exit p' \<noteq> Some (Exit 0)"
  using assms
proof (induction xs arbitrary: p w)
  case (Cons f xs)
  show ?case
  proof (cases "tp_exit p")
    case None
    with Cons.prems obtain p1 w1 where f: "f p w = Some (p1, w1)" "run_parts xs p1 w1 = Some (p', w')"
      by (auto split: bind_splits)
    have "no_success f" using Cons.prems(1) by simp
    with None f(1) have "tp_exit p1 \<noteq> Some (Exit 0)" unfolding no_success_def by blast
    with Cons.IH [OF _ f(2)] Cons.prems(1) show ?thesis by simp
  qed (use Cons.prems in auto)
qed simp

lemma no_success_parts: "\<forall>f \<in> set xs. no_success f \<Longrightarrow> no_success (run_parts xs)"
  using no_success_run by (fastforce simp: no_success_def [of "run_parts xs"])

lemma no_success_fails:
  assumes "\<forall>f \<in> set xs. no_success f" and "fails f"
  shows "no_success (run_parts (xs @ f # ys))"
  unfolding no_success_def
proof (intro allI impI)
  fix p w p' w' assume p: "tp_exit p = None" and run: "run_parts (xs @ f # ys) p w = Some (p', w')"
  then obtain p1 w1 where r: "run_parts xs p w = Some (p1, w1)" "run_parts (f # ys) p1 w1 = Some (p', w')"
    by (auto simp: run_parts_append split: bind_splits)
  have "tp_exit p1 \<noteq> Some (Exit 0)" by (rule no_success_run [OF assms(1) r(1)]) (simp add: p)
  show "tp_exit p' \<noteq> Some (Exit 0)"
  proof (cases "tp_exit p1")
    case None
    with r(2) obtain p2 w2 where f: "f p1 w1 = Some (p2, w2)" "run_parts ys p2 w2 = Some (p', w')"
      by (auto split: bind_splits)
    with None assms(2) have "tp_exit p2 \<noteq> None" "tp_exit p2 \<noteq> Some (Exit 0)" unfolding fails_def by blast+
    with f(2) show ?thesis by simp
  qed (use r(2) \<open>tp_exit p1 \<noteq> Some (Exit 0)\<close> in auto)
qed

lemma print_file_exit: "print_file C p w = Some (p', w') \<Longrightarrow> tp_exit p' = tp_exit p"
proof -
  define Q :: "(('a clib \<times> tproc) \<times> 'a) \<Rightarrow> tproc \<times> 'a \<Rightarrow> bool"
    where "Q = (\<lambda>((C, p), w) (p', w'). tp_exit p' = tp_exit p)"
  assume "print_file C p w = Some (p', w')"
  then have "Q ((C, p), w) (p', w')"
    by (rule print_file.raw_induct [rotated]) (auto simp: Q_def Let_def split: bind_splits if_splits)
  then show ?thesis by (simp add: Q_def)
qed

lemma no_success_exit:
  "no_success f \<Longrightarrow> tp_exit p = None \<Longrightarrow> map_option (tp_exit \<circ> fst) (f p w) \<noteq> Some (Some (Exit 0))"
  unfolding no_success_def by (cases "f p w") (simp, metis comp_apply map_option_eq_Some option.inject prod.exhaust_sel)

named_theorems no_success_intros

lemma no_success_attempt [no_success_intros]: "no_success (attempt bad call)"
  by (auto simp: no_success_def attempt_def split: bind_splits)

lemma no_success_attempt_fd [no_success_intros]: "no_success (\<lambda>p. attempt bad (call p) p)"
  by (auto simp: no_success_def attempt_def split: bind_splits)

lemma no_success_errno [no_success_intros]: "no_success (assert_errno C)"
  by (auto simp: no_success_def assert_errno_def)

lemma no_success_open [no_success_intros]: "no_success (open_hello C flags mode)"
  by (auto simp: no_success_def open_hello_def Let_def split: bind_splits)

lemma no_success_print [no_success_intros]: "no_success (print_file C)"
  using print_file_exit by (fastforce simp: no_success_def)

lemma no_success_create [no_success_intros]: "no_success (fstest_create C)"
  by (auto simp: no_success_def fstest_create_def do_mount_def split: bind_splits if_splits)

lemma no_success_show [no_success_intros]: "no_success (show_file C flags)"
  by (auto simp: no_success_def show_file_def Let_def dest: print_file_exit split: bind_splits if_splits)

lemma no_success_write [no_success_intros]: "no_success (write_text C str)"
  by (auto simp: no_success_def write_text_def split: bind_splits if_splits)

lemma no_success_trunc [no_success_intros]:
  "no_success (\<lambda>p w. do { (p, w) \<leftarrow> open_trunc C p w; Some (if tp_fd p = 0 then stop (Exit 1) p else p, w) })"
  by (auto simp: no_success_def open_trunc_def split: bind_splits if_splits)

lemma list_part_fails:
  assumes "base < 0"
  shows "fails (list_part (on_files (backend_lib (fs_link P) i)) (backend_dirs (fs_link P) i base decode) path)"
  by (auto simp: fails_def list_part_def split: bind_splits dest: list_dir_fails [OF assms])

lemma fstest_further_no_success:
  assumes "base < 0"
  shows "no_success (run_parts (map snd (fstest_further
    (on_files (backend_lib (fs_link P) i)) (backend_dirs (fs_link P) i base decode))))"
proof -
  let ?C = "on_files (backend_lib (fs_link P) i)" and ?D = "backend_dirs (fs_link P) i base decode"
  have "no_success (creation_phase ?C ?D)" "no_success (messing_write ?C ?D)" "no_success (messing_read ?C ?D)"
    unfolding creation_phase_def messing_write_def messing_read_def
    by (rule no_success_parts; auto intro: no_success_intros)+
  moreover have "no_success (deletion_phase ?C ?D)"
    unfolding deletion_phase_def
    using no_success_fails [of "[attempt (\<lambda>r. r \<noteq> 0) (d_unlink ?D ''/hellofs/tmp''), assert_errno ?C,
      attempt (\<lambda>r. r < 0) (d_rmdir ?D ''/hellofs/subdir'')]", OF _ list_part_fails [OF assms]]
    by (simp add: no_success_intros)
  ultimately show ?thesis
    by (intro no_success_parts) (auto simp: fstest_further_def fstest_def intro: no_success_intros no_success_parts)
qed

section \<open>The property\<close>

lemma name_ok_Nil: "name_ok []"
  by (simp add: name_ok_def)

text \<open>C16: No directory can be listed through this server. For every path below the mount point, \<open>list_dir\<close> returns 1 and
  prints nothing: it fails to open the directory, or it opens it and then fails to read it, since \<open>open\<close> does
  not report that the object is a directory; then the open directory is left behind. Neither would
  \<open>getdents\<close> of a directory object deliver anything. So \<open>fstest\<close> with its further tests does not return 0,
  whatever state it starts in.\<close>

theorem listing_unsupported:
  assumes base: "base < 0" and ok: "fs_ok w" and errno: "v_errno (vs i) = 0"
    and name: "lib_name (vs i) path = Some n" "name_ok n"
    and op: "p_open P (tmpDir @ n) O_DIRECTORY 0 (fs (obj w)) = (r, f')"
  shows "(\<exists>d' vs' w'. list_dir (on_files (backend_lib (fs_link P) i)) (backend_dirs (fs_link P) i base decode) path p
        (d, vs, w) = Some (1, p, d', vs', w') \<and> fs (obj w') = f' \<and>
      v_errno (vs' i) = (if i32 r < 0 then - i32 r else - base) \<and>
      map snd (v_fds (vs' i)) = (if i32 r < 0 then [] else [\<lparr>fo_fh = i32 r, fo_pos = 0\<rparr>]) @ map snd (v_fds (vs i))) \<and>
    (\<forall>f buf k w. fd_getdents (fs_link P) f buf k w =
      Some (if Max_rw_buffer_size < k then - L4_ENOMEM else - L4_ENOSYS, f, buf, w)) \<and>
    (\<forall>s. map_option (tp_exit \<circ> fst) (run_test (fstest_further (on_files (backend_lib (fs_link P) i))
      (backend_dirs (fs_link P) i base decode)) junk s) \<noteq> Some (Some (Exit 0)))"
proof (intro conjI allI)
  have "p_open P (tmpDir @ n) (if n = [] then O_DIRECTORY OR O_DIRECTORY else O_DIRECTORY) 0 (fs (obj w)) = (r, f')"
    using op by (cases "n = []") simp_all
  from fd_get_entry_fs [OF ok name(2) this] obtain w1 where
    e: "fd_get_entry (fs_link P) True n O_DIRECTORY 0 w = Some (if i32 r < 0 then (i32 r, None, w1)
        else (0, Some (L4fs_file, \<lparr>fo_fh = i32 r, fo_pos = 0\<rparr>), w1))" "fs (obj w1) = f'"
    by (auto simp: S_ISDIR_def)
  let ?fd = "fd_free (map fst (v_fds (vs i)))" and ?f = "\<lparr>fo_fh = i32 r, fo_pos = 0\<rparr>"
  let ?vs = "vs(i := (vs i)\<lparr>v_fds := (?fd, ?f) # v_fds (vs i)\<rparr>)" and ?d = "d(i := (d i)(?fd := (L4fs_file, [])))"
  show "\<exists>d' vs' w'. list_dir (on_files (backend_lib (fs_link P) i)) (backend_dirs (fs_link P) i base decode) path p
        (d, vs, w) = Some (1, p, d', vs', w') \<and> fs (obj w') = f' \<and>
      v_errno (vs' i) = (if i32 r < 0 then - i32 r else - base) \<and>
      map snd (v_fds (vs' i)) = (if i32 r < 0 then [] else [?f]) @ map snd (v_fds (vs i))"
  proof (cases "i32 r < 0")
    case True
    have "lib_opendir (fs_link P) i path (d, vs, w) = Some (None, d, lib_fail i (- i32 r) vs, w1)"
      using True e(1) name(1) by (simp add: lib_opendir_def)
    with True errno e(2) show ?thesis by (auto simp: list_dir_def lib_fail_def)
  next
    case False
    have "lib_opendir (fs_link P) i path (d, vs, w) = Some (Some ?fd, ?d, ?vs, w1)"
      using False e(1) name(1) by (simp add: lib_opendir_def Let_def)
    moreover have "lib_readdir (fs_link P) i base decode ?fd (?d, ?vs, w1) = Some (None, ?d, lib_fail i (- base) ?vs, w1)"
      using readdir_fails [OF base, of ?d i ?fd L4fs_file ?vs ?f P decode w1] by auto
    ultimately show ?thesis
      using False errno e(2) base by (auto simp: list_dir_def list_loop.simps lib_fail_def)
  qed
next
  fix s
  show "map_option (tp_exit \<circ> fst) (run_test (fstest_further (on_files (backend_lib (fs_link P) i))
      (backend_dirs (fs_link P) i base decode)) junk s) \<noteq> Some (Some (Exit 0))"
    unfolding run_test_def by (rule no_success_exit [OF fstest_further_no_success [OF base] tproc0_sel(1)])
qed (rule getdents_unsupported)

lemma listing_unsupported_witness:
  "\<exists>o1 d' vs' w'. fs_srv_new (\<lambda>_. NUL) True ref_empty = Some o1 \<and>
    list_dir (on_files (backend_lib (fs_link ref_posix) 0)) (backend_dirs (fs_link ref_posix) 0 (- 20) (\<lambda>_. [])) ''/hellofs''
      (tproc0 (\<lambda>_. NUL)) (\<lambda>_ _. (L4fs_file, []),
        \<lambda>_. vfs0\<lparr>v_mount := Some (''hellofs'', \<lparr>fo_fh = 9, fo_pos = 0\<rparr>)\<rparr>, svr_start o1) =
      Some (1, tproc0 (\<lambda>_. NUL), d', vs', w') \<and>
    v_errno (vs' 0) = 20 \<and> ref_opened (fs (obj w')) 3 = Some (''/tmp/'', O_DIRECTORY)"
proof -
  obtain o1 where o1: "fs_srv_new (\<lambda>_. NUL) True ref_empty = Some o1"
    using fs_srv_new_total [of "\<lambda>_. NUL" True ref_empty] by blast
  with fs_srv_new_inv [OF o1] have ok: "fs_ok (svr_start o1)" "fs (obj (svr_start o1)) = ref_empty"
    by (simp_all add: fs_ok_def svr_start_def svr_wf_def mzero_def)
  let ?vs = "\<lambda>_ :: nat. vfs0\<lparr>v_mount := Some (''hellofs'', \<lparr>fo_fh = 9, fo_pos = 0\<rparr>)\<rparr>"
  have "v_errno (?vs 0) = 0" "lib_name (?vs 0) ''/hellofs'' = Some []" by (simp_all add: vfs0_def lib_name_def)
  moreover have "p_open ref_posix (tmpDir @ []) O_DIRECTORY 0 (fs (obj (svr_start o1))) =
      (3, ref_empty\<lparr>rfds := [(3, tmpDir, O_DIRECTORY)]\<rparr>)"
    by (simp add: ok(2) ref_posix_def ref_open_def ref_empty_def ref_room_def ref_is_dir_def fd_free_def open_flags)
  moreover have "i32 3 = 3" by (intro i32_id) simp_all
  ultimately show ?thesis
    using listing_unsupported [of "- 20" "svr_start o1" ?vs 0, OF _ ok(1), of "''/hellofs''" "[]" ref_posix 3 _ "\<lambda>_. []"
        "tproc0 (\<lambda>_. NUL)" "\<lambda>_ _. (L4fs_file, [])"]
      name_ok_Nil o1
    by (fastforce simp: ref_opened_def tmpDir_def)
qed

end
