(* ===== verification/Kr_Arch.thy ===== *)
theory Kr_Arch
  imports Kr_Loader
begin

text \<open>
  The headers of dom0-l4re_kernel per processor: \<open>switch_stack\<close> (ARCH-*/switch_stack.h) and the start
  of the region for the stack of the loader (ARCH-*/mem_layout.h). The build is for x86, whose
  \<open>switch_stack\<close> is in theory \<open>Kr_Loader\<close>; a processor is the registers the code sets.
\<close>

section \<open>Registers\<close>

record cpu_amd64 =
  amd64_rsp :: u64
  amd64_rbp :: u64
  amd64_rdx :: u64
  amd64_pc :: u64

record cpu_arm =
  arm_r0 :: u32
  arm_sp :: u32
  arm_pc :: u32

record cpu_ppc32 =
  ppc_r1 :: u32
  ppc_r3 :: u32
  ppc_ctr :: u32
  ppc_pc :: u32

record cpu_sparc =
  sparc_sp :: u32
  sparc_pc :: u32

section \<open>Switching the stack\<close>

definition switch_stack_amd64 :: "u64 \<Rightarrow> u64 \<Rightarrow> cpu_amd64 \<Rightarrow> cpu_amd64" where
  "switch_stack_amd64 stack func c = c\<lparr>amd64_rdx := 0, amd64_rsp := stack, amd64_pc := func\<rparr>"

definition switch_stack_arm :: "u32 \<Rightarrow> u32 \<Rightarrow> cpu_arm \<Rightarrow> cpu_arm" where
  "switch_stack_arm stack func c = c\<lparr>arm_r0 := 0, arm_sp := stack, arm_pc := func\<rparr>"

text \<open>The branch is through the count register; \<open>r3\<close>, the first argument, is left alone.\<close>

definition switch_stack_ppc32 :: "u32 \<Rightarrow> u32 \<Rightarrow> cpu_ppc32 \<Rightarrow> cpu_ppc32" where
  "switch_stack_ppc32 stack func c =
     (let c = c\<lparr>ppc_r1 := stack, ppc_ctr := func\<rparr> in c\<lparr>ppc_pc := ppc_ctr c\<rparr>)"

text \<open>On sparc there is only a trap; its number is the left value.\<close>

definition switch_stack_sparc :: "u32 \<Rightarrow> u32 \<Rightarrow> cpu_sparc \<Rightarrow> nat + cpu_sparc" where
  "switch_stack_sparc stack func c = Inl 0"

lemma switch_stack_enters:
  "cpu_esp (switch_stack stack func c) = stack \<and> cpu_pc (switch_stack stack func c) = func"
  "amd64_rsp (switch_stack_amd64 stack' func' c64) = stack' \<and> amd64_pc (switch_stack_amd64 stack' func' c64) = func'"
  "arm_sp (switch_stack_arm stack func ca) = stack \<and> arm_pc (switch_stack_arm stack func ca) = func"
  "ppc_r1 (switch_stack_ppc32 stack func cp) = stack \<and> ppc_pc (switch_stack_ppc32 stack func cp) = func"
  by (simp_all add: switch_stack_def switch_stack_amd64_def switch_stack_arm_def switch_stack_ppc32_def Let_def)

text \<open>Only x86 ends the chain of frame pointers for whoever walks the new stack.\<close>

lemma frame_pointer:
  "cpu_ebp (switch_stack stack func c) = 0" "amd64_rbp (switch_stack_amd64 stack' func' c64) = amd64_rbp c64"
  by (simp_all add: switch_stack_def switch_stack_amd64_def)

section \<open>The stack of the loader\<close>

definition Loader_vma_start_x86 :: u32 where "Loader_vma_start_x86 = 0xb0200000"
definition Loader_vma_start_amd64 :: u64 where "Loader_vma_start_amd64 = 0x00007fff00200000"
definition Loader_vma_start_arm :: u32 where "Loader_vma_start_arm = 0xb0200000"
definition Loader_vma_start_ppc32 :: u32 where "Loader_vma_start_ppc32 = 0xb0200000"
definition Loader_vma_start_sparc :: u32 where "Loader_vma_start_sparc = 0xb0200000"

lemma Loader_vma_start_x86: "Loader_vma_start = Loader_vma_start_x86"
  by (simp add: Loader_vma_start_x86_def)

text \<open>Everywhere the stack is a whole number of pages at a page boundary and does not wrap.\<close>

lemma loader_stack_region:
  "\<forall>a \<in> {Loader_vma_start_x86, Loader_vma_start_arm, Loader_vma_start_ppc32, Loader_vma_start_sparc}.
     4096 dvd unat a \<and> unat a + unat Loader_stack_size < 2 ^ 32"
  "4096 dvd unat Loader_vma_start_amd64 \<and> unat Loader_vma_start_amd64 + unat Loader_stack_size < 2 ^ 64"
  "4096 dvd unat Loader_stack_size"
  by (simp_all add: Loader_vma_start_x86_def Loader_vma_start_amd64_def Loader_vma_start_arm_def
      Loader_vma_start_ppc32_def Loader_vma_start_sparc_def)

end
