(* ===== verification/Spec2Isabelle.thy ===== *)
theory Spec2Isabelle
  imports Fs_Properties Test_Properties Dom0_Properties Net_Example Ned_Properties Kr_Properties Kr_Start
    Launch_Properties Ned_Methods Ned_Exec Ned_Server Fs_Dirs Kr_Arch
begin

text \<open>
  Verification development for the L4Re tmpfs and dom0 programs.

  \<^bold>\<open>The programs.\<close> The repository holds a file system that is reached by remote calls and the programs of
  a system domain (dom0) that starts tasks and is controlled over the network.

  \<^item> \<open>libfs\<close> (dom0/libfs) defines the l4fs protocol. A program opens a file with the C library; the
    backend of the C library calls the stubs of class \<open>L4fs\<close>; a stub sends a message; the server's
    \<open>L4fs_svr::dispatch\<close> decodes it and calls a virtual method. Data moves through one buffer that
    the server shares with all its clients.
  \<^item> \<open>fs_srv\<close> (dom0/fs_srv) is a server of this kind on top of a tmpfs mounted at \<open>/tmp/\<close>. \<open>fstest\<close> and
    \<open>fstest2\<close> are two programs that use it, started side by side.
  \<^item> \<open>dom0-main\<close> listens on two ports: Lua commands go on to the Lua interpreter of \<open>Ned\<close> over IPC,
    binaries are stored in files. Its class \<open>RemoteDom0Instance\<close> is the client side of the same
    protocol. \<open>net-example\<close> is an older pair of echo programs on the same network stack.
  \<^item> \<open>Ned\<close> (dom0/dom0-ned) runs Lua scripts, answers Lua commands, starts tasks and waits for them; the
    program of a task is loaded with the help of the \<open>L4Re kernel\<close> (dom0/dom0-l4re_kernel), which runs
    in every task as its first program, region mapper and page fault handler.

  \<^bold>\<open>Theories and sources.\<close> All paths are below \<open>src/dom0\<close>.

  \<^item> \<open>Prelude\<close>: machine types and constants of the x86-32 target, C objects as bounds checked memory
    (\<open>membuf\<close>, \<open>mread\<close>, \<open>mwrite\<close>, \<open>cstr_from\<close>, \<open>strcpy\<close>), 32-bit integers as bytes, file contents.
  \<^item> \<open>L4fs_Protocol\<close>: libfs/include (opcodes, limits, the virtual methods as the record \<open>handlers\<close>).
    \<open>L4fs_Server\<close>: libfs/lib/server/svr.cc (\<open>get_name\<close>, \<open>dispatch\<close>, \<open>serve\<close>). \<open>L4fs_Stub\<close>:
    libfs/lib/src/l4fs.cc (one definition per stub). \<open>Libc_Backend\<close>: libfs/lib/libc_backend/l4fs.cc
    (\<open>fb_\<close> methods of all objects, \<open>fd_\<close> of directories, \<open>ff_\<close> of files, \<open>fs_mount\<close>).
  \<^item> \<open>Fs_Srv\<close>: fs_srv/server/src/main.cc (\<open>srv_\<close> methods, \<open>getActualPath\<close>, \<open>srv_main\<close>). \<open>Ref_Posix\<close>: an
    executable file system. \<open>Fs_Properties\<close>: properties.
  \<^item> \<open>Fs_Tests\<close>: fstest and fstest2, server/src/main.cc. \<open>Fs_Listing\<close>: the functions and phases of these
    files that stand behind a return or are not called (\<open>list_dir\<close>, \<open>fstest_further\<close>). \<open>Printf\<close>: the
    conversions of \<open>printf\<close>. \<open>Ref_Clib\<close> and, for directories, \<open>Fs_Dirs\<close>: an
    executable C library on the backend. \<open>Test_Properties\<close>: properties.
  \<^item> \<open>Tcp_Socket\<close>, \<open>Dom0_Server\<close>, \<open>Remote_Dom0\<close>, \<open>Lua_Ipc\<close>, \<open>Dom0_Main\<close>: the files of
    dom0-main/server/src of similar names; \<open>Lua_Ipc\<close> also has \<open>Ned_server::dispatch\<close> of
    dom0-ned/server/src/lua.cc. \<open>Dom0_Properties\<close>: properties.
  \<^item> \<open>Net_Example\<close>: net-example/server/main.c and client/main.c, with their properties.
  \<^item> \<open>Ned_List\<close>: the list in server.h and server.cc of dom0-ned; \<open>Ned_Server\<close>: the start of the server thread
    there. \<open>App_Task\<close>: app_task.cc and the task operations of lua_exec.cc; \<open>Ned_Exec\<close>: their lookup by Lua,
    \<open>exec\<close> as a whole, and lua_info.cc. \<open>Ned_Properties\<close>: properties. \<open>Ned_Caps\<close>: lua_cap.cc, lua_ns.cc,
    lua_factory.cc, lua_env.cc; \<open>Ned_Types\<close>: the types of capabilities in lua_cap.cc and lua_cap.h;
    \<open>Ned_Methods\<close>: method calls by name. \<open>Ned_Launch\<close>: class \<open>Am\<close> of lua_exec.cc and app_model.cc.
    \<open>Ned_Start\<close>: class \<open>Lib\<close> of lua.h, \<open>lua()\<close> of lua.cc with its command line, \<open>run()\<close> and \<open>main()\<close> of main.cc.
  \<^item> \<open>Kr_Memory\<close>: page_alloc.cc and mem.cc of dom0-l4re_kernel. \<open>Kr_Regions\<close>: region.cc, dispatcher.cc,
    \<open>insert_regions\<close> of main.cc. \<open>Kr_Stack\<close>: class \<open>L4Re_stack\<close> of loader.h, the vectors. \<open>Kr_Loader\<close>:
    loader.cc, main.cc, and the services of Ned's app_model.cc, which are the same. \<open>Kr_Vma\<close>: the
    temporary mappings and the stack of a program Ned loads (remote_mem.h). \<open>Kr_Start\<close>: the calls the kernel
    makes when it starts. \<open>Kr_Arch\<close>: the headers of the processors. \<open>Kr_Properties\<close>, \<open>Launch_Properties\<close>: properties.

  \<^bold>\<open>Conventions.\<close> State is passed explicitly; a C object is a record with the names of its members. \<open>None\<close>
  is undefined behaviour: a step out of a C object, a dangling pointer, a signed overflow. Errors the
  code reports are values: negative error numbers where the code has them, \<open>Inl\<close> for a C++
  exception, a Lua error or an exit code. Integers have the width of the code (\<open>word\<close>, or
  \<open>i32\<close> and \<open>off64\<close> on \<open>int\<close>) wherever a wrap can be reached. Loops that end are functions with a
  termination proof; those that may not end (\<open>ds_fill\<close>, \<open>write_chunk\<close>, \<open>receive_chunks\<close>, \<open>binary_loop\<close>,
  \<open>insert_loop\<close>, \<open>print_file\<close>, \<open>list_loop\<close>) are partial functions for which ending and not ending are both proved. No
  definition uses fuel; endless loops of a program are given by the number of their rounds (\<open>client_rounds\<close>,
  \<open>lockstep\<close>) or the list of their requests (\<open>serve\<close>).

  \<^bold>\<open>What is external\<close> is a parameter of the definitions, and what is used of it a locale or a named hypothesis:
  the file system behind \<open>fs_srv\<close> (\<open>posix_env\<close>; with names, \<open>posix_paths\<close>), the transport of a stub,
  the other end of a link to a file server (\<open>l4fs_remote\<close>), the C library of the test programs
  (\<open>c_library\<close>), the bitmap allocator (\<open>item_alloc\<close>, \<open>page_provider\<close>), the services of L4Re the loaders
  call (the record \<open>E\<close>, \<open>vma_env\<close>), the Lua library, \<open>getopt_long\<close> (for dom0-main and net-example the list
  of options it finds; the documented behaviour that Ned relies on is defined in \<open>Ned_Start\<close>). Sockets are scripts of what their calls will do. The implementations in the model discharge
  what they provide: the file server over any \<open>posix_env\<close> is an \<open>l4fs_object\<close> and, behind a link, an
  \<open>l4fs_remote\<close>; the C library on the backend and this server over any \<open>posix_paths\<close> is a
  \<open>c_library\<close>; the allocator over any \<open>item_alloc\<close> is a \<open>page_provider\<close>; the list of Ned is an \<open>object_list\<close>.
  \<open>ref_posix\<close>, \<open>bm_alloc\<close> and \<open>ref_mapper\<close> show that the laws of what is external can hold.

  \<^bold>\<open>What is shown.\<close>

  \<^item> File system: a remote call is a call of the method, for all nineteen operations; sessions keep the
    server's invariant and its path prefix; vectored reads and writes through the C library are
    reads and writes of the file, and fit together; the copy of a file into a dataspace ends and is
    complete, unless the file shrinks; what the size checks and the shared buffer leave open. Through
    the C library the test program \<open>fstest\<close> does what it is meant to do alone, and does not
    when \<open>fstest2\<close> runs beside it. A directory listing shows every entry, and its total modulo \<open>2 ^ 32\<close>;
    through this server no directory can be listed, so the further tests of \<open>fstest\<close> cannot succeed.
  \<^item> dom0: every cut of the stream gives the same commands and files; a Lua command reaches the
    interpreter once and is answered, from the client demonstration of \<open>main\<close> down to \<open>luaL_loadbuffer\<close>; the two ways the
    handlers leave their buffers or hang. The echo programs: what is echoed, and how the pair of
    them ends up in a fixed state.
  \<^item> Ned: the linked list refines a set of lists; task objects live exactly as long as they are
    referenced, in every history; \<open>exec\<close> leaves nothing behind when it fails; a waiter gets the exit code; the
    server thread and its creator never wait for each other for good; at the start libraries are initialised
    in order of priority, and a line that is typed has the same effect as one that is sent over IPC; rights granted by mode strings; which method a name finds on a capability; the capabilities announced to a new task are those
    mapped.
  \<^item> L4Re kernel: the order in which the thread of the program comes to run and what happens if a step
    fails, the region map copied at the start, page faults, pages handed out by \<open>mmap\<close>, the
    vectors a program finds on its stack, temporary mappings, and that all accesses to the stack of a new
    program are backed by pages.

  \<^bold>\<open>Not modelled.\<close> Texts that are only printed for diagnosis and the levels of debug output (debug.h).
  Glue of the Lua bindings that only moves values on the stack of the interpreter, the collector's
  destructor of a capability (library class \<open>Ref_cap\<close>). The ELF
  loader (libloader), the region map templates, the slab allocator and the server loops, which are
  library code. Code behind \<open>#if 0\<close>. Scripts, configuration and
  everything below \<open>required_files\<close> and \<open>doc\<close>. Threads run one at a time, except where a property is
  about their interleaving.
\<close>

end
